(* ===== verification/Prelude.thy ===== *)
theory Prelude
  imports Main "HOL-Library.Word" "HOL-Library.Sublist" "HOL-Library.Code_Target_Nat"
begin

text \<open>
  What every component shares: Go's error values and the outcomes a Go function can have
  (return, error, panic, process exit), the strings functions of the standard library the
  program uses, number formatting as \<open>fmt\<close> does it, and the byte codec interface.
  Nothing here is about bootkit itself; the lemmas are the generic ones the component
  theories rest on.
\<close>

named_theorems respects_intros "closure rules of io_respects"
named_theorems returns_intros "closure rules of returns"
named_theorems io_run "one step of a computation applied to a state"
named_theorems io_ok "inversion of computations that return Ok"

section \<open>Bytes, errors and outcomes\<close>

type_synonym byte = "8 word"
type_synonym bytes = "8 word list"

definition bytes_of_string :: "string \<Rightarrow> bytes" where
  "bytes_of_string s = map of_char s"

definition string_of_bytes :: "bytes \<Rightarrow> string" where
  "string_of_bytes b = map (\<lambda>x. char_of (unat x)) b"

lemma string_of_bytes_of_string [simp]: "string_of_bytes (bytes_of_string s) = s"
proof (induction s)
  case Nil
  show ?case by (simp add: string_of_bytes_def bytes_of_string_def)
next
  case (Cons c s)
  have "unat (of_char c :: byte) = of_char c"
  proof -
    have "of_char c = (word_of_nat (of_char c) :: byte)"
      by (cases c) (simp add: horner_sum_simps)
    moreover have "(of_char c :: nat) < 2 ^ LENGTH(8)"
      using nat_of_char_less_256 [of c] by simp
    ultimately show ?thesis by (simp add: unat_of_nat)
  qed
  with Cons show ?case
    by (simp add: string_of_bytes_def bytes_of_string_def)
qed

lemma length_bytes_of_string [simp]: "length (bytes_of_string s) = length s"
  by (simp add: bytes_of_string_def)

lemma bytes_of_string_inject [simp]: "bytes_of_string s = bytes_of_string t \<longleftrightarrow> s = t"
  by (metis string_of_bytes_of_string)

text \<open>
  The error numbers the operating system reports, and Go's error values: the
  \<open>*PathError\<close> and \<open>*LinkError\<close> of package os, \<open>io.EOF\<close>, an error made by
  \<open>errors.New\<close> or \<open>fmt.Errorf\<close>, an error that wraps another one (\<open>%w\<close>), and an error
  value a third-party library returned.
\<close>

datatype errno = ENOENT | EEXIST | ENOTDIR | EISDIR | ENOTEMPTY | EACCES | EIO | ENOSPC | EINVAL

datatype goerror =
    PathError string string errno
  | LinkError string string string errno
  | EOF
  | ErrorString string
  | WrapError string goerror
  | ExternalError string

fun errno_text :: "errno \<Rightarrow> string" where
  "errno_text ENOENT = ''no such file or directory''"
| "errno_text EEXIST = ''file exists''"
| "errno_text ENOTDIR = ''not a directory''"
| "errno_text EISDIR = ''is a directory''"
| "errno_text ENOTEMPTY = ''directory not empty''"
| "errno_text EACCES = ''permission denied''"
| "errno_text EIO = ''input/output error''"
| "errno_text ENOSPC = ''no space left on device''"
| "errno_text EINVAL = ''invalid argument''"

fun error_text :: "goerror \<Rightarrow> string" where
  "error_text (PathError op p e) = op @ '' '' @ p @ '': '' @ errno_text e"
| "error_text (LinkError op p q e) = op @ '' '' @ p @ '' '' @ q @ '': '' @ errno_text e"
| "error_text EOF = ''EOF''"
| "error_text (ErrorString s) = s"
| "error_text (WrapError s e) = s"
| "error_text (ExternalError s) = s"

fun os_IsNotExist :: "goerror \<Rightarrow> bool" where
  "os_IsNotExist (PathError op p e) = (e = ENOENT)"
| "os_IsNotExist (LinkError op p q e) = (e = ENOENT)"
| "os_IsNotExist _ = False"

text \<open>
  The outcome of a call: a value, a non-nil error, a run-time panic, or the end of the
  process (\<open>log.Fatalf\<close>), which runs no deferred call.
\<close>

datatype 'a outcome = Ok 'a | Err goerror | Panic string | Exit nat

fun is_Exit :: "'a outcome \<Rightarrow> bool" where
  "is_Exit (Exit n) = True"
| "is_Exit _ = False"

fun is_Ok :: "'a outcome \<Rightarrow> bool" where
  "is_Ok (Ok x) = True"
| "is_Ok _ = False"

fun returned :: "'a outcome \<Rightarrow> bool" where
  "returned (Ok x) = True"
| "returned (Err e) = True"
| "returned _ = False"

lemma returned_iff: "returned r \<longleftrightarrow> is_Ok r \<or> (\<exists>e. r = Err e)"
  by (cases r) auto

text \<open>The run of a computation with a known outcome, as a pair.\<close>

lemma run_pair: "fst x = r \<Longrightarrow> x = (r, snd x)"
  by (metis prod.collapse)

lemma is_Exit_iff: "is_Exit r \<longleftrightarrow> (\<exists>n. r = Exit n)"
  by (cases r) auto

lemma is_Ok_iff: "is_Ok r \<longleftrightarrow> (\<exists>x. r = Ok x)"
  by (cases r) auto

section \<open>Package strings\<close>

text \<open>\<open>strings.Split(s, sep)\<close> for a separator of one character.\<close>

fun split_on :: "char \<Rightarrow> string \<Rightarrow> string list" where
  "split_on c [] = [[]]"
| "split_on c (x # xs) =
     (if x = c then [] # split_on c xs
      else (case split_on c xs of [] \<Rightarrow> [[x]] | y # ys \<Rightarrow> (x # y) # ys))"

text \<open>\<open>strings.SplitN(s, sep, n)\<close> for \<open>n > 0\<close>: at most n parts, the last one unsplit.\<close>

fun split_on_n :: "nat \<Rightarrow> char \<Rightarrow> string \<Rightarrow> string list" where
  "split_on_n 0 c s = []"
| "split_on_n (Suc 0) c s = [s]"
| "split_on_n (Suc (Suc n)) c s =
     (if c \<in> set s
      then takeWhile (\<lambda>x. x \<noteq> c) s # split_on_n (Suc n) c (tl (dropWhile (\<lambda>x. x \<noteq> c) s))
      else [s])"

fun join_with :: "string \<Rightarrow> string list \<Rightarrow> string" where
  "join_with sep [] = []"
| "join_with sep [x] = x"
| "join_with sep (x # y # ys) = x @ sep @ join_with sep (y # ys)"

definition HasPrefix :: "string \<Rightarrow> string \<Rightarrow> bool" where
  "HasPrefix s p = (take (length p) s = p)"

definition HasSuffix :: "string \<Rightarrow> string \<Rightarrow> bool" where
  "HasSuffix s p = (length p \<le> length s \<and> drop (length s - length p) s = p)"

definition TrimRight :: "string \<Rightarrow> string \<Rightarrow> string" where
  "TrimRight s cutset = rev (dropWhile (\<lambda>c. c \<in> set cutset) (rev s))"

lemma HasPrefix_iff: "HasPrefix s p \<longleftrightarrow> (\<exists>t. s = p @ t)"
  unfolding HasPrefix_def by (metis append_eq_conv_conj append_take_drop_id)

lemma split_on_ne [simp]: "split_on c s \<noteq> []"
  by (cases s) (auto split: list.splits)

lemma split_on_no_sep: "\<forall>p \<in> set (split_on c s). c \<notin> set p"
proof (induction s)
  case Nil
  then show ?case by simp
next
  case (Cons x xs)
  then show ?case by (cases "split_on c xs") auto
qed

lemma join_split_on [simp]: "join_with [c] (split_on c s) = s"
proof (induction s)
  case Nil
  then show ?case by simp
next
  case (Cons x xs)
  obtain y ys where y: "split_on c xs = y # ys"
    by (cases "split_on c xs") auto
  with Cons show ?case
    by (cases ys) auto
qed

lemma split_on_append_sep: "c \<notin> set p \<Longrightarrow> split_on c (p @ c # s) = p # split_on c s"
  by (induction p) auto

lemma split_on_single: "c \<notin> set p \<Longrightarrow> split_on c p = [p]"
  by (induction p) auto

lemma split_join_with:
  "ps \<noteq> [] \<Longrightarrow> (\<forall>p \<in> set ps. c \<notin> set p) \<Longrightarrow> split_on c (join_with [c] ps) = ps"
proof (induction "[c]" ps rule: join_with.induct)
  case 1
  then show ?case by simp
next
  case (2 x)
  then show ?case by (simp add: split_on_single)
next
  case (3 x y ys)
  then show ?case by (simp add: split_on_append_sep)
qed

lemma length_split_on: "length (split_on c s) = Suc (count_list s c)"
proof (induction s)
  case Nil
  then show ?case by simp
next
  case (Cons x xs)
  then show ?case by (cases "split_on c xs") auto
qed

lemma join_with_Cons: "join_with sep (x # ys) = (if ys = [] then x else x @ sep @ join_with sep ys)"
  by (cases ys) auto

lemma join_with_append:
  "xs \<noteq> [] \<Longrightarrow> ys \<noteq> [] \<Longrightarrow> join_with sep (xs @ ys) = join_with sep xs @ sep @ join_with sep ys"
  by (induction xs) (auto simp: join_with_Cons)

lemma TrimRight_suffix:
  "set t \<subseteq> set cs \<Longrightarrow> (s = [] \<or> last s \<notin> set cs) \<Longrightarrow> TrimRight (s @ t) cs = s"
proof -
  assume t: "set t \<subseteq> set cs" and s: "s = [] \<or> last s \<notin> set cs"
  have "dropWhile (\<lambda>c. c \<in> set cs) (rev t @ rev s) = dropWhile (\<lambda>c. c \<in> set cs) (rev s)"
    using t by (intro dropWhile_append2) auto
  also have "\<dots> = rev s"
    using s by (cases s rule: rev_cases) auto
  finally show ?thesis by (simp add: TrimRight_def)
qed

section \<open>Package fmt: decimal and hexadecimal numbers\<close>

definition digit_char :: "nat \<Rightarrow> char" where
  "digit_char n = (if n < 10 then char_of (48 + n) else char_of (87 + n))"

fun digits_base :: "nat \<Rightarrow> nat \<Rightarrow> string" where
  "digits_base b n = (if n < b \<or> b < 2 then [digit_char n]
     else digits_base b (n div b) @ [digit_char (n mod b)])"

declare digits_base.simps [simp del]

text \<open>\<open>%d\<close> of a natural number and of an int, \<open>%x\<close> of a natural number.\<close>

definition dec :: "nat \<Rightarrow> string" where
  "dec n = digits_base 10 n"

definition dec_int :: "int \<Rightarrow> string" where
  "dec_int i = (if i < 0 then ''-'' @ dec (nat (- i)) else dec (nat i))"

definition hex :: "nat \<Rightarrow> string" where
  "hex n = digits_base 16 n"

text \<open>Reading such a number back, as the tools that receive it do.\<close>

definition digit_val :: "char \<Rightarrow> nat" where
  "digit_val c = (let n = of_char c in if n < 58 then n - 48 else n - 87)"

definition parse_base :: "nat \<Rightarrow> string \<Rightarrow> nat" where
  "parse_base b s = foldl (\<lambda>a c. a * b + digit_val c) 0 s"

lemma of_char_digit_char: "n < 16 \<Longrightarrow> of_char (digit_char n) = (if n < 10 then 48 + n else 87 + n)"
  by (simp add: digit_char_def)

lemma digit_val_char [simp]: "n < 16 \<Longrightarrow> digit_val (digit_char n) = n"
  by (simp add: digit_val_def of_char_digit_char Let_def)

lemma parse_digits_base [simp]:
  "1 < b \<Longrightarrow> b \<le> 16 \<Longrightarrow> parse_base b (digits_base b n) = n"
proof (induction b n rule: digits_base.induct)
  case (1 b n)
  show ?case
  proof (cases "n < b")
    case True
    with "1.prems" show ?thesis
      by (subst digits_base.simps) (simp add: parse_base_def)
  next
    case False
    with 1 have IH: "parse_base b (digits_base b (n div b)) = n div b" by simp
    have "n mod b < 16" using "1.prems" by (meson less_le_trans mod_less_divisor not_less zero_less_one order.strict_trans)
    with False "1.prems" IH show ?thesis
      by (subst digits_base.simps) (simp add: parse_base_def)
  qed
qed

lemma parse_dec [simp]: "parse_base 10 (dec n) = n"
  by (simp add: dec_def)

lemma parse_hex [simp]: "parse_base 16 (hex n) = n"
  by (simp add: hex_def)

lemma dec_inject [simp]: "dec m = dec n \<longleftrightarrow> m = n"
  by (metis parse_dec)

lemma hex_inject [simp]: "hex m = hex n \<longleftrightarrow> m = n"
  by (metis parse_hex)

lemma digits_base_ne [simp]: "digits_base b n \<noteq> []"
  by (subst digits_base.simps) simp

lemma dec_ne [simp]: "dec n \<noteq> []"
  by (simp add: dec_def)

lemma digits_base_chars:
  "b \<le> 16 \<Longrightarrow> 1 < b \<Longrightarrow> c \<in> set (digits_base b n) \<Longrightarrow> \<exists>d < b. c = digit_char d"
proof (induction b n rule: digits_base.induct)
  case (1 b n)
  show ?case
  proof (cases "n < b")
    case True
    with "1.prems" show ?thesis by (subst (asm) digits_base.simps) auto
  next
    case False
    with "1.prems" have "c \<in> set (digits_base b (n div b)) \<or> c = digit_char (n mod b)"
      by (subst (asm) digits_base.simps) (auto split: if_splits)
    moreover have "n mod b < b" using "1.prems" by simp
    ultimately show ?thesis
    proof (elim disjE)
      assume "c \<in> set (digits_base b (n div b))"
      with 1 False show ?thesis by auto
    qed blast
  qed
qed

lemma dec_digits: "c \<in> set (dec n) \<Longrightarrow> 48 \<le> (of_char c :: nat) \<and> (of_char c :: nat) < 58"
proof -
  assume "c \<in> set (dec n)"
  then obtain d where "d < 10" "c = digit_char d"
    unfolding dec_def using digits_base_chars [of 10 c n] by auto
  then show ?thesis by (simp add: of_char_digit_char)
qed

lemma dec_not_in: "\<not> (48 \<le> (of_char c :: nat) \<and> (of_char c :: nat) < 58) \<Longrightarrow> c \<notin> set (dec n)"
  using dec_digits by blast

section \<open>Byte codecs\<close>

text \<open>
  The interface of a self-delimiting encoding: what the decoder returns on an encoded value
  followed by anything else. Records and sequences of such values then decode one field
  after the other.
\<close>

locale codec =
  fixes enc :: "'a \<Rightarrow> 'b list"
    and dec :: "'b list \<Rightarrow> ('a \<times> 'b list) option"
  assumes dec_enc: "dec (enc x @ rest) = Some (x, rest)"
begin

lemma dec_enc_nil: "dec (enc x) = Some (x, [])"
  using dec_enc [of x "[]"] by simp

lemma enc_inject: "enc x = enc y \<longleftrightarrow> x = y"
  by (metis dec_enc_nil option.inject prod.inject)

lemma enc_prefix_free: "enc x @ r = enc y @ s \<longleftrightarrow> x = y \<and> r = s"
  by (metis dec_enc option.inject prod.inject)

end

end
