(* ===== verification/Base64.thy ===== *)
theory Base64
  imports Prelude
begin

text \<open>
  Package encoding/base64, the standard encoding with padding, on byte lists. Decoding skips
  line ends and refuses any other byte outside the alphabet, a missing padding and anything
  after it, as the decoder of the library does in its default (not strict) mode.
\<close>

section \<open>The alphabet\<close>

text \<open>The digits A-Z, a-z, 0-9, + and /, and their values.\<close>

definition b64_digit :: "nat \<Rightarrow> byte" where
  "b64_digit n = word_of_nat
     (if n < 26 then n + 65 else if n < 52 then n + 71 else if n < 62 then n - 4
      else if n = 62 then 43 else 47)"

definition b64_value :: "byte \<Rightarrow> nat option" where
  "b64_value x =
     (let n = unat x in
      if 65 \<le> n \<and> n \<le> 90 then Some (n - 65)
      else if 97 \<le> n \<and> n \<le> 122 then Some (n - 71)
      else if 48 \<le> n \<and> n \<le> 57 then Some (n + 4)
      else if n = 43 then Some 62
      else if n = 47 then Some 63
      else None)"

definition b64_pad :: byte where
  "b64_pad = 61"

definition is_newline :: "byte \<Rightarrow> bool" where
  "is_newline x \<longleftrightarrow> x = 10 \<or> x = 13"

definition b64_byte :: "byte \<Rightarrow> bool" where
  "b64_byte x \<longleftrightarrow> b64_value x \<noteq> None \<or> x = b64_pad"

lemma unat_b64_digit:
  "unat (b64_digit n) =
     (if n < 26 then n + 65 else if n < 52 then n + 71 else if n < 62 then n - 4
      else if n = 62 then 43 else 47)"
  by (simp add: b64_digit_def unat_of_nat)

lemma b64_value_digit [simp]: "n < 64 \<Longrightarrow> b64_value (b64_digit n) = Some n"
  by (auto simp: b64_value_def unat_b64_digit Let_def)

lemma b64_digit_pad [simp]: "n < 64 \<Longrightarrow> b64_digit n \<noteq> b64_pad"
proof
  assume "n < 64" and "b64_digit n = b64_pad"
  then have "unat (b64_digit n) = 61" by (simp add: b64_pad_def)
  with \<open>n < 64\<close> show False by (simp add: unat_b64_digit split: if_splits)
qed

lemma b64_byte_digit [simp]: "n < 64 \<Longrightarrow> b64_byte (b64_digit n)"
  and b64_byte_pad [simp]: "b64_byte b64_pad"
  by (simp_all add: b64_byte_def)

section \<open>Encoding and decoding\<close>

fun b64_encode :: "bytes \<Rightarrow> bytes" where
  "b64_encode [] = []"
| "b64_encode [a] =
     [b64_digit (unat a div 4), b64_digit (unat a mod 4 * 16), b64_pad, b64_pad]"
| "b64_encode [a, b] =
     [b64_digit (unat a div 4), b64_digit (unat a mod 4 * 16 + unat b div 16),
      b64_digit (unat b mod 16 * 4), b64_pad]"
| "b64_encode (a # b # c # rest) =
     [b64_digit (unat a div 4), b64_digit (unat a mod 4 * 16 + unat b div 16),
      b64_digit (unat b mod 16 * 4 + unat c div 64), b64_digit (unat c mod 64)] @ b64_encode rest"

text \<open>The bytes of a group of digits; the low bits of the last digit before a padding are dropped.\<close>

definition group1 :: "nat \<Rightarrow> nat \<Rightarrow> byte" where
  "group1 p q = word_of_nat (p * 4 + q div 16)"

definition group2 :: "nat \<Rightarrow> nat \<Rightarrow> byte" where
  "group2 q r = word_of_nat (q mod 16 * 16 + r div 4)"

definition group3 :: "nat \<Rightarrow> nat \<Rightarrow> byte" where
  "group3 r s = word_of_nat (r mod 4 * 64 + s)"

fun b64_groups :: "bytes \<Rightarrow> bytes option" where
  "b64_groups [] = Some []"
| "b64_groups (a # b # c # d # rest) =
     (case (b64_value a, b64_value b) of
        (Some p, Some q) \<Rightarrow>
          if c = b64_pad then
            if d = b64_pad \<and> rest = [] then Some [group1 p q] else None
          else (case b64_value c of
              None \<Rightarrow> None
            | Some r \<Rightarrow>
                if d = b64_pad then
                  if rest = [] then Some [group1 p q, group2 q r] else None
                else (case (b64_value d, b64_groups rest) of
                    (Some s, Some bs) \<Rightarrow> Some (group1 p q # group2 q r # group3 r s # bs)
                  | _ \<Rightarrow> None))
      | _ \<Rightarrow> None)"
| "b64_groups _ = None"

definition b64_decode :: "bytes \<Rightarrow> bytes option" where
  "b64_decode cs = b64_groups (filter (\<lambda>x. \<not> is_newline x) cs)"

section \<open>Round trip\<close>

lemma unat_byte: "unat (x :: byte) < 256"
  using unsigned_less [of x] by simp

lemma group1_split: "group1 (unat a div 4) (unat a mod 4 * 16 + unat (b :: byte) div 16) = a"
proof -
  have "(unat a mod 4 * 16 + unat b div 16) div 16 = unat a mod 4"
    using unat_byte [of b] by (simp add: div_mult_self3)
  then have "unat a div 4 * 4 + (unat a mod 4 * 16 + unat b div 16) div 16 = unat a"
    by (simp add: mult.commute)
  then show ?thesis by (simp add: group1_def)
qed

lemma group1_split_last: "group1 (unat a div 4) (unat a mod 4 * 16) = (a :: byte)"
  using group1_split [of a 0] by simp

lemma group2_split:
  "group2 (unat (a :: byte) mod 4 * 16 + unat (b :: byte) div 16) (unat b mod 16 * 4 + unat (c :: byte) div 64) = b"
proof -
  have "(unat a mod 4 * 16 + unat b div 16) mod 16 = unat b div 16"
    using unat_byte [of b] by simp
  moreover have "(unat b mod 16 * 4 + unat c div 64) div 4 = unat b mod 16"
    using unat_byte [of c] by simp
  ultimately have "(unat a mod 4 * 16 + unat b div 16) mod 16 * 16 +
      (unat b mod 16 * 4 + unat c div 64) div 4 = unat b"
    by (simp add: mult.commute)
  then show ?thesis by (simp add: group2_def)
qed

lemma group2_split_last:
  "group2 (unat (a :: byte) mod 4 * 16 + unat b div 16) (unat b mod 16 * 4) = (b :: byte)"
  using group2_split [of a b 0] by simp

lemma group3_split: "group3 (unat (b :: byte) mod 16 * 4 + unat c div 64) (unat c mod 64) = (c :: byte)"
proof -
  have "(unat b mod 16 * 4 + unat c div 64) mod 4 = unat c div 64"
    using unat_byte [of c] by simp
  then have "(unat b mod 16 * 4 + unat c div 64) mod 4 * 64 + unat c mod 64 = unat c"
    by simp
  then show ?thesis by (simp add: group3_def)
qed

lemma digit_bounds:
  "unat (a :: byte) div 4 < 64" "unat a mod 4 * 16 + unat (b :: byte) div 16 < 64"
  "unat b mod 16 * 4 + unat (c :: byte) div 64 < 64" "unat c mod 64 < 64"
  "unat a mod 4 * 16 < 64" "unat b mod 16 * 4 < 64"
  using unat_byte [of a] unat_byte [of b] unat_byte [of c] by auto

lemma b64_groups_encode: "b64_groups (b64_encode bs) = Some bs"
  by (induction bs rule: b64_encode.induct)
    (simp_all add: digit_bounds group1_split group1_split_last group2_split group2_split_last group3_split
      del: One_nat_def)

lemma b64_encode_bytes: "x \<in> set (b64_encode bs) \<Longrightarrow> b64_byte x"
  by (induction bs rule: b64_encode.induct) (auto simp: digit_bounds)

lemma b64_byte_plain:
  assumes "b64_byte x"
  shows "\<not> is_newline x" "x \<noteq> 45" "x \<noteq> 58" "x \<noteq> 32" "x \<noteq> 9" "x \<noteq> 10" "x \<noteq> 13"
  using assms by (auto simp: b64_byte_def b64_value_def b64_pad_def is_newline_def)

text \<open>Line ends put in anywhere do not matter.\<close>

lemma b64_decode_lines:
  assumes "filter (\<lambda>x. \<not> is_newline x) cs = b64_encode bs"
  shows "b64_decode cs = Some bs"
  by (simp add: b64_decode_def assms b64_groups_encode)

end
