(* ===== verification/Pem.thy ===== *)
theory Pem
  imports Base64
begin

text \<open>
  Package encoding/pem: writing a block without headers, and the search for the first block in
  a byte string. Of the headers of a block only their presence matters to the code, which reads
  nothing but the bytes of the block it gets.
\<close>

section \<open>Definitions\<close>

record pem_block =
  blk_Type :: string
  blk_Bytes :: bytes

abbreviation nl_byte :: byte where "nl_byte \<equiv> 10"

definition pem_dashes :: bytes where "pem_dashes = [45, 45, 45, 45, 45]"
definition pem_begin :: bytes where "pem_begin = pem_dashes @ [66, 69, 71, 73, 78, 32]"
definition pem_end :: bytes where "pem_end = pem_dashes @ [69, 78, 68, 32]"

text \<open>The line breaker of the encoder: full lines of 64 bytes, then the rest.\<close>

function break_lines :: "bytes \<Rightarrow> bytes" where
  "break_lines cs = (if cs = [] then [] else take 64 cs @ nl_byte # break_lines (drop 64 cs))"
  by pat_completeness auto
termination by (relation "measure length") auto

declare break_lines.simps [simp del]

definition pem_Encode :: "pem_block \<Rightarrow> bytes" where
  "pem_Encode blk =
     pem_begin @ bytes_of_string (blk_Type blk) @ pem_dashes @ nl_byte #
     break_lines (b64_encode (blk_Bytes blk)) @
     pem_end @ bytes_of_string (blk_Type blk) @ pem_dashes @ [nl_byte]"

text \<open>getLine: a line without its end and without trailing spaces and tabs, and what follows.\<close>

definition trim_blanks :: "bytes \<Rightarrow> bytes" where
  "trim_blanks s = rev (dropWhile (\<lambda>x. x = 32 \<or> x = 9) (rev s))"

definition getLine :: "bytes \<Rightarrow> bytes \<times> bytes" where
  "getLine data =
     (let line = takeWhile (\<lambda>x. x \<noteq> nl_byte) data in
      case dropWhile (\<lambda>x. x \<noteq> nl_byte) data of
        [] \<Rightarrow> (trim_blanks line, [])
      | _ # rest \<Rightarrow>
          (trim_blanks (if line \<noteq> [] \<and> last line = 13 then butlast line else line), rest))"

definition has_prefix :: "bytes \<Rightarrow> bytes \<Rightarrow> bool" where
  "has_prefix p s \<longleftrightarrow> take (length p) s = p"

definition has_suffix :: "bytes \<Rightarrow> bytes \<Rightarrow> bool" where
  "has_suffix p s \<longleftrightarrow> length p \<le> length s \<and> drop (length s - length p) s = p"

fun index_of :: "bytes \<Rightarrow> bytes \<Rightarrow> nat option" where
  "index_of p [] = (if p = [] then Some 0 else None)"
| "index_of p (x # s) = (if has_prefix p (x # s) then Some 0 else map_option Suc (index_of p s))"

text \<open>What follows the next begin marker: at the start of the data or of a later line.\<close>

definition after_begin :: "bytes \<Rightarrow> bytes option" where
  "after_begin rest =
     (if has_prefix pem_begin rest then Some (drop (length pem_begin) rest)
      else map_option (\<lambda>i. drop (i + 1 + length pem_begin) rest) (index_of (nl_byte # pem_begin) rest))"

text \<open>The header lines: whether there is any, and the data after them; None when it ends there.\<close>

function skip_headers :: "bool \<Rightarrow> bytes \<Rightarrow> (bool \<times> bytes) option" where
  "skip_headers seen rest =
     (if rest = [] then None
      else if 58 \<notin> set (fst (getLine rest)) then Some (seen, rest)
      else skip_headers True (snd (getLine rest)))"
  by pat_completeness auto

lemma getLine_shorter: "data \<noteq> [] \<Longrightarrow> length (snd (getLine data)) < length data"
proof -
  assume "data \<noteq> []"
  have "length (dropWhile (\<lambda>x. x \<noteq> nl_byte) data) \<le> length data" by (rule length_dropWhile_le)
  with \<open>data \<noteq> []\<close> show ?thesis by (auto simp: getLine_def Let_def split: list.split)
qed

lemma getLine_le: "length (snd (getLine data)) \<le> length data"
  using getLine_shorter [of data] by (cases "data = []") (auto simp: getLine_def)

termination skip_headers
  by (relation "measure (\<lambda>(seen, rest). length rest)") (auto dest: getLine_shorter)

declare skip_headers.simps [simp del]

lemma skip_headers_le: "skip_headers seen rest = Some (h, r) \<Longrightarrow> length r \<le> length rest"
proof (induction seen rest rule: skip_headers.induct)
  case (1 seen rest)
  from "1.prems" show ?case
    by (subst (asm) skip_headers.simps)
      (use "1.IH" getLine_le [of rest] in \<open>auto split: if_splits intro: order_trans\<close>)
qed

text \<open>The body of a block of type ty: None when the block is malformed, and the search goes on.\<close>

definition pem_body :: "bytes \<Rightarrow> bool \<Rightarrow> bytes \<Rightarrow> pem_block option" where
  "pem_body ty headers rest =
     (case (if \<not> headers \<and> has_prefix pem_end rest then Some (0, length pem_end)
            else map_option (\<lambda>i. (i, i + 1 + length pem_end)) (index_of (nl_byte # pem_end) rest)) of
        None \<Rightarrow> None
      | Some (endIndex, endTrailerIndex) \<Rightarrow>
          let trailer = drop endTrailerIndex rest; n = length ty + length pem_dashes in
          if length trailer < n \<or> \<not> has_prefix ty (take n trailer) \<or> \<not> has_suffix pem_dashes (take n trailer)
             \<or> fst (getLine (drop n trailer)) \<noteq> [] then None
          else map_option (\<lambda>b. \<lparr>blk_Type = string_of_bytes ty, blk_Bytes = b\<rparr>)
                 (b64_decode (filter (\<lambda>x. x \<noteq> 32 \<and> x \<noteq> 9) (take endIndex rest))))"

function pem_Decode :: "bytes \<Rightarrow> pem_block option" where
  "pem_Decode data =
     (case after_begin data of
        None \<Rightarrow> None
      | Some s \<Rightarrow>
          let typeLine = fst (getLine s); rest = snd (getLine s) in
          if \<not> has_suffix pem_dashes typeLine then pem_Decode rest
          else (case skip_headers False rest of
              None \<Rightarrow> None
            | Some (h, rest') \<Rightarrow>
                (case pem_body (take (length typeLine - 5) typeLine) h rest' of
                   None \<Rightarrow> pem_Decode rest'
                 | Some blk \<Rightarrow> Some blk)))"
  by pat_completeness auto

lemma index_of_bound: "index_of p s = Some i \<Longrightarrow> i + length p \<le> length s"
proof (induction s arbitrary: i)
  case (Cons x s)
  then show ?case
    by (auto simp: has_prefix_def split: if_splits) (metis length_Cons length_take min.cobounded1)
qed (auto split: if_splits)

lemma after_begin_shorter: "after_begin data = Some s \<Longrightarrow> length s < length data"
proof -
  assume a: "after_begin data = Some s"
  have n: "length pem_begin = 11" by (simp add: pem_begin_def pem_dashes_def)
  show ?thesis
  proof (cases "has_prefix pem_begin data")
    case True
    then have "length pem_begin \<le> length data"
      by (metis has_prefix_def length_take min.cobounded1)
    with a True n show ?thesis by (auto simp: after_begin_def)
  next
    case False
    with a index_of_bound [of "nl_byte # pem_begin" data] n show ?thesis
      by (auto simp: after_begin_def)
  qed
qed

termination pem_Decode
proof (relation "measure length")
  fix data s typeLine rest
  assume "after_begin data = Some s" and "typeLine = fst (getLine s)" and "rest = snd (getLine s)"
  then show "(rest, data) \<in> measure length"
    using after_begin_shorter [of data s] getLine_le [of s] by simp
next
  fix data s typeLine rest p h rest'
  assume "after_begin data = Some s" and "rest = snd (getLine s)"
    and "skip_headers False rest = Some p" and "(h, rest') = p"
  then show "(rest', data) \<in> measure length"
    using after_begin_shorter [of data s] getLine_le [of s] skip_headers_le [of False rest h rest'] by auto
qed simp

declare pem_Decode.simps [simp del]

section \<open>Round trip\<close>

lemma has_prefix_append [simp]: "has_prefix p (p @ s)"
  by (simp add: has_prefix_def)

lemma has_suffix_append [simp]: "has_suffix p (s @ p)"
  by (simp add: has_suffix_def)

lemma trim_blanks_id: "s \<noteq> [] \<Longrightarrow> last s \<noteq> 32 \<Longrightarrow> last s \<noteq> 9 \<Longrightarrow> trim_blanks s = s"
  by (cases s rule: rev_cases) (auto simp: trim_blanks_def)

lemma set_getLine: "set (fst (getLine s)) \<subseteq> set (takeWhile (\<lambda>x. x \<noteq> nl_byte) s)"
  by (auto simp: getLine_def trim_blanks_def Let_def split: list.splits if_splits
      dest!: set_dropWhileD in_set_butlastD)

lemma set_takeWhile_line: "set (takeWhile (\<lambda>x. x \<noteq> nl_byte) (l @ nl_byte # s)) \<subseteq> set l"
  by (induction l) auto

lemma getLine_line:
  assumes "nl_byte \<notin> set l" and "l \<noteq> []" and "last l \<notin> {13, 32, 9}"
  shows "getLine (l @ nl_byte # s) = (l, s)"
proof -
  have "takeWhile (\<lambda>x. x \<noteq> nl_byte) (l @ nl_byte # s) = l \<and> dropWhile (\<lambda>x. x \<noteq> nl_byte) (l @ nl_byte # s) = nl_byte # s"
    using assms(1) by (induction l) auto
  with assms show ?thesis by (simp add: getLine_def trim_blanks_id)
qed

lemma getLine_empty: "getLine (nl_byte # s) = ([], s)"
  by (simp add: getLine_def trim_blanks_def)

text \<open>A marker that begins with a line end and a dash is found behind text without dashes.\<close>

lemma index_of_behind:
  assumes "45 \<notin> set l"
  shows "index_of (nl_byte # 45 # p) (l @ nl_byte # 45 # p @ s) = Some (length l)"
  using assms
proof (induction l)
  case (Cons x l)
  then have "\<not> has_prefix (nl_byte # 45 # p) (x # l @ nl_byte # 45 # p @ s)"
    by (cases l) (auto simp: has_prefix_def)
  with Cons show ?case by simp
qed (simp add: has_prefix_def)

lemma break_lines_filter:
  "(\<And>x. x \<in> set cs \<Longrightarrow> \<not> is_newline x) \<Longrightarrow> filter (\<lambda>x. \<not> is_newline x) (break_lines cs) = cs"
proof (induction cs rule: break_lines.induct)
  case (1 cs)
  have "filter (\<lambda>x. \<not> is_newline x) (take 64 cs) = take 64 cs"
    using "1.prems" by (auto simp: filter_id_conv dest: in_set_takeD)
  moreover have "cs \<noteq> [] \<Longrightarrow> filter (\<lambda>x. \<not> is_newline x) (break_lines (drop 64 cs)) = drop 64 cs"
    by (rule "1.IH", assumption) (use "1.prems" in \<open>blast dest: in_set_dropD\<close>)
  ultimately show ?case
    by (subst break_lines.simps) (simp add: is_newline_def)
qed

lemma break_lines_set: "set (break_lines cs) \<subseteq> insert nl_byte (set cs)"
proof (induction cs rule: break_lines.induct)
  case (1 cs)
  then show ?case
    by (subst break_lines.simps) (auto dest: in_set_takeD in_set_dropD)
qed

lemma break_lines_last: "cs \<noteq> [] \<Longrightarrow> \<exists>l. break_lines cs = l @ [nl_byte]"
proof (induction cs rule: break_lines.induct)
  case (1 cs)
  then show ?case
    by (subst break_lines.simps) (cases "drop 64 cs = []"; auto simp: break_lines.simps [of "[]"])
qed

lemma pem_end_eq: "pem_end = 45 # tl pem_end"
  by (simp add: pem_end_def pem_dashes_def)

lemma break_lines_encode:
  assumes "x \<in> set (break_lines (b64_encode bs))"
  shows "x = nl_byte \<or> x \<notin> {45, 58, 32, 9, 10, 13}"
  using subsetD [OF break_lines_set assms] by (auto dest: b64_encode_bytes b64_byte_plain)

lemma pem_body_encode:
  assumes "nl_byte \<notin> set ty"
  shows "pem_body ty False (break_lines (b64_encode bs) @ pem_end @ ty @ pem_dashes @ nl_byte # s)
    = Some \<lparr>blk_Type = string_of_bytes ty, blk_Bytes = bs\<rparr>"
proof (cases "b64_encode bs = []")
  case True
  then have "bs = []" by (cases bs rule: b64_encode.cases) auto
  then show ?thesis
    by (simp add: pem_body_def break_lines.simps [of "[]"] getLine_empty b64_decode_def)
next
  case False
  then obtain l where l: "break_lines (b64_encode bs) = l @ [nl_byte]"
    using break_lines_last by blast
  have plain: "x \<notin> {45, 58, 32, 9}" if "x \<in> set l" for x
    using break_lines_encode [of x bs] that l by auto
  let ?rest = "l @ [nl_byte] @ pem_end @ ty @ pem_dashes @ nl_byte # s"
  have "hd (break_lines (b64_encode bs)) \<noteq> 45" and "break_lines (b64_encode bs) \<noteq> []"
    using plain l by (cases l; auto)+
  then have np: "\<not> has_prefix pem_end ?rest"
    by (cases l) (auto simp: l has_prefix_def pem_end_def pem_dashes_def)
  have "index_of (nl_byte # 45 # tl pem_end) (l @ nl_byte # 45 # tl pem_end @ (ty @ pem_dashes @ nl_byte # s))
      = Some (length l)"
    by (rule index_of_behind) (use plain in auto)
  then have ix: "index_of (nl_byte # pem_end) ?rest = Some (length l)"
    using pem_end_eq by (metis append_Cons append_Nil)
  have fb: "filter (\<lambda>x. x \<noteq> 32 \<and> x \<noteq> 9) l = l"
    using plain by (auto simp: filter_id_conv)
  have "filter (\<lambda>x. \<not> is_newline x) (l @ [nl_byte]) = b64_encode bs"
    unfolding l [symmetric]
    by (rule break_lines_filter) (use b64_encode_bytes b64_byte_plain in blast)
  then have "b64_decode l = Some bs" by (intro b64_decode_lines) (simp add: is_newline_def)
  with np ix fb show ?thesis
    by (simp add: pem_body_def l getLine_empty)
qed

lemma of_char_eq_byte: "of_char c = (of_char d :: byte) \<longleftrightarrow> c = d"
  using bytes_of_string_inject [of "[c]" "[d]"] by (simp add: bytes_of_string_def)

lemma pem_Decode_Encode:
  assumes "CHR 0x0A \<notin> set (blk_Type blk)" and "CHR 0x3A \<notin> set (blk_Type blk)"
  shows "pem_Decode (pem_Encode blk @ s) = Some blk"
proof -
  let ?ty = "bytes_of_string (blk_Type blk)"
  let ?body = "break_lines (b64_encode (blk_Bytes blk))"
  let ?rest = "?body @ pem_end @ ?ty @ pem_dashes @ nl_byte # s"
  have code: "of_char c = (10 :: byte) \<longleftrightarrow> c = CHR 0x0A" "of_char c = (58 :: byte) \<longleftrightarrow> c = CHR 0x3A" for c
    using of_char_eq_byte [of c "CHR 0x0A"] of_char_eq_byte [of c "CHR 0x3A"] by simp_all
  have ty: "nl_byte \<notin> set ?ty" "58 \<notin> set ?ty"
    using assms by (auto simp: bytes_of_string_def code)
  have d: "nl_byte \<notin> set pem_dashes" "58 \<notin> set pem_dashes" "nl_byte \<notin> set pem_end" "58 \<notin> set pem_end"
    "pem_dashes \<noteq> []" "last pem_dashes = 45" "length pem_dashes = 5"
    by (simp_all add: pem_dashes_def pem_end_def)
  have a: "after_begin (pem_Encode blk @ s) = Some ((?ty @ pem_dashes) @ nl_byte # ?rest)"
    by (simp add: after_begin_def pem_Encode_def)
  have g: "getLine ((?ty @ pem_dashes) @ nl_byte # ?rest) = (?ty @ pem_dashes, ?rest)"
    by (rule getLine_line) (use ty d in auto)
  have "58 \<notin> set (?body @ pem_end @ ?ty @ pem_dashes)"
    using ty d break_lines_encode [of 58 "blk_Bytes blk"] by auto
  with set_takeWhile_line
  have "58 \<notin> set (takeWhile (\<lambda>x. x \<noteq> nl_byte) ((?body @ pem_end @ ?ty @ pem_dashes) @ nl_byte # s))"
    by (rule contra_subsetD)
  then have "58 \<notin> set (fst (getLine ?rest))"
    using contra_subsetD [OF set_getLine [of ?rest]] by simp
  then have h: "skip_headers False ?rest = Some (False, ?rest)"
    by (subst skip_headers.simps) (simp add: pem_end_def pem_dashes_def)
  have b: "pem_body ?ty False ?rest = Some blk"
    using pem_body_encode [OF ty(1)] by simp
  show ?thesis
    by (subst pem_Decode.simps) (simp only: a g h b option.case Let_def fst_conv snd_conv prod.case,
      simp add: d b)
qed

end
