(* ===== verification/Paths.thy ===== *)
theory Paths
  imports Prelude
begin

text \<open>
  Packages path and path/filepath of the Go standard library on Unix, as far as the program
  uses them: Clean, Join, Dir, IsAbs, and the sequence of components a path denotes, which
  is the key of a file in the file-system model.
\<close>

section \<open>Definitions\<close>

abbreviation slash :: char where
  "slash \<equiv> CHR ''/''"

text \<open>
  One step of Clean: empty components and \<open>.\<close> vanish, \<open>..\<close> removes the component
  before it, is dropped at the root, and is kept where there is nothing to remove.
\<close>

definition clean_step :: "bool \<Rightarrow> string list \<Rightarrow> string \<Rightarrow> string list" where
  "clean_step rooted acc c =
     (if c = [] \<or> c = ''.'' then acc
      else if c = ''..'' then
        (if acc \<noteq> [] \<and> last acc \<noteq> ''..'' then butlast acc
         else if rooted then acc else acc @ [c])
      else acc @ [c])"

definition clean_comps :: "bool \<Rightarrow> string list \<Rightarrow> string list" where
  "clean_comps rooted cs = foldl (clean_step rooted) [] cs"

definition path_IsAbs :: "string \<Rightarrow> bool" where
  "path_IsAbs p = HasPrefix p ''/''"

definition path_comps :: "string \<Rightarrow> string list" where
  "path_comps p = clean_comps (path_IsAbs p) (split_on slash p)"

definition path_of_comps :: "bool \<Rightarrow> string list \<Rightarrow> string" where
  "path_of_comps rooted cs =
     (if rooted then ''/'' @ join_with ''/'' cs
      else if cs = [] then ''.'' else join_with ''/'' cs)"

definition path_Clean :: "string \<Rightarrow> string" where
  "path_Clean p = path_of_comps (path_IsAbs p) (path_comps p)"

text \<open>Join drops leading empty elements; the others vanish in Clean.\<close>

definition path_Join :: "string list \<Rightarrow> string" where
  "path_Join elems =
     (case dropWhile (\<lambda>e. e = []) elems of
        [] \<Rightarrow> []
      | es \<Rightarrow> path_Clean (join_with ''/'' es))"

text \<open>Dir: everything up to and including the last slash, cleaned.\<close>

definition path_Dir :: "string \<Rightarrow> string" where
  "path_Dir p = path_Clean (rev (dropWhile (\<lambda>c. c \<noteq> slash) (rev p)))"

section \<open>Facts\<close>

definition proper_comp :: "string \<Rightarrow> bool" where
  "proper_comp c \<longleftrightarrow> c \<noteq> [] \<and> c \<noteq> ''.'' \<and> c \<noteq> ''..'' \<and> slash \<notin> set c"

definition dotdots :: "string list \<Rightarrow> bool" where
  "dotdots cs \<longleftrightarrow> (\<forall>c \<in> set cs. c = ''..'')"

text \<open>The shape Clean leaves: proper components, after some \<open>..\<close> in a relative path only.\<close>

definition cleaned_comps :: "bool \<Rightarrow> string list \<Rightarrow> bool" where
  "cleaned_comps rooted cs \<longleftrightarrow>
     (\<exists>us ps. cs = us @ ps \<and> dotdots us \<and> (\<forall>p \<in> set ps. proper_comp p) \<and> (rooted \<longrightarrow> us = []))"

lemma cleaned_compsI:
  "dotdots us \<Longrightarrow> \<forall>p \<in> set ps. proper_comp p \<Longrightarrow> (r \<longrightarrow> us = []) \<Longrightarrow> cleaned_comps r (us @ ps)"
  unfolding cleaned_comps_def by blast

lemma clean_comps_Nil [simp]: "clean_comps r [] = []"
  by (simp add: clean_comps_def)

lemma clean_comps_snoc: "clean_comps r (cs @ [c]) = clean_step r (clean_comps r cs) c"
  by (simp add: clean_comps_def)

lemma clean_step_proper [simp]: "proper_comp c \<Longrightarrow> clean_step r acc c = acc @ [c]"
  by (auto simp: proper_comp_def clean_step_def)

lemma clean_step_empty [simp]: "clean_step r acc [] = acc"
  by (simp add: clean_step_def)

lemma foldl_clean_proper:
  "\<forall>p \<in> set ps. proper_comp p \<Longrightarrow> foldl (clean_step r) acc ps = acc @ ps"
  by (induction ps arbitrary: acc) auto

lemma foldl_clean_dotdots:
  "dotdots us \<Longrightarrow> dotdots acc \<Longrightarrow> foldl (clean_step False) acc us = acc @ us"
proof (induction us arbitrary: acc)
  case Nil
  then show ?case by simp
next
  case (Cons u us)
  then have "clean_step False acc u = acc @ [u]"
    by (cases acc rule: rev_cases) (auto simp: dotdots_def clean_step_def)
  moreover have "dotdots (acc @ [u])" and "dotdots us"
    using Cons.prems by (auto simp: dotdots_def)
  ultimately show ?case using Cons.IH by simp
qed

lemma clean_step_cleaned:
  assumes "cleaned_comps r acc" and "slash \<notin> set c"
  shows "cleaned_comps r (clean_step r acc c)"
proof -
  from assms(1) obtain us ps where acc: "acc = us @ ps" and us: "dotdots us"
    and ps: "\<forall>p \<in> set ps. proper_comp p" and r: "r \<longrightarrow> us = []"
    by (auto simp: cleaned_comps_def)
  consider (skip) "c = [] \<or> c = ''.''" | (up) "c = ''..''" | (proper) "proper_comp c"
    using assms(2) by (auto simp: proper_comp_def)
  then show ?thesis
  proof cases
    case skip
    with assms(1) show ?thesis by (simp add: clean_step_def)
  next
    case proper
    then have "clean_step r acc c = us @ (ps @ [c])" by (simp add: acc)
    moreover have "\<forall>p \<in> set (ps @ [c]). proper_comp p" using ps proper by simp
    ultimately show ?thesis using us r by (metis cleaned_compsI)
  next
    case up
    show ?thesis
    proof (cases ps rule: rev_cases)
      case Nil
      have "clean_step r acc c = (if r then us else us @ [c])"
      proof (cases us rule: rev_cases)
        case (snoc us' u)
        with us have "u = ''..''" by (simp add: dotdots_def)
        with snoc Nil acc up show ?thesis by (simp add: clean_step_def)
      qed (simp add: clean_step_def acc Nil up)
      moreover have "dotdots (us @ [c])" using us up by (simp add: dotdots_def)
      ultimately show ?thesis
        using us r cleaned_compsI [of us "[]" r] cleaned_compsI [of "us @ [c]" "[]" r]
        by (cases r) simp_all
    next
      case (snoc ps' p)
      with ps have "p \<noteq> ''..''" by (simp add: proper_comp_def)
      with snoc acc up have "clean_step r acc c = us @ ps'"
        by (simp add: clean_step_def butlast_append)
      with us ps r snoc show ?thesis by (simp add: cleaned_compsI)
    qed
  qed
qed

lemma clean_comps_cleaned:
  "\<forall>c \<in> set cs. slash \<notin> set c \<Longrightarrow> cleaned_comps r (clean_comps r cs)"
proof (induction cs rule: rev_induct)
  case Nil
  then show ?case by (auto simp: cleaned_comps_def dotdots_def)
next
  case (snoc c cs)
  then show ?case by (simp add: clean_comps_snoc clean_step_cleaned)
qed

lemma clean_comps_idem: "cleaned_comps r cs \<Longrightarrow> clean_comps r cs = cs"
proof -
  assume "cleaned_comps r cs"
  then obtain us ps where cs: "cs = us @ ps" and us: "dotdots us"
    and ps: "\<forall>p \<in> set ps. proper_comp p" and r: "r \<longrightarrow> us = []"
    by (auto simp: cleaned_comps_def)
  have "foldl (clean_step r) [] us = us"
    using us r foldl_clean_dotdots [of us "[]"] by (cases r) (auto simp: dotdots_def)
  with ps show ?thesis by (simp add: clean_comps_def cs foldl_clean_proper)
qed

lemma path_comps_cleaned: "cleaned_comps (path_IsAbs p) (path_comps p)"
  unfolding path_comps_def by (rule clean_comps_cleaned) (rule split_on_no_sep)

lemma cleaned_no_slash: "cleaned_comps r cs \<Longrightarrow> c \<in> set cs \<Longrightarrow> slash \<notin> set c \<and> c \<noteq> []"
proof -
  assume "cleaned_comps r cs" and "c \<in> set cs"
  then have "c = ''..'' \<or> proper_comp c"
    by (auto simp: cleaned_comps_def dotdots_def)
  then show ?thesis by (auto simp: proper_comp_def)
qed

lemma path_IsAbs_Cons [simp]: "path_IsAbs (slash # s)" "\<not> path_IsAbs []"
  by (simp_all add: path_IsAbs_def HasPrefix_def)

lemma path_IsAbs_append [simp]: "p \<noteq> [] \<Longrightarrow> path_IsAbs (p @ q) = path_IsAbs p"
  by (cases p) (auto simp: path_IsAbs_def HasPrefix_def)

lemma path_IsAbs_iff: "path_IsAbs p \<longleftrightarrow> p \<noteq> [] \<and> hd p = slash"
  by (cases p) (auto simp: path_IsAbs_def HasPrefix_def)

lemma path_IsAbs_path_of_comps:
  assumes "cleaned_comps r cs"
  shows "path_IsAbs (path_of_comps r cs) = r"
proof (cases r)
  case False
  show ?thesis
  proof (cases cs)
    case Nil
    with False show ?thesis by (simp add: path_of_comps_def path_IsAbs_iff)
  next
    case (Cons c cs')
    with assms have "slash \<notin> set c" "c \<noteq> []" using cleaned_no_slash by auto
    then have "hd c \<noteq> slash" by (metis list.set_sel(1))
    with Cons False \<open>c \<noteq> []\<close> show ?thesis
      by (simp add: path_of_comps_def path_IsAbs_iff join_with_Cons)
  qed
qed (simp add: path_of_comps_def)

lemma path_comps_path_of_comps:
  assumes "cleaned_comps r cs"
  shows "path_comps (path_of_comps r cs) = cs"
proof -
  have ns: "\<forall>c \<in> set cs. slash \<notin> set c" using assms cleaned_no_slash by blast
  have "clean_comps r (split_on slash (path_of_comps r cs)) = clean_comps r cs"
  proof (cases "cs = []")
    case True
    then show ?thesis by (simp add: path_of_comps_def clean_comps_def clean_step_def)
  next
    case False
    with ns have "split_on slash (join_with ''/'' cs) = cs" by (simp add: split_join_with)
    with False show ?thesis by (simp add: path_of_comps_def clean_comps_def)
  qed
  then show ?thesis
    using assms by (simp add: path_comps_def path_IsAbs_path_of_comps clean_comps_idem)
qed

text \<open>Clean is idempotent, and a cleaned path denotes the same components.\<close>

lemma path_comps_Clean [simp]: "path_comps (path_Clean p) = path_comps p"
  by (simp add: path_Clean_def path_comps_path_of_comps path_comps_cleaned)

lemma path_IsAbs_Clean [simp]: "path_IsAbs (path_Clean p) = path_IsAbs p"
  by (simp add: path_Clean_def path_IsAbs_path_of_comps path_comps_cleaned)

lemma path_Clean_idem [simp]: "path_Clean (path_Clean p) = path_Clean p"
  by (simp add: path_Clean_def [of "path_Clean p"]) (simp add: path_Clean_def)

lemma split_on_append_slash: "split_on c (p @ c # q) = split_on c p @ split_on c q"
proof (induction p)
  case Nil
  then show ?case by simp
next
  case (Cons x p)
  then show ?case by (cases "split_on c p") auto
qed

text \<open>The components of a path joined with one more name, the form of every path built by
  appending \<open>/name\<close>.\<close>

lemma path_comps_append_slash:
  "p \<noteq> [] \<Longrightarrow> path_comps (p @ slash # q)
     = foldl (clean_step (path_IsAbs p)) (path_comps p) (split_on slash q)"
  by (simp add: path_comps_def split_on_append_slash clean_comps_def)

lemma path_comps_append_name:
  "p \<noteq> [] \<Longrightarrow> proper_comp c \<Longrightarrow> path_comps (p @ slash # c) = path_comps p @ [c]"
  by (simp add: path_comps_append_slash split_on_single proper_comp_def clean_step_def)

lemma path_Join2: "a \<noteq> [] \<Longrightarrow> path_Join [a, b] = path_Clean (a @ slash # b)"
  by (simp add: path_Join_def)

lemma path_comps_Join_name:
  "p \<noteq> [] \<Longrightarrow> proper_comp c \<Longrightarrow> path_comps (path_Join [p, c]) = path_comps p @ [c]"
  by (simp add: path_Join2 path_comps_append_name)

lemma path_Clean_ne [simp]: "path_Clean p \<noteq> []"
proof -
  have "join_with ''/'' cs \<noteq> []" if "cleaned_comps r cs" "cs \<noteq> []" for r cs
    using that cleaned_no_slash by (cases cs) (auto simp: join_with_Cons)
  then show ?thesis
    using path_comps_cleaned [of p] by (auto simp: path_Clean_def path_of_comps_def)
qed

lemma path_Join_ne [simp]: "a \<noteq> [] \<Longrightarrow> path_Join (a # es) \<noteq> []"
  by (simp add: path_Join_def)

lemma path_IsAbs_Join2 [simp]: "a \<noteq> [] \<Longrightarrow> path_IsAbs (path_Join [a, b]) = path_IsAbs a"
  by (simp add: path_Join2)

text \<open>A name appended to the root of a cleaned path is appended to its text.\<close>

lemma path_Join_cleaned:
  assumes "path_Clean p = p" and "path_comps p \<noteq> []" and "proper_comp c"
  shows "path_Join [p, c] = p @ ''/'' @ c"
proof -
  have p: "p \<noteq> []" using assms(1) by (metis path_Clean_ne)
  have "path_Join [p, c] = path_of_comps (path_IsAbs p) (path_comps p @ [c])"
    using p assms(3) by (simp add: path_Join2 path_Clean_def path_comps_append_name)
  also have "\<dots> = path_of_comps (path_IsAbs p) (path_comps p) @ ''/'' @ c"
    using assms(2) by (simp add: path_of_comps_def join_with_append)
  also have "path_of_comps (path_IsAbs p) (path_comps p) = p"
    using assms(1) by (simp add: path_Clean_def)
  finally show ?thesis .
qed

end
