(* ===== verification/IO_Monad.thy ===== *)
theory IO_Monad
  imports Prelude
begin

text \<open>
  Go functions with effects, as functions from a state to an outcome and a new state:
  sequencing that stops at the first non-nil error (\<open>if err != nil { return err }\<close>),
  errors rewritten on the way out (\<open>fmt.Errorf\<close>), errors inspected by the caller, deferred
  calls, and loops. The locale io_effect holds the rules by which a relation between the
  states before and after (what a call may change) carries from the primitive operations
  to every function built from them; the component theories interpret it.
\<close>

section \<open>Combinators\<close>

type_synonym ('s, 'a) gofun = "'s \<Rightarrow> 'a outcome \<times> 's"

definition returnE :: "'a \<Rightarrow> ('s, 'a) gofun" where
  "returnE x s = (Ok x, s)"

definition throwE :: "goerror \<Rightarrow> ('s, 'a) gofun" where
  "throwE e s = (Err e, s)"

definition panicE :: "string \<Rightarrow> ('s, 'a) gofun" where
  "panicE msg s = (Panic msg, s)"

definition exitE :: "nat \<Rightarrow> ('s, 'a) gofun" where
  "exitE n s = (Exit n, s)"

definition getE :: "('s \<Rightarrow> 'a) \<Rightarrow> ('s, 'a) gofun" where
  "getE f s = (Ok (f s), s)"

definition bindE :: "('s, 'a) gofun \<Rightarrow> ('a \<Rightarrow> ('s, 'b) gofun) \<Rightarrow> ('s, 'b) gofun" where
  "bindE m f s = (case m s of
      (Ok x, s') \<Rightarrow> f x s'
    | (Err e, s') \<Rightarrow> (Err e, s')
    | (Panic p, s') \<Rightarrow> (Panic p, s')
    | (Exit n, s') \<Rightarrow> (Exit n, s'))"

definition thenE :: "('s, 'a) gofun \<Rightarrow> ('s, 'b) gofun \<Rightarrow> ('s, 'b) gofun" where
  "thenE m k = bindE m (\<lambda>_. k)"

text \<open>The caller looks at the error itself: \<open>if x, err := m(); err != nil { handler }\<close>.\<close>

definition catchE :: "('s, 'a) gofun \<Rightarrow> (goerror \<Rightarrow> ('s, 'a) gofun) \<Rightarrow> ('s, 'a) gofun" where
  "catchE m h s = (case m s of
      (Err e, s') \<Rightarrow> h e s'
    | r \<Rightarrow> r)"

definition wrapE :: "(goerror \<Rightarrow> goerror) \<Rightarrow> ('s, 'a) gofun \<Rightarrow> ('s, 'a) gofun" where
  "wrapE g m = catchE m (\<lambda>e. throwE (g e))"

text \<open>The pair \<open>(value, err)\<close> as a value, for code that goes on with either.\<close>

definition attemptE :: "('s, 'a) gofun \<Rightarrow> ('s, goerror + 'a) gofun" where
  "attemptE m = catchE (bindE m (\<lambda>x. returnE (Inr x))) (\<lambda>e. returnE (Inl e))"

text \<open>
  \<open>defer d()\<close>: d runs after the body whatever its outcome, a panic included, and its error
  is lost; it does not run when the process exits.
\<close>

definition deferE :: "('s, 'b) gofun \<Rightarrow> ('s, 'a) gofun \<Rightarrow> ('s, 'a) gofun" where
  "deferE d m s = (case m s of
      (Exit n, s') \<Rightarrow> (Exit n, s')
    | (r, s') \<Rightarrow> (case d s' of
          (Panic p, s'') \<Rightarrow> (Panic p, s'')
        | (Exit n, s'') \<Rightarrow> (Exit n, s'')
        | (_, s'') \<Rightarrow> (r, s'')))"

primrec forE :: "'a list \<Rightarrow> ('a \<Rightarrow> ('s, unit) gofun) \<Rightarrow> ('s, unit) gofun" where
  "forE [] f = returnE ()"
| "forE (x # xs) f = thenE (f x) (forE xs f)"

primrec foldE :: "('b \<Rightarrow> 'a \<Rightarrow> ('s, 'b) gofun) \<Rightarrow> 'b \<Rightarrow> 'a list \<Rightarrow> ('s, 'b) gofun" where
  "foldE f acc [] = returnE acc"
| "foldE f acc (x # xs) = bindE (f acc x) (\<lambda>acc'. foldE f acc' xs)"

definition fromSum :: "goerror + 'a \<Rightarrow> ('s, 'a) gofun" where
  "fromSum r = (case r of Inl e \<Rightarrow> throwE e | Inr x \<Rightarrow> returnE x)"

definition whenE :: "bool \<Rightarrow> ('s, unit) gofun \<Rightarrow> ('s, unit) gofun" where
  "whenE b m = (if b then m else returnE ())"

lemmas io_defs = returnE_def throwE_def panicE_def exitE_def getE_def bindE_def thenE_def
  catchE_def wrapE_def attemptE_def deferE_def fromSum_def whenE_def

section \<open>Algebra\<close>

lemma run_returnE [io_run]: "returnE x s = (Ok x, s)"
  and run_throwE [io_run]: "throwE e s = (Err e, s)"
  and run_panicE [io_run]: "panicE p s = (Panic p, s)"
  and run_exitE [io_run]: "exitE n s = (Exit n, s)"
  and run_getE [io_run]: "getE f s = (Ok (f s), s)"
  by (simp_all add: io_defs)

lemma bind_returnE [simp]: "bindE (returnE x) f = f x"
  and bind_throwE [simp]: "bindE (throwE e) f = throwE e"
  and bind_panicE [simp]: "bindE (panicE p) f = panicE p"
  and bind_exitE [simp]: "bindE (exitE n) f = exitE n"
  and then_returnE [simp]: "thenE (returnE x) k = k"
  and then_throwE [simp]: "thenE (throwE e) k = throwE e"
  by (rule ext, simp add: io_defs)+

lemma bindE_assoc: "bindE (bindE m f) g = bindE m (\<lambda>x. bindE (f x) g)"
  by (rule ext) (simp add: bindE_def split: prod.splits outcome.splits)

lemma thenE_assoc: "thenE (thenE m k) l = thenE m (thenE k l)"
  by (simp add: thenE_def bindE_assoc)

lemma bindE_return [simp]: "bindE m returnE = m"
  by (rule ext) (simp add: io_defs split: prod.splits outcome.splits)

lemma fromSum_simps [simp]: "fromSum (Inl e) = throwE e" "fromSum (Inr x) = returnE x"
  by (simp_all add: fromSum_def)

lemma whenE_simps [simp]: "whenE True m = m" "whenE False m = returnE ()"
  by (simp_all add: whenE_def)

lemma foldE_append: "foldE f acc (xs @ ys) = bindE (foldE f acc xs) (\<lambda>a. foldE f a ys)"
  by (induction xs arbitrary: acc) (simp_all add: bindE_assoc)

lemma forE_append: "forE (xs @ ys) f = thenE (forE xs f) (forE ys f)"
  by (induction xs) (simp_all add: thenE_assoc)

section \<open>Inversion: what a call that returned has done\<close>

lemma bindE_Ok [io_ok]:
  "bindE m f s = (Ok y, s'') \<longleftrightarrow> (\<exists>x s'. m s = (Ok x, s') \<and> f x s' = (Ok y, s''))"
  by (auto simp: bindE_def split: prod.splits outcome.splits)

lemma thenE_Ok [io_ok]:
  "thenE m k s = (Ok y, s'') \<longleftrightarrow> (\<exists>x s'. m s = (Ok x, s') \<and> k s' = (Ok y, s''))"
  by (auto simp: thenE_def bindE_Ok)

lemma wrapE_Ok [io_ok]: "wrapE g m s = (Ok y, s') \<longleftrightarrow> m s = (Ok y, s')"
  by (auto simp: wrapE_def catchE_def io_run split: prod.splits outcome.splits)

lemma catchE_throw_Ok [io_ok]:
  "catchE m (\<lambda>e. throwE (g e)) s = (Ok y, s') \<longleftrightarrow> m s = (Ok y, s')"
  by (auto simp: catchE_def io_run split: prod.splits outcome.splits)

lemma deferE_Ok [io_ok]:
  "deferE d m s = (Ok y, s'') \<longleftrightarrow>
     (\<exists>s' r. m s = (Ok y, s') \<and> d s' = (r, s'') \<and> (is_Ok r \<or> (\<exists>e. r = Err e)))"
  by (auto simp: deferE_def split: prod.splits outcome.splits)

lemma fromSum_Ok [io_ok]: "fromSum r s = (Ok y, s') \<longleftrightarrow> r = Inr y \<and> s' = s"
  by (auto simp: fromSum_def io_run split: sum.splits)

lemma attemptE_Ok [io_ok]:
  "attemptE m s = (Ok r, s') \<longleftrightarrow>
     (\<exists>x. r = Inr x \<and> m s = (Ok x, s')) \<or> (\<exists>e. r = Inl e \<and> m s = (Err e, s'))"
  by (auto simp: attemptE_def catchE_def bindE_def io_run split: prod.splits outcome.splits)

lemma whenE_Ok [io_ok]:
  "whenE b m s = (Ok y, s') \<longleftrightarrow> (if b then m s = (Ok y, s') else s' = s)"
  by (auto simp: whenE_def io_run)

lemma returnE_Ok [io_ok]: "returnE x s = (Ok y, s') \<longleftrightarrow> x = y \<and> s' = s"
  by (auto simp: io_run)

lemma getE_Ok [io_ok]: "getE f s = (Ok y, s') \<longleftrightarrow> f s = y \<and> s' = s"
  by (auto simp: io_run)

lemma throwE_Ok [io_ok]: "throwE e s = (Ok y, s') \<longleftrightarrow> False"
  and panicE_Ok [io_ok]: "panicE p s = (Ok y, s') \<longleftrightarrow> False"
  and exitE_Ok [io_ok]: "exitE n s = (Ok y, s') \<longleftrightarrow> False"
  by (auto simp: io_run)

section \<open>Inversion: where a call ended the process\<close>

lemma bindE_Exit:
  "bindE m f s = (Exit n, s'') \<longleftrightarrow>
     m s = (Exit n, s'') \<or> (\<exists>x s'. m s = (Ok x, s') \<and> f x s' = (Exit n, s''))"
  by (auto simp: bindE_def split: prod.splits outcome.splits)

lemma catchE_Exit:
  "catchE m h s = (Exit n, s'') \<longleftrightarrow>
     m s = (Exit n, s'') \<or> (\<exists>e s'. m s = (Err e, s') \<and> h e s' = (Exit n, s''))"
  by (auto simp: catchE_def split: prod.splits outcome.splits)

lemma wrapE_Exit: "wrapE g m s = (Exit n, s') \<longleftrightarrow> m s = (Exit n, s')"
  by (auto simp: wrapE_def catchE_Exit io_run)

lemma deferE_Exit:
  "deferE d m s = (Exit n, s'') \<longleftrightarrow>
     m s = (Exit n, s'') \<or>
     (\<exists>r s'. m s = (r, s') \<and> \<not> is_Exit r \<and> d s' = (Exit n, s''))"
  by (auto simp: deferE_def split: prod.splits outcome.splits)

section \<open>Effects that carry through\<close>

text \<open>
  A relation R between the state before a call, whether the call ended the process, and the
  state after. io_respects says that every run of the computation is in R.
\<close>

definition io_respects :: "('s \<Rightarrow> bool \<Rightarrow> 's \<Rightarrow> bool) \<Rightarrow> ('s, 'a) gofun \<Rightarrow> bool" where
  "io_respects R m \<longleftrightarrow> (\<forall>s. R s (is_Exit (fst (m s))) (snd (m s)))"

lemma io_respectsD: "io_respects R m \<Longrightarrow> m s = (r, s') \<Longrightarrow> R s (is_Exit r) s'"
  unfolding io_respects_def by (metis fst_conv snd_conv)

lemma io_respectsI: "(\<And>s r s'. m s = (r, s') \<Longrightarrow> R s (is_Exit r) s') \<Longrightarrow> io_respects R m"
  unfolding io_respects_def by (metis prod.collapse)

lemma respects_bind_wrap:
  assumes "io_respects R (bindE m k)"
  shows "io_respects R (bindE (wrapE g m) k)"
proof (rule io_respectsI)
  fix s r s'
  assume run: "bindE (wrapE g m) k s = (r, s')"
  obtain q t where m: "m s = (q, t)" by (cases "m s")
  obtain r' where "bindE m k s = (r', s')" and e: "is_Exit r' = is_Exit r"
    using run m by (cases q) (auto simp: bindE_def wrapE_def catchE_def io_run)
  from io_respectsD [OF assms this(1)] show "R s (is_Exit r) s'" unfolding e .
qed

locale io_effect =
  fixes R :: "'s \<Rightarrow> bool \<Rightarrow> 's \<Rightarrow> bool"
  assumes R_refl: "R s False s"
    and R_trans: "R s False s' \<Longrightarrow> R s' x s'' \<Longrightarrow> R s x s''"
begin

lemma respects_return [respects_intros]: "io_respects R (returnE x)"
  and respects_throw [respects_intros]: "io_respects R (throwE e)"
  and respects_panic [respects_intros]: "io_respects R (panicE p)"
  and respects_get [respects_intros]: "io_respects R (getE f)"
  by (simp_all add: io_respects_def R_refl io_run)

lemma respects_bind [respects_intros]:
  assumes "io_respects R m" and "\<And>x. io_respects R (f x)"
  shows "io_respects R (bindE m f)"
proof (rule io_respectsI)
  fix s r s'
  assume run: "bindE m f s = (r, s')"
  obtain q t where m: "m s = (q, t)" by (cases "m s")
  note Rm = io_respectsD [OF assms(1) m]
  show "R s (is_Exit r) s'"
  proof (cases q)
    case (Ok x)
    with run m have "f x t = (r, s')" by (simp add: bindE_def)
    from io_respectsD [OF assms(2) this] Rm Ok show ?thesis by (auto intro: R_trans)
  qed (use run m Rm in \<open>auto simp: bindE_def\<close>)
qed

lemma respects_then [respects_intros]:
  "io_respects R m \<Longrightarrow> io_respects R k \<Longrightarrow> io_respects R (thenE m k)"
  unfolding thenE_def by (rule respects_bind)

lemma respects_catch [respects_intros]:
  assumes "io_respects R m" and "\<And>e. io_respects R (h e)"
  shows "io_respects R (catchE m h)"
proof (rule io_respectsI)
  fix s r s'
  assume run: "catchE m h s = (r, s')"
  obtain q t where m: "m s = (q, t)" by (cases "m s")
  note Rm = io_respectsD [OF assms(1) m]
  show "R s (is_Exit r) s'"
  proof (cases q)
    case (Err e)
    with run m have "h e t = (r, s')" by (simp add: catchE_def)
    from io_respectsD [OF assms(2) this] Rm Err show ?thesis by (auto intro: R_trans)
  qed (use run m Rm in \<open>auto simp: catchE_def\<close>)
qed

lemma respects_wrap [respects_intros]: "io_respects R m \<Longrightarrow> io_respects R (wrapE g m)"
  unfolding wrapE_def by (intro respects_catch respects_throw)

lemma respects_attempt [respects_intros]: "io_respects R m \<Longrightarrow> io_respects R (attemptE m)"
  unfolding attemptE_def by (intro respects_catch respects_bind respects_return)

lemma respects_defer [respects_intros]:
  assumes "io_respects R m" and "io_respects R d"
  shows "io_respects R (deferE d m)"
proof (rule io_respectsI)
  fix s r s'
  assume run: "deferE d m s = (r, s')"
  obtain q t where m: "m s = (q, t)" by (cases "m s")
  obtain q' t' where d: "d t = (q', t')" by (cases "d t")
  note Rm = io_respectsD [OF assms(1) m] and Rd = io_respectsD [OF assms(2) d]
  show "R s (is_Exit r) s'"
  proof (cases "is_Exit q")
    case True
    with run m Rm show ?thesis by (auto simp: deferE_def is_Exit_iff)
  next
    case False
    with run m d have "s' = t' \<and> is_Exit r = is_Exit q'"
      by (cases q; cases q') (auto simp: deferE_def)
    with Rm Rd False show ?thesis by (auto intro: R_trans)
  qed
qed

lemma respects_for [respects_intros]:
  "(\<And>x. x \<in> set xs \<Longrightarrow> io_respects R (f x)) \<Longrightarrow> io_respects R (forE xs f)"
  by (induction xs) (auto intro: respects_intros)

lemma respects_fold [respects_intros]:
  "(\<And>a x. io_respects R (f a x)) \<Longrightarrow> io_respects R (foldE f acc xs)"
  by (induction xs arbitrary: acc) (auto intro: respects_intros)

lemma respects_fromSum [respects_intros]: "io_respects R (fromSum r)"
  by (cases r) (auto intro: respects_intros)

lemma respects_when [respects_intros]: "io_respects R m \<Longrightarrow> io_respects R (whenE b m)"
  by (auto simp: whenE_def intro: respects_intros)

lemma respects_if [respects_intros]:
  "(b \<Longrightarrow> io_respects R m) \<Longrightarrow> (\<not> b \<Longrightarrow> io_respects R k) \<Longrightarrow> io_respects R (if b then m else k)"
  by simp

lemma respects_case_option [respects_intros]:
  "(v = None \<Longrightarrow> io_respects R m) \<Longrightarrow> (\<And>x. v = Some x \<Longrightarrow> io_respects R (f x)) \<Longrightarrow>
     io_respects R (case v of None \<Rightarrow> m | Some x \<Rightarrow> f x)"
  by (cases v) auto

lemma respects_case_sum [respects_intros]:
  "(\<And>e. v = Inl e \<Longrightarrow> io_respects R (g e)) \<Longrightarrow> (\<And>x. v = Inr x \<Longrightarrow> io_respects R (f x)) \<Longrightarrow>
     io_respects R (case v of Inl e \<Rightarrow> g e | Inr x \<Rightarrow> f x)"
  by (cases v) auto

lemma respects_case_list [respects_intros]:
  "(v = [] \<Longrightarrow> io_respects R m) \<Longrightarrow> (\<And>x xs. v = x # xs \<Longrightarrow> io_respects R (f x xs)) \<Longrightarrow>
     io_respects R (case v of [] \<Rightarrow> m | x # xs \<Rightarrow> f x xs)"
  by (cases v) auto

lemma respects_case_prod [respects_intros]:
  "(\<And>a b. v = (a, b) \<Longrightarrow> io_respects R (f a b)) \<Longrightarrow> io_respects R (case v of (a, b) \<Rightarrow> f a b)"
  by (cases v) auto

lemma respects_Let [respects_intros]:
  "(\<And>x. x = v \<Longrightarrow> io_respects R (f x)) \<Longrightarrow> io_respects R (let x = v in f x)"
  by simp

end

section \<open>Functions that always return\<close>

text \<open>A call that panics on no state and ends the process on none: it returns a value or an error.\<close>

definition returns :: "('s, 'a) gofun \<Rightarrow> bool" where
  "returns m \<longleftrightarrow> (\<forall>s. returned (fst (m s)))"

lemma returnsD: "returns m \<Longrightarrow> m s = (r, s') \<Longrightarrow> returned r"
  unfolding returns_def by (metis fst_conv)

lemma returnsI: "(\<And>s r s'. m s = (r, s') \<Longrightarrow> returned r) \<Longrightarrow> returns m"
  unfolding returns_def by (metis prod.collapse)

lemma returns_return [returns_intros]: "returns (returnE x)"
  and returns_throw [returns_intros]: "returns (throwE e)"
  and returns_get [returns_intros]: "returns (getE f)"
  by (simp_all add: returns_def io_run)

text \<open>The continuation has to return only on the values the first call can have.\<close>

lemma returns_bind_Ok:
  assumes "returns m" and "\<And>s x s'. m s = (Ok x, s') \<Longrightarrow> returned (fst (f x s'))"
  shows "returns (bindE m f)"
proof (rule returnsI)
  fix s r s'
  assume run: "bindE m f s = (r, s')"
  obtain q t where m: "m s = (q, t)" by (cases "m s")
  from returnsD [OF assms(1) m] show "returned r"
  proof (cases q)
    case (Ok x)
    with run m assms(2) [of s x t] show ?thesis by (simp add: bindE_def)
  qed (use run m in \<open>auto simp: bindE_def\<close>)
qed

lemma returns_bind [returns_intros]:
  "returns m \<Longrightarrow> (\<And>x. returns (f x)) \<Longrightarrow> returns (bindE m f)"
  by (rule returns_bind_Ok) (auto simp: returns_def)

lemma returns_then [returns_intros]: "returns m \<Longrightarrow> returns k \<Longrightarrow> returns (thenE m k)"
  unfolding thenE_def by (rule returns_bind)

lemma returns_catch [returns_intros]:
  assumes "returns m" and "\<And>e. returns (h e)"
  shows "returns (catchE m h)"
proof (rule returnsI)
  fix s r s'
  assume run: "catchE m h s = (r, s')"
  obtain q t where m: "m s = (q, t)" by (cases "m s")
  from returnsD [OF assms(1) m] show "returned r"
  proof (cases q)
    case (Err e)
    with run m returnsD [OF assms(2), of e t] show ?thesis by (simp add: catchE_def)
  qed (use run m in \<open>auto simp: catchE_def\<close>)
qed

lemma returns_wrap [returns_intros]: "returns m \<Longrightarrow> returns (wrapE g m)"
  unfolding wrapE_def by (intro returns_intros)

lemma returns_attempt [returns_intros]: "returns m \<Longrightarrow> returns (attemptE m)"
  unfolding attemptE_def by (intro returns_intros)

lemma returns_defer [returns_intros]:
  assumes "returns m" and "returns d"
  shows "returns (deferE d m)"
proof (rule returnsI)
  fix s r s'
  assume run: "deferE d m s = (r, s')"
  obtain q t where m: "m s = (q, t)" by (cases "m s")
  obtain q' t' where d: "d t = (q', t')" by (cases "d t")
  from returnsD [OF assms(1) m] returnsD [OF assms(2) d] run m d show "returned r"
    by (cases q; cases q') (auto simp: deferE_def)
qed

lemma returns_for [returns_intros]: "(\<And>x. x \<in> set xs \<Longrightarrow> returns (f x)) \<Longrightarrow> returns (forE xs f)"
  by (induction xs) (auto intro: returns_intros)

lemma returns_fold [returns_intros]: "(\<And>a x. returns (f a x)) \<Longrightarrow> returns (foldE f acc xs)"
  by (induction xs arbitrary: acc) (auto intro: returns_intros)

lemma returns_fromSum [returns_intros]: "returns (fromSum r)"
  by (cases r) (auto intro: returns_intros)

lemma returns_when [returns_intros]: "returns m \<Longrightarrow> returns (whenE b m)"
  by (auto simp: whenE_def intro: returns_intros)

lemma returns_if [returns_intros]:
  "(b \<Longrightarrow> returns m) \<Longrightarrow> (\<not> b \<Longrightarrow> returns k) \<Longrightarrow> returns (if b then m else k)"
  by simp

lemma returns_case_option [returns_intros]:
  "(v = None \<Longrightarrow> returns m) \<Longrightarrow> (\<And>x. v = Some x \<Longrightarrow> returns (f x)) \<Longrightarrow>
     returns (case v of None \<Rightarrow> m | Some x \<Rightarrow> f x)"
  by (cases v) auto

lemma returns_case_sum [returns_intros]:
  "(\<And>e. v = Inl e \<Longrightarrow> returns (g e)) \<Longrightarrow> (\<And>x. v = Inr x \<Longrightarrow> returns (f x)) \<Longrightarrow>
     returns (case v of Inl e \<Rightarrow> g e | Inr x \<Rightarrow> f x)"
  by (cases v) auto

lemma returns_case_list [returns_intros]:
  "(v = [] \<Longrightarrow> returns m) \<Longrightarrow> (\<And>x xs. v = x # xs \<Longrightarrow> returns (f x xs)) \<Longrightarrow>
     returns (case v of [] \<Rightarrow> m | x # xs \<Rightarrow> f x xs)"
  by (cases v) auto

lemma returns_case_prod [returns_intros]:
  "(\<And>a b. v = (a, b) \<Longrightarrow> returns (f a b)) \<Longrightarrow> returns (case v of (a, b) \<Rightarrow> f a b)"
  by (cases v) auto

lemma returns_Let [returns_intros]: "(\<And>x. x = v \<Longrightarrow> returns (f x)) \<Longrightarrow> returns (let x = v in f x)"
  by simp

end
