(* ===== verification/OS_World.thy ===== *)
theory OS_World
  imports Paths IO_Monad "HOL-Library.AList" "HOL-Library.List_Lexorder" "HOL-Library.Char_ord"
begin

text \<open>
  The world the programs run in: a file system, the process's environment, and the calls of
  packages os, io, io/ioutil, path/filepath and os/exec that the sources make. Files and
  directories are keyed by the components of their cleaned absolute path; there are no
  symbolic links, so cleaning a path lexically and resolving it agree.

  Every call can fail. The field faults says which of the calls made (they are numbered by
  the field tick) the operating system refuses, with which error, and how much of a partial
  effect had happened; a theorem about every world is a theorem about every schedule of
  failures. Calls that create or remove temporary files and directories and calls that run
  programs are recorded in the field trace.
\<close>

unbundle bit_operations_syntax

section \<open>File systems\<close>

type_synonym key = "string list"
type_synonym filemode = "32 word"

text \<open>The permission constants of the sources, which Go writes in octal.\<close>

abbreviation mode_0755 :: filemode where "mode_0755 \<equiv> 0x1ED"
abbreviation mode_0700 :: filemode where "mode_0700 \<equiv> 0x1C0"
abbreviation mode_0666 :: filemode where "mode_0666 \<equiv> 0x1B6"
abbreviation mode_0644 :: filemode where "mode_0644 \<equiv> 0x1A4"
abbreviation mode_0600 :: filemode where "mode_0600 \<equiv> 0x180"
abbreviation mode_0111 :: filemode where "mode_0111 \<equiv> 0x49"

datatype node = File filemode bytes | Dir filemode | Special filemode

type_synonym filesys = "(key \<times> node) list"

definition node_at :: "filesys \<Rightarrow> key \<Rightarrow> node option" where
  "node_at m k = (if k = [] then Some (Dir mode_0755) else map_of m k)"

definition fs_put :: "key \<Rightarrow> node \<Rightarrow> filesys \<Rightarrow> filesys" where
  "fs_put k n m = (if k = [] then m else AList.update k n m)"

definition fs_remove_tree :: "key \<Rightarrow> filesys \<Rightarrow> filesys" where
  "fs_remove_tree k m = filter (\<lambda>(q, n). take (length k) q \<noteq> k) m"

definition fs_children :: "filesys \<Rightarrow> key \<Rightarrow> string list" where
  "fs_children m k = sort (map last (filter (\<lambda>q. q \<noteq> [] \<and> butlast q = k) (remdups (map fst m))))"

text \<open>What walking down a path finds wrong before its last component.\<close>

fun path_errno :: "filesys \<Rightarrow> key \<Rightarrow> key \<Rightarrow> errno option" where
  "path_errno m pre [] = None"
| "path_errno m pre [c] = None"
| "path_errno m pre (c # d # cs) =
     (case node_at m (pre @ [c]) of
        None \<Rightarrow> Some ENOENT
      | Some (Dir p) \<Rightarrow> path_errno m (pre @ [c]) (d # cs)
      | Some _ \<Rightarrow> Some ENOTDIR)"

definition resolve_node :: "filesys \<Rightarrow> key \<Rightarrow> errno + node" where
  "resolve_node m k =
     (case path_errno m [] k of
        Some e \<Rightarrow> Inl e
      | None \<Rightarrow> (case node_at m k of None \<Rightarrow> Inl ENOENT | Some n \<Rightarrow> Inr n))"

lemma node_at_put [simp]:
  "node_at (fs_put k n m) q = (if q = k \<and> k \<noteq> [] then Some n else node_at m q)"
  by (simp add: node_at_def fs_put_def update_conv')

lemma map_of_remove_tree:
  "map_of (fs_remove_tree k m) q = (if take (length k) q = k then None else map_of m q)"
  unfolding fs_remove_tree_def by (induction m) auto

lemma node_at_remove_tree:
  "k \<noteq> [] \<Longrightarrow> node_at (fs_remove_tree k m) q = (if take (length k) q = k then None else node_at m q)"
  by (simp add: node_at_def map_of_remove_tree)

lemma resolve_node_Inr: "resolve_node m k = Inr n \<Longrightarrow> node_at m k = Some n"
  by (auto simp: resolve_node_def split: option.splits)

section \<open>The world\<close>

datatype event =
    EvTemp string
  | EvRemoveAll string
  | EvRemove string
  | EvExec string "string list"
  | EvStderr string
  | EvStdout bytes
  | EvCall string "string list"

record world =
  fs :: filesys
  cwd :: string
  tmp_root :: string
  path_env :: string
  umask :: filemode
  euid :: nat
  faults :: "nat \<Rightarrow> (errno \<times> nat) option"
  rands :: "nat \<Rightarrow> nat"
  tick :: nat
  rnd :: nat
  trace :: "event list"

type_synonym 'a io = "(world, 'a) gofun"

definition path_key :: "world \<Rightarrow> string \<Rightarrow> key" where
  "path_key w p = path_comps (if path_IsAbs p then p else cwd w @ ''/'' @ p)"

definition find_node :: "world \<Rightarrow> string \<Rightarrow> errno + node" where
  "find_node w p = (if p = [] then Inl ENOENT else resolve_node (fs w) (path_key w p))"

definition file_content :: "world \<Rightarrow> string \<Rightarrow> bytes option" where
  "file_content w p =
     (case node_at (fs w) (path_key w p) of Some (File m b) \<Rightarrow> Some b | _ \<Rightarrow> None)"

definition log_event :: "event \<Rightarrow> world \<Rightarrow> world" where
  "log_event ev w = w\<lparr>trace := trace w @ [ev]\<rparr>"

definition put_node :: "key \<Rightarrow> node \<Rightarrow> world \<Rightarrow> world" where
  "put_node k n w = w\<lparr>fs := fs_put k n (fs w)\<rparr>"

definition append_file :: "key \<Rightarrow> bytes \<Rightarrow> world \<Rightarrow> world" where
  "append_file k bs w =
     (case node_at (fs w) k of
        Some (File m b) \<Rightarrow> put_node k (File m (b @ bs)) w
      | _ \<Rightarrow> w)"

text \<open>
  One call into the operating system: it advances tick, fails with the scheduled fault
  (leaving the partial effect part), or does its step, which may itself report an error.
\<close>

definition sysp :: "(errno \<Rightarrow> goerror) \<Rightarrow> (nat \<Rightarrow> world \<Rightarrow> world) \<Rightarrow>
    (world \<Rightarrow> errno + ('a \<times> world)) \<Rightarrow> 'a io" where
  "sysp mk part f w =
     (let w1 = w\<lparr>tick := Suc (tick w)\<rparr> in
      case faults w (tick w) of
        Some (e, n) \<Rightarrow> (Err (mk e), part n w1)
      | None \<Rightarrow> (case f w1 of
            Inl e \<Rightarrow> (Err (mk e), w1)
          | Inr (x, w2) \<Rightarrow> (Ok x, w2)))"

definition sys :: "(errno \<Rightarrow> goerror) \<Rightarrow> (world \<Rightarrow> errno + ('a \<times> world)) \<Rightarrow> 'a io" where
  "sys mk f = sysp mk (\<lambda>n w. w) f"

lemma sysp_Ok [io_ok]:
  "sysp mk part f w = (Ok x, w') \<longleftrightarrow>
     faults w (tick w) = None \<and> f (w\<lparr>tick := Suc (tick w)\<rparr>) = Inr (x, w')"
  by (auto simp: sysp_def Let_def split: option.splits sum.splits)

lemma sys_Ok [io_ok]:
  "sys mk f w = (Ok x, w') \<longleftrightarrow>
     faults w (tick w) = None \<and> f (w\<lparr>tick := Suc (tick w)\<rparr>) = Inr (x, w')"
  by (simp add: sys_def sysp_Ok)

section \<open>Packages os and io\<close>

record fileinfo =
  fi_dir :: bool
  fi_regular :: bool
  fi_perm :: filemode
  fi_size :: nat

fun node_info :: "node \<Rightarrow> fileinfo" where
  "node_info (File m b) = \<lparr>fi_dir = False, fi_regular = True, fi_perm = m, fi_size = length b\<rparr>"
| "node_info (Dir m) = \<lparr>fi_dir = True, fi_regular = False, fi_perm = m, fi_size = 0\<rparr>"
| "node_info (Special m) = \<lparr>fi_dir = False, fi_regular = False, fi_perm = m, fi_size = 0\<rparr>"

record osfile =
  f_name :: string
  f_key :: key

datatype openflag = O_RDONLY | O_WRONLY | O_RDWR | O_CREATE | O_EXCL | O_TRUNC

definition os_Stat :: "string \<Rightarrow> fileinfo io" where
  "os_Stat p = sys (PathError ''stat'' p)
     (\<lambda>w. case find_node w p of Inl e \<Rightarrow> Inl e | Inr n \<Rightarrow> Inr (node_info n, w))"

definition open_step :: "string \<Rightarrow> openflag list \<Rightarrow> filemode \<Rightarrow> world \<Rightarrow> errno + (osfile \<times> world)" where
  "open_step p fl perm w =
     (let k = path_key w p; f = \<lparr>f_name = p, f_key = k\<rparr> in
      if p = [] then Inl ENOENT
      else case path_errno (fs w) [] k of
        Some e \<Rightarrow> Inl e
      | None \<Rightarrow> (case node_at (fs w) k of
          None \<Rightarrow> if O_CREATE \<in> set fl then Inr (f, put_node k (File (perm AND NOT (umask w)) []) w)
                  else Inl ENOENT
        | Some nd \<Rightarrow>
            if O_CREATE \<in> set fl \<and> O_EXCL \<in> set fl then Inl EEXIST
            else (case nd of
                Dir m \<Rightarrow> if O_WRONLY \<in> set fl \<or> O_RDWR \<in> set fl \<or> O_CREATE \<in> set fl then Inl EISDIR
                          else Inr (f, w)
              | File m b \<Rightarrow> Inr (f, if O_TRUNC \<in> set fl then put_node k (File m []) w else w)
              | Special m \<Rightarrow> Inr (f, w))))"

definition os_OpenFile :: "string \<Rightarrow> openflag list \<Rightarrow> filemode \<Rightarrow> osfile io" where
  "os_OpenFile p fl perm = sys (PathError ''open'' p) (open_step p fl perm)"

definition os_Open :: "string \<Rightarrow> osfile io" where
  "os_Open p = os_OpenFile p [O_RDONLY] 0"

definition os_Create :: "string \<Rightarrow> osfile io" where
  "os_Create p = os_OpenFile p [O_RDWR, O_CREATE, O_TRUNC] mode_0666"

text \<open>Write returns the number of bytes written and the error.\<close>

definition f_Write :: "osfile \<Rightarrow> bytes \<Rightarrow> (nat \<times> goerror option) io" where
  "f_Write f bs w =
     (let w1 = w\<lparr>tick := Suc (tick w)\<rparr> in
      case faults w (tick w) of
        Some (e, n) \<Rightarrow> (Ok (min n (length bs), Some (PathError ''write'' (f_name f) e)),
                         append_file (f_key f) (take n bs) w1)
      | None \<Rightarrow> (Ok (length bs, None), append_file (f_key f) bs w1))"

definition copy_step :: "osfile \<Rightarrow> osfile \<Rightarrow> world \<Rightarrow> errno + (nat \<times> world)" where
  "copy_step dst src w =
     (case node_at (fs w) (f_key src) of
        Some (File m b) \<Rightarrow> Inr (length b, append_file (f_key dst) b w)
      | Some (Dir m) \<Rightarrow> Inl EISDIR
      | _ \<Rightarrow> Inr (0, w))"

text \<open>\<open>io.Copy(dst, src)\<close> from one open file to another; a failure leaves a prefix.\<close>

definition io_Copy :: "osfile \<Rightarrow> osfile \<Rightarrow> nat io" where
  "io_Copy dst src = sysp (PathError ''read'' (f_name src))
     (\<lambda>n w. case node_at (fs w) (f_key src) of
        Some (File m b) \<Rightarrow> append_file (f_key dst) (take n b) w | _ \<Rightarrow> w)
     (copy_step dst src)"

definition f_Read :: "osfile \<Rightarrow> bytes io" where
  "f_Read f = sys (PathError ''read'' (f_name f))
     (\<lambda>w. case node_at (fs w) (f_key f) of
        Some (File m b) \<Rightarrow> Inr (b, w)
      | Some (Dir m) \<Rightarrow> Inl EISDIR
      | _ \<Rightarrow> Inr ([], w))"

definition f_Close :: "osfile \<Rightarrow> unit io" where
  "f_Close f = sys (PathError ''close'' (f_name f)) (\<lambda>w. Inr ((), w))"

definition f_Sync :: "osfile \<Rightarrow> unit io" where
  "f_Sync f = sys (PathError ''sync'' (f_name f)) (\<lambda>w. Inr ((), w))"

definition f_Stat :: "osfile \<Rightarrow> fileinfo io" where
  "f_Stat f = sys (PathError ''stat'' (f_name f))
     (\<lambda>w. case node_at (fs w) (f_key f) of
        Some n \<Rightarrow> Inr (node_info n, w) | None \<Rightarrow> Inl ENOENT)"

definition f_Seek_start :: "osfile \<Rightarrow> unit io" where
  "f_Seek_start f = sys (PathError ''seek'' (f_name f)) (\<lambda>w. Inr ((), w))"

definition os_ReadFile :: "string \<Rightarrow> bytes io" where
  "os_ReadFile p = bindE (os_Open p) (\<lambda>f. deferE (f_Close f) (f_Read f))"

definition os_WriteFile :: "string \<Rightarrow> bytes \<Rightarrow> filemode \<Rightarrow> unit io" where
  "os_WriteFile p bs perm =
     bindE (os_OpenFile p [O_WRONLY, O_CREATE, O_TRUNC] perm) (\<lambda>f.
     bindE (f_Write f bs) (\<lambda>(n, err).
     bindE (attemptE (f_Close f)) (\<lambda>cerr.
       case err of
         Some e \<Rightarrow> throwE e
       | None \<Rightarrow> (case cerr of Inl e \<Rightarrow> throwE e | Inr u \<Rightarrow> returnE ()))))"

definition mkdir_step :: "string \<Rightarrow> filemode \<Rightarrow> world \<Rightarrow> errno + (unit \<times> world)" where
  "mkdir_step p perm w =
     (let k = path_key w p in
      if p = [] then Inl ENOENT
      else case path_errno (fs w) [] k of
        Some e \<Rightarrow> Inl e
      | None \<Rightarrow> (case node_at (fs w) k of
          Some nd \<Rightarrow> Inl EEXIST
        | None \<Rightarrow> Inr ((), put_node k (Dir (perm AND NOT (umask w))) w)))"

definition os_Mkdir :: "string \<Rightarrow> filemode \<Rightarrow> unit io" where
  "os_Mkdir p perm = sys (PathError ''mkdir'' p) (mkdir_step p perm)"

text \<open>The directories MkdirAll makes, from the root down.\<close>

fun mkdirs :: "filemode \<Rightarrow> key \<Rightarrow> key \<Rightarrow> filesys \<Rightarrow> errno + filesys" where
  "mkdirs perm pre [] m = Inr m"
| "mkdirs perm pre (c # cs) m =
     (case node_at m (pre @ [c]) of
        None \<Rightarrow> mkdirs perm (pre @ [c]) cs (fs_put (pre @ [c]) (Dir perm) m)
      | Some (Dir p) \<Rightarrow> mkdirs perm (pre @ [c]) cs m
      | Some _ \<Rightarrow> Inl ENOTDIR)"

definition os_MkdirAll :: "string \<Rightarrow> filemode \<Rightarrow> unit io" where
  "os_MkdirAll p perm = sysp (PathError ''mkdir'' p)
     (\<lambda>n w. case mkdirs (perm AND NOT (umask w)) [] (take n (path_key w p)) (fs w) of
        Inl e \<Rightarrow> w | Inr m \<Rightarrow> w\<lparr>fs := m\<rparr>)
     (\<lambda>w. if p = [] then Inl ENOENT
          else case mkdirs (perm AND NOT (umask w)) [] (path_key w p) (fs w) of
            Inl e \<Rightarrow> Inl e | Inr m \<Rightarrow> Inr ((), w\<lparr>fs := m\<rparr>))"

text \<open>RemoveAll: a missing path is no error; a failure may have removed some files.\<close>

definition is_file_node :: "node \<Rightarrow> bool" where
  "is_file_node n = (case n of File m b \<Rightarrow> True | _ \<Rightarrow> False)"

definition os_RemoveAll :: "string \<Rightarrow> unit io" where
  "os_RemoveAll p w =
     (if p = [] then (Ok (), w)
      else sysp (PathError ''unlinkat'' p)
        (\<lambda>n w. w\<lparr>fs := filter (\<lambda>(q, nd). \<not> (take (length (path_key w p)) q = path_key w p
                    \<and> is_file_node nd \<and> q \<in> set (take n (map fst (fs w))))) (fs w)\<rparr>)
        (\<lambda>w. Inr ((), w\<lparr>fs := fs_remove_tree (path_key w p) (fs w)\<rparr>))
        (log_event (EvRemoveAll p) w))"

definition os_Remove :: "string \<Rightarrow> unit io" where
  "os_Remove p w = sys (PathError ''remove'' p)
     (\<lambda>w. case find_node w p of
        Inl e \<Rightarrow> Inl e
      | Inr (Dir m) \<Rightarrow> if fs_children (fs w) (path_key w p) \<noteq> [] then Inl ENOTEMPTY
                        else Inr ((), w\<lparr>fs := fs_remove_tree (path_key w p) (fs w)\<rparr>)
      | Inr _ \<Rightarrow> Inr ((), w\<lparr>fs := fs_remove_tree (path_key w p) (fs w)\<rparr>))
     (log_event (EvRemove p) w)"

text \<open>
  Temporary files and directories: dir (or the system's directory) with pattern and a random
  number, tried again with the next number while the name is taken, 10000 times at most.
\<close>

definition temp_path :: "world \<Rightarrow> string \<Rightarrow> string \<Rightarrow> nat \<Rightarrow> string" where
  "temp_path w dir pat n =
     (let d = (if dir = [] then tmp_root w else dir) in
      if d \<noteq> [] \<and> last d = slash then d @ pat @ dec n else d @ ''/'' @ pat @ dec n)"

definition is_exist :: "goerror \<Rightarrow> bool" where
  "is_exist e = (case e of PathError op p n \<Rightarrow> n = EEXIST | _ \<Rightarrow> False)"

fun temp_loop :: "nat \<Rightarrow> string \<Rightarrow> (string \<Rightarrow> 'a io) \<Rightarrow> string \<Rightarrow> string \<Rightarrow> 'a io" where
  "temp_loop n op mkf dir pat w =
     (if n = 0 then (Err (PathError op (dir @ ''/'' @ pat @ ''*'') EEXIST), w)
      else let p = temp_path w dir pat (rands w (rnd w)) in
        case mkf p (w\<lparr>rnd := Suc (rnd w)\<rparr>) of
          (Ok x, w') \<Rightarrow> (Ok x, log_event (EvTemp p) w')
        | (Err e, w') \<Rightarrow> if is_exist e then temp_loop (n - 1) op mkf dir pat w' else (Err e, w')
        | (Panic s, w') \<Rightarrow> (Panic s, w')
        | (Exit c, w') \<Rightarrow> (Exit c, w'))"

declare temp_loop.simps [simp del]

definition os_MkdirTemp :: "string \<Rightarrow> string \<Rightarrow> string io" where
  "os_MkdirTemp dir pat =
     temp_loop 10000 ''mkdirtemp'' (\<lambda>p. thenE (os_Mkdir p mode_0700) (returnE p)) dir pat"

definition os_CreateTemp :: "string \<Rightarrow> string \<Rightarrow> osfile io" where
  "os_CreateTemp dir pat =
     temp_loop 10000 ''createtemp'' (\<lambda>p. os_OpenFile p [O_RDWR, O_CREATE, O_EXCL] mode_0600) dir pat"

text \<open>Rename: an existing directory as the new name is refused; a file there is replaced.\<close>

definition rename_fs :: "key \<Rightarrow> key \<Rightarrow> filesys \<Rightarrow> filesys" where
  "rename_fs old new m =
     map (\<lambda>(k, n). (if take (length old) k = old then new @ drop (length old) k else k, n))
       (filter (\<lambda>(k, n). k = old \<or> k \<noteq> new) m)"

definition rename_step :: "string \<Rightarrow> string \<Rightarrow> world \<Rightarrow> errno + (unit \<times> world)" where
  "rename_step old new w =
     (let ko = path_key w old; kn = path_key w new in
      if new \<noteq> [] \<and> (case node_at (fs w) kn of Some (Dir m) \<Rightarrow> True | _ \<Rightarrow> False)
      then (case find_node w old of Inl e \<Rightarrow> Inl e | Inr n \<Rightarrow> Inl EEXIST)
      else case find_node w old of
        Inl e \<Rightarrow> Inl e
      | Inr n \<Rightarrow>
          if new = [] then Inl ENOENT
          else case path_errno (fs w) [] kn of
            Some e \<Rightarrow> Inl e
          | None \<Rightarrow>
              if ko = kn then Inr ((), w)
              else if take (length ko) kn = ko then Inl EINVAL
              else if (case n of Dir m \<Rightarrow> node_at (fs w) kn \<noteq> None | _ \<Rightarrow> False) then Inl ENOTDIR
              else Inr ((), w\<lparr>fs := rename_fs ko kn (fs w)\<rparr>))"

definition os_Rename :: "string \<Rightarrow> string \<Rightarrow> unit io" where
  "os_Rename old new = sys (LinkError ''rename'' old new) (rename_step old new)"

definition os_ReadDir :: "string \<Rightarrow> string list io" where
  "os_ReadDir p = sys (PathError ''open'' p)
     (\<lambda>w. case find_node w p of
        Inl e \<Rightarrow> Inl e
      | Inr (Dir m) \<Rightarrow> Inr (fs_children (fs w) (path_key w p), w)
      | Inr _ \<Rightarrow> Inl ENOTDIR)"

definition f_Readdirnames :: "osfile \<Rightarrow> string list io" where
  "f_Readdirnames f = sys (PathError ''readdirent'' (f_name f))
     (\<lambda>w. case node_at (fs w) (f_key f) of
        Some (Dir m) \<Rightarrow> Inr (fs_children (fs w) (f_key f), w)
      | _ \<Rightarrow> Inl ENOTDIR)"

definition resize :: "nat \<Rightarrow> bytes \<Rightarrow> bytes" where
  "resize n b = take n b @ replicate (n - length b) 0"

definition os_Truncate :: "string \<Rightarrow> int \<Rightarrow> unit io" where
  "os_Truncate p len = sys (PathError ''truncate'' p)
     (\<lambda>w. if len < 0 then Inl EINVAL
          else case find_node w p of
            Inl e \<Rightarrow> Inl e
          | Inr (File m b) \<Rightarrow> Inr ((), put_node (path_key w p) (File m (resize (nat len) b)) w)
          | Inr (Dir m) \<Rightarrow> Inl EISDIR
          | Inr (Special m) \<Rightarrow> Inl EINVAL)"

definition f_Truncate :: "osfile \<Rightarrow> int \<Rightarrow> unit io" where
  "f_Truncate f len = sys (PathError ''truncate'' (f_name f))
     (\<lambda>w. if len < 0 then Inl EINVAL
          else case node_at (fs w) (f_key f) of
            Some (File m b) \<Rightarrow> Inr ((), put_node (f_key f) (File m (resize (nat len) b)) w)
          | _ \<Rightarrow> Inl EINVAL)"

definition unix_Access_X :: "string \<Rightarrow> unit io" where
  "unix_Access_X p = sys (PathError ''access'' p)
     (\<lambda>w. case find_node w p of
        Inl e \<Rightarrow> Inl e
      | Inr n \<Rightarrow> if fi_perm (node_info n) AND mode_0111 = 0 then Inl EACCES else Inr ((), w))"

definition filepath_Abs :: "string \<Rightarrow> string io" where
  "filepath_Abs p =
     (if path_IsAbs p then returnE (path_Clean p)
      else bindE (sys (PathError ''getwd'' []) (\<lambda>w. Inr (cwd w, w))) (\<lambda>d. returnE (path_Join [d, p])))"

text \<open>
  \<open>filepath.Walk(root, fn)\<close>: root, then everything below it in lexical order, each with
  its file information or the error of reading it. fn's error ends the walk.
\<close>

definition walk_rels :: "filesys \<Rightarrow> key \<Rightarrow> key list" where
  "walk_rels m k = sort (map (drop (length k))
     (filter (\<lambda>q. take (length k) q = k \<and> q \<noteq> k) (remdups (map fst m))))"

definition filepath_Walk :: "string \<Rightarrow> (string \<Rightarrow> goerror + fileinfo \<Rightarrow> unit io) \<Rightarrow> unit io" where
  "filepath_Walk root fn =
     bindE (attemptE (os_Stat root)) (\<lambda>info.
       case info of
         Inl e \<Rightarrow> fn root (Inl e)
       | Inr i \<Rightarrow> thenE (fn root (Inr i))
           (bindE (getE (\<lambda>w. if fi_dir i then walk_rels (fs w) (path_key w root) else [])) (\<lambda>rels.
              forE rels (\<lambda>rel.
                let p = path_Join [root, join_with ''/'' rel] in
                bindE (attemptE (os_Stat p)) (fn p)))))"

definition os_Stderr :: "string \<Rightarrow> unit io" where
  "os_Stderr s w = (Ok (), log_event (EvStderr s) w)"

section \<open>Package os/exec\<close>

text \<open>
  Other programs are outside the sources: what a command line does to the file system, what
  it prints and how it ends is a parameter of every function that runs one. A program that
  cannot be started is \<open>NotStarted\<close>; the output comes in chunks, each to one of the two
  streams.
\<close>

datatype outstream = OutS | ErrS

type_synonym proc_out = "(outstream \<times> bytes) list"

datatype proc_result = NotStarted goerror | Exited nat proc_out | Signaled string proc_out

definition stream_output :: "outstream \<Rightarrow> proc_out \<Rightarrow> bytes" where
  "stream_output s cs = concat (map snd (filter (\<lambda>c. fst c = s) cs))"

definition combined_output :: "proc_out \<Rightarrow> bytes" where
  "combined_output cs = concat (map snd cs)"

type_synonym programs = "string \<Rightarrow> string list \<Rightarrow> filesys \<Rightarrow> proc_result \<times> filesys"

definition os_exec :: "programs \<Rightarrow> string \<Rightarrow> string list \<Rightarrow> proc_result io" where
  "os_exec P dir argv w =
     (let d = (if dir = [] then cwd w else dir);
          w1 = log_event (EvExec d argv) (w\<lparr>tick := Suc (tick w)\<rparr>) in
      case faults w (tick w) of
        Some (e, n) \<Rightarrow> (Ok (NotStarted (PathError ''fork/exec'' (hd argv) e)), w1)
      | None \<Rightarrow> (case P d argv (fs w) of (r, m) \<Rightarrow> (Ok r, w1\<lparr>fs := m\<rparr>)))"

end
