(* ===== verification/OS_Facts.thy ===== *)
theory OS_Facts
  imports OS_World
begin

text \<open>
  What the operating-system calls leave alone and what they establish. Three relations
  between the world before and after a call are interpreted as io_effect: quiet_rel (the
  environment and the trace are as before), calm_rel (the environment is as before and every
  temporary path created and not removed again satisfies a given predicate) and noexit_rel
  (the process goes on). The rules the interpretations yield, collected in respects_intros,
  prove the cleanup and termination properties of the components.
\<close>

section \<open>Relations\<close>

definition same_env :: "world \<Rightarrow> world \<Rightarrow> bool" where
  "same_env w w' \<longleftrightarrow>
     cwd w' = cwd w \<and> tmp_root w' = tmp_root w \<and> path_env w' = path_env w \<and>
     umask w' = umask w \<and> euid w' = euid w \<and> faults w' = faults w \<and> rands w' = rands w"

lemma same_env_refl [simp]: "same_env w w"
  by (simp add: same_env_def)

lemma same_env_trans: "same_env a b \<Longrightarrow> same_env b c \<Longrightarrow> same_env a c"
  by (simp add: same_env_def)

lemma same_env_upd [simp]:
  "same_env w (w'\<lparr>fs := m\<rparr>) = same_env w w'"
  "same_env w (w'\<lparr>tick := n\<rparr>) = same_env w w'"
  "same_env w (w'\<lparr>rnd := n\<rparr>) = same_env w w'"
  "same_env w (w'\<lparr>trace := t\<rparr>) = same_env w w'"
  by (simp_all add: same_env_def)

lemma same_env_path_key: "same_env w w' \<Longrightarrow> path_key w' p = path_key w p"
  by (simp add: same_env_def path_key_def)

text \<open>
  The temporary paths a run created and did not remove afterwards, where removing a
  directory removes what is under it.
\<close>

definition under :: "string \<Rightarrow> string \<Rightarrow> bool" where
  "under d p \<longleftrightarrow> p = d \<or> HasPrefix p (d @ ''/'')"

fun removes :: "event \<Rightarrow> string \<Rightarrow> bool" where
  "removes (EvRemoveAll q) p = under q p"
| "removes (EvRemove q) p = (p = q)"
| "removes _ p = False"

fun uncleaned :: "event list \<Rightarrow> string list" where
  "uncleaned [] = []"
| "uncleaned (EvTemp p # es) =
     (if list_ex (\<lambda>e. removes e p) es then uncleaned es else p # uncleaned es)"
| "uncleaned (e # es) = uncleaned es"

lemma uncleaned_append:
  "p \<in> set (uncleaned (s @ t)) \<Longrightarrow>
     p \<in> set (uncleaned t) \<or> (p \<in> set (uncleaned s) \<and> \<not> list_ex (\<lambda>e. removes e p) t)"
  by (induction s rule: uncleaned.induct) (auto split: if_splits)

lemma uncleaned_no_temp: "\<forall>p. EvTemp p \<notin> set t \<Longrightarrow> uncleaned t = []"
  by (induction t rule: uncleaned.induct) auto

definition quiet_rel :: "world \<Rightarrow> bool \<Rightarrow> world \<Rightarrow> bool" where
  "quiet_rel w x w' \<longleftrightarrow> \<not> x \<and> same_env w w' \<and> trace w' = trace w"

definition calm_rel :: "(string \<Rightarrow> bool) \<Rightarrow> world \<Rightarrow> bool \<Rightarrow> world \<Rightarrow> bool" where
  "calm_rel D w x w' \<longleftrightarrow>
     same_env w w' \<and> (\<exists>t. trace w' = trace w @ t \<and> (x \<or> (\<forall>p \<in> set (uncleaned t). D p)))"

definition noexit_rel :: "world \<Rightarrow> bool \<Rightarrow> world \<Rightarrow> bool" where
  "noexit_rel w x w' \<longleftrightarrow> \<not> x"

interpretation quiet: io_effect quiet_rel
  by unfold_locales (auto simp: quiet_rel_def intro: same_env_trans)

interpretation noexit: io_effect noexit_rel
  by unfold_locales (auto simp: noexit_rel_def)

lemma calm_rel_trans:
  assumes "calm_rel D w False w'" and "calm_rel D w' x w''"
  shows "calm_rel D w x w''"
proof -
  from assms obtain s t where s: "trace w' = trace w @ s" "\<forall>p \<in> set (uncleaned s). D p"
    and t: "trace w'' = trace w' @ t" "x \<or> (\<forall>p \<in> set (uncleaned t). D p)"
    by (auto simp: calm_rel_def)
  have "x \<or> (\<forall>p \<in> set (uncleaned (s @ t)). D p)"
    using s(2) t(2) uncleaned_append [of _ s t] by blast
  moreover have "same_env w w''" using assms by (auto simp: calm_rel_def intro: same_env_trans)
  ultimately show ?thesis using s(1) t(1) unfolding calm_rel_def by auto
qed

interpretation calm: io_effect "calm_rel D" for D
proof unfold_locales
  show "calm_rel D s False s" for s by (auto simp: calm_rel_def)
qed (rule calm_rel_trans)

lemma quiet_imp_calm: "io_respects quiet_rel m \<Longrightarrow> io_respects (calm_rel D) m"
  by (auto simp: io_respects_def quiet_rel_def calm_rel_def)

lemma quiet_imp_noexit: "io_respects quiet_rel m \<Longrightarrow> io_respects noexit_rel m"
  by (auto simp: io_respects_def quiet_rel_def noexit_rel_def)

section \<open>The calls are quiet\<close>

lemma quiet_sysp:
  assumes "\<And>w x w'. f w = Inr (x, w') \<Longrightarrow> same_env w w' \<and> trace w' = trace w"
    and "\<And>n w. same_env w (part n w) \<and> trace (part n w) = trace w"
  shows "io_respects quiet_rel (sysp mk part f)"
proof (rule io_respectsI)
  fix w r w'
  assume run: "sysp mk part f w = (r, w')"
  define w1 where "w1 = w\<lparr>tick := Suc (tick w)\<rparr>"
  have w1: "same_env w w1" "trace w1 = trace w" by (simp_all add: w1_def)
  show "quiet_rel w (is_Exit r) w'"
  proof (cases "faults w (tick w)")
    case (Some en)
    with run have "r = Err (mk (fst en))" "w' = part (snd en) w1"
      by (auto simp: sysp_def w1_def split: prod.splits)
    with w1 assms(2) [of w1 "snd en"] show ?thesis by (auto simp: quiet_rel_def intro: same_env_trans)
  next
    case None
    have run': "(case f w1 of Inl e \<Rightarrow> (Err (mk e), w1) | Inr (x, w2) \<Rightarrow> (Ok x, w2)) = (r, w')"
      using run None unfolding sysp_def Let_def w1_def by simp
    show ?thesis
    proof (cases "f w1")
      case (Inl e)
      with run' w1 show ?thesis by (auto simp: quiet_rel_def)
    next
      case (Inr xw)
      obtain x w2 where xw: "xw = (x, w2)" by (cases xw)
      with run' Inr have "r = Ok x" "w' = w2" by auto
      with w1 assms(1) [of w1 x w2] Inr xw show ?thesis
        by (auto simp: quiet_rel_def intro: same_env_trans)
    qed
  qed
qed

lemma quiet_sys:
  assumes "\<And>w x w'. f w = Inr (x, w') \<Longrightarrow> same_env w w' \<and> trace w' = trace w"
  shows "io_respects quiet_rel (sys mk f)"
  unfolding sys_def using assms by (intro quiet_sysp) auto

lemma env_put_node [simp]:
  "same_env w (put_node k n w') = same_env w w'" "trace (put_node k n w) = trace w"
  by (simp_all add: put_node_def)

lemma env_append_file [simp]:
  "same_env w (append_file k b w') = same_env w w'" "trace (append_file k b w) = trace w"
  by (simp_all add: append_file_def split: option.splits node.splits)

lemma env_log_event [simp]:
  "same_env w (log_event ev w') = same_env w w'" "trace (log_event ev w) = trace w @ [ev]"
  by (simp_all add: log_event_def)

lemma quiet_Stat [respects_intros]: "io_respects quiet_rel (os_Stat p)"
  unfolding os_Stat_def by (rule quiet_sys) (auto split: sum.splits)

lemma quiet_OpenFile [respects_intros]: "io_respects quiet_rel (os_OpenFile p fl perm)"
  unfolding os_OpenFile_def
  by (rule quiet_sys) (auto simp: open_step_def Let_def split: option.splits if_splits node.splits)

lemma quiet_Open [respects_intros]: "io_respects quiet_rel (os_Open p)"
  unfolding os_Open_def by (rule quiet_OpenFile)

lemma quiet_Create [respects_intros]: "io_respects quiet_rel (os_Create p)"
  unfolding os_Create_def by (rule quiet_OpenFile)

lemma quiet_Write [respects_intros]: "io_respects quiet_rel (f_Write f bs)"
  by (auto simp: io_respects_def f_Write_def quiet_rel_def Let_def split: option.splits)

lemma quiet_Copy [respects_intros]: "io_respects quiet_rel (io_Copy d s)"
  unfolding io_Copy_def
  by (rule quiet_sysp) (auto simp: copy_step_def split: option.splits node.splits)

lemma quiet_Read [respects_intros]: "io_respects quiet_rel (f_Read f)"
  unfolding f_Read_def by (rule quiet_sys) (auto split: option.splits node.splits)

lemma quiet_Close [respects_intros]: "io_respects quiet_rel (f_Close f)"
  unfolding f_Close_def by (rule quiet_sys) auto

lemma quiet_Sync [respects_intros]: "io_respects quiet_rel (f_Sync f)"
  unfolding f_Sync_def by (rule quiet_sys) auto

lemma quiet_Seek [respects_intros]: "io_respects quiet_rel (f_Seek_start f)"
  unfolding f_Seek_start_def by (rule quiet_sys) auto

lemma quiet_fStat [respects_intros]: "io_respects quiet_rel (f_Stat f)"
  unfolding f_Stat_def by (rule quiet_sys) (auto split: option.splits)

lemma quiet_ReadFile [respects_intros]: "io_respects quiet_rel (os_ReadFile p)"
  unfolding os_ReadFile_def by (intro respects_intros)

lemma quiet_WriteFile [respects_intros]: "io_respects quiet_rel (os_WriteFile p bs perm)"
  unfolding os_WriteFile_def by (intro respects_intros)

lemma quiet_Mkdir [respects_intros]: "io_respects quiet_rel (os_Mkdir p perm)"
  unfolding os_Mkdir_def
  by (rule quiet_sys) (auto simp: mkdir_step_def Let_def split: option.splits if_splits)

lemma quiet_MkdirAll [respects_intros]: "io_respects quiet_rel (os_MkdirAll p perm)"
  unfolding os_MkdirAll_def by (rule quiet_sysp) (auto split: sum.splits if_splits)

lemma quiet_Rename [respects_intros]: "io_respects quiet_rel (os_Rename a b)"
  unfolding os_Rename_def
  by (rule quiet_sys) (auto simp: rename_step_def Let_def split: option.splits sum.splits if_splits)

lemma quiet_ReadDir [respects_intros]: "io_respects quiet_rel (os_ReadDir p)"
  unfolding os_ReadDir_def by (rule quiet_sys) (auto split: sum.splits node.splits)

lemma quiet_Readdirnames [respects_intros]: "io_respects quiet_rel (f_Readdirnames f)"
  unfolding f_Readdirnames_def by (rule quiet_sys) (auto split: option.splits node.splits)

lemma quiet_Truncate [respects_intros]: "io_respects quiet_rel (os_Truncate p n)"
  unfolding os_Truncate_def by (rule quiet_sys) (auto split: if_splits sum.splits node.splits)

lemma quiet_fTruncate [respects_intros]: "io_respects quiet_rel (f_Truncate f n)"
  unfolding f_Truncate_def by (rule quiet_sys) (auto split: if_splits option.splits node.splits)

lemma quiet_Access [respects_intros]: "io_respects quiet_rel (unix_Access_X p)"
  unfolding unix_Access_X_def by (rule quiet_sys) (auto split: if_splits sum.splits)

lemma quiet_Abs [respects_intros]: "io_respects quiet_rel (filepath_Abs p)"
  unfolding filepath_Abs_def by (intro respects_intros quiet_sys) auto

lemmas quiet_calls =
  quiet_Stat quiet_OpenFile quiet_Open quiet_Create quiet_Write quiet_Copy quiet_Read quiet_Close
  quiet_Sync quiet_Seek quiet_fStat quiet_ReadFile quiet_WriteFile quiet_Mkdir quiet_MkdirAll
  quiet_Rename quiet_ReadDir quiet_Readdirnames quiet_Truncate quiet_fTruncate quiet_Access
  quiet_Abs

lemmas calm_calls [respects_intros] = quiet_calls [THEN quiet_imp_calm]

lemmas noexit_calls [respects_intros] = quiet_calls [THEN quiet_imp_noexit]

section \<open>Calls that leave a trace\<close>

lemma removal_calm:
  "(\<And>w. \<exists>t. trace (snd (m w)) = trace w @ t \<and> (\<forall>p. EvTemp p \<notin> set t)) \<Longrightarrow>
   (\<And>w. same_env w (snd (m w))) \<Longrightarrow> io_respects (calm_rel D) m"
  unfolding io_respects_def calm_rel_def using uncleaned_no_temp by fastforce

lemma RemoveAll_trace:
  "p \<noteq> [] \<Longrightarrow> trace (snd (os_RemoveAll p w)) = trace w @ [EvRemoveAll p]"
  by (simp add: os_RemoveAll_def sysp_def Let_def log_event_def split: option.splits)

lemma RemoveAll_env: "same_env w (snd (os_RemoveAll p w))"
  by (simp add: os_RemoveAll_def sysp_def Let_def log_event_def split: option.splits)

lemma Remove_trace: "trace (snd (os_Remove p w)) = trace w @ [EvRemove p]"
  by (auto simp: os_Remove_def sys_def sysp_def Let_def log_event_def
      split: option.splits sum.splits node.splits)

lemma Remove_env: "same_env w (snd (os_Remove p w))"
  by (auto simp: os_Remove_def sys_def sysp_def Let_def log_event_def
      split: option.splits sum.splits node.splits)

lemma calm_RemoveAll [respects_intros]: "io_respects (calm_rel D) (os_RemoveAll p)"
proof (rule removal_calm)
  fix w
  show "\<exists>t. trace (snd (os_RemoveAll p w)) = trace w @ t \<and> (\<forall>q. EvTemp q \<notin> set t)"
    by (cases "p = []") (auto simp: RemoveAll_trace, simp add: os_RemoveAll_def)
qed (rule RemoveAll_env)

lemma calm_Remove [respects_intros]: "io_respects (calm_rel D) (os_Remove p)"
  by (rule removal_calm) (auto simp: Remove_trace Remove_env)

lemma noexit_RemoveAll [respects_intros]: "io_respects noexit_rel (os_RemoveAll p)"
  by (auto simp: io_respects_def noexit_rel_def os_RemoveAll_def sysp_def Let_def split: option.splits)

lemma noexit_Remove [respects_intros]: "io_respects noexit_rel (os_Remove p)"
  by (auto simp: io_respects_def noexit_rel_def os_Remove_def sys_def sysp_def Let_def
      split: option.splits sum.splits node.splits)

lemma os_exec_trace: "trace (snd (os_exec P d argv w)) = trace w @ [EvExec (if d = [] then cwd w else d) argv]"
  by (auto simp: os_exec_def Let_def log_event_def split: option.splits prod.splits)

lemma calm_exec [respects_intros]: "io_respects (calm_rel D) (os_exec P d argv)"
  by (rule removal_calm)
    (auto simp: os_exec_trace, auto simp: os_exec_def Let_def log_event_def split: option.splits prod.splits)

lemma noexit_exec [respects_intros]: "io_respects noexit_rel (os_exec P d argv)"
  by (auto simp: io_respects_def noexit_rel_def os_exec_def Let_def split: option.splits prod.splits)

lemma calm_Stderr [respects_intros]: "io_respects (calm_rel D) (os_Stderr s)"
  by (rule removal_calm) (auto simp: os_Stderr_def)

lemma noexit_Stderr [respects_intros]: "io_respects noexit_rel (os_Stderr s)"
  by (auto simp: io_respects_def noexit_rel_def os_Stderr_def)

text \<open>
  Temporary files. A created temporary path is the only event of its creation, and lies
  below the directory it was asked for.
\<close>

lemma temp_path_env: "same_env w v \<Longrightarrow> temp_path v dir pat n = temp_path w dir pat n"
  by (simp add: temp_path_def same_env_def)

lemma temp_loop_run:
  assumes "\<And>p. io_respects quiet_rel (mkf p)"
    and "\<forall>p v e v'. mkf p v = (Err e, v') \<longrightarrow> fs v' = fs v"
    and "temp_loop n op mkf dir pat w = (r, w')"
  shows "same_env w w' \<and> \<not> is_Exit r \<and>
    (case r of
       Ok x \<Rightarrow> \<exists>k v v'. same_env w v \<and> trace v = trace w \<and> fs v = fs w \<and>
                 mkf (temp_path w dir pat k) v = (Ok x, v') \<and>
                 w' = log_event (EvTemp (temp_path w dir pat k)) v'
     | _ \<Rightarrow> trace w' = trace w)"
  using assms(3)
proof (induction n arbitrary: w)
  case 0
  then show ?case by (auto simp: temp_loop.simps)
next
  case (Suc n)
    define p where "p = temp_path w dir pat (rands w (rnd w))"
    define w1 where "w1 = w\<lparr>rnd := Suc (rnd w)\<rparr>"
    obtain q v where m: "mkf p w1 = (q, v)" by (cases "mkf p w1")
    from io_respectsD [OF assms(1) m] have v: "\<not> is_Exit q" "same_env w v" "trace v = trace w"
      by (simp_all add: quiet_rel_def w1_def same_env_def)
    have w1: "same_env w w1" "trace w1 = trace w" "fs w1 = fs w" by (simp_all add: w1_def)
    show ?case
    proof (cases q)
      case (Ok x)
      with Suc.prems m have "r = Ok x" "w' = log_event (EvTemp p) v"
        by (simp_all add: temp_loop.simps [of "Suc n"] p_def w1_def)
      moreover from m Ok have "mkf p w1 = (Ok x, v)" by simp
      ultimately show ?thesis using v(2) w1 unfolding p_def
        by (simp only: outcome.case is_Exit.simps env_log_event) blast
    next
      case (Panic s)
      with Suc.prems m have "r = Panic s" "w' = v"
        by (simp_all add: temp_loop.simps [of "Suc n"] p_def w1_def)
      with v show ?thesis by simp
    next
      case (Exit c)
      with v show ?thesis by simp
    next
      case (Err e)
      show ?thesis
      proof (cases "is_exist e")
        case True
        with Suc.prems m Err have "temp_loop n op mkf dir pat v = (r, w')"
          by (simp add: temp_loop.simps [of "Suc n"] p_def w1_def)
        note IH = Suc.IH [OF this]
        have "fs v = fs w" using assms(2) m Err w1(3) by metis
        with IH show ?thesis using v
          by (auto simp: temp_path_env [OF v(2)] intro: same_env_trans split: outcome.splits)
      next
        case False
        with Suc.prems m Err have "r = Err e" "w' = v"
          by (simp_all add: temp_loop.simps [of "Suc n"] p_def w1_def)
        with v show ?thesis by simp
      qed
    qed
qed

lemma slash_not_in_dec [simp]: "slash \<notin> set (dec n)"
  by (rule dec_not_in) simp

lemma temp_path_ends: "temp_path w dir pat n \<noteq> [] \<and> last (temp_path w dir pat n) \<noteq> slash"
proof -
  have "last (dec n) \<noteq> slash"
    using slash_not_in_dec [of n] last_in_set [OF dec_ne [of n]] by metis
  then show ?thesis by (simp add: temp_path_def Let_def)
qed

lemma temp_path_under:
  "d \<noteq> [] \<Longrightarrow> last d \<noteq> slash \<Longrightarrow> under d (temp_path w d pat n)"
  by (simp add: temp_path_def under_def HasPrefix_def)

lemma OpenFile_Err_fs: "os_OpenFile p fl perm v = (Err e, v') \<Longrightarrow> fs v' = fs v"
  by (auto simp: os_OpenFile_def sys_def sysp_def Let_def split: option.splits sum.splits)

lemma Mkdir_Err_fs: "os_Mkdir p perm v = (Err e, v') \<Longrightarrow> fs v' = fs v"
  by (auto simp: os_Mkdir_def sys_def sysp_def Let_def split: option.splits sum.splits)

lemma MkdirTemp_Err_fs:
  "thenE (os_Mkdir p perm) (returnE p) v = (Err e, v') \<Longrightarrow> fs v' = fs v"
  by (auto simp: thenE_def bindE_def io_run dest: Mkdir_Err_fs split: prod.splits outcome.splits)

lemma CreateTemp_run:
  assumes "os_CreateTemp dir pat w = (r, w')"
  shows "same_env w w' \<and> \<not> is_Exit r \<and>
    (case r of
       Ok f \<Rightarrow> \<exists>k. f_name f = temp_path w dir pat k \<and> f_key f = path_key w (f_name f) \<and>
                 node_at (fs w) (f_key f) = None \<and>
                 fs w' = fs_put (f_key f) (File (mode_0600 AND NOT (umask w)) []) (fs w) \<and>
                 trace w' = trace w @ [EvTemp (f_name f)]
     | _ \<Rightarrow> trace w' = trace w)"
proof -
  have err: "\<forall>p v e v'. os_OpenFile p [O_RDWR, O_CREATE, O_EXCL] mode_0600 v = (Err e, v')
      \<longrightarrow> fs v' = fs v"
    using OpenFile_Err_fs by blast
  note run = temp_loop_run [OF quiet_OpenFile err assms [unfolded os_CreateTemp_def]]
  show ?thesis
  proof (cases r)
    case (Ok f)
    from run [unfolded Ok outcome.case] obtain k v v' where v: "same_env w v" "trace v = trace w" "fs v = fs w"
      and op: "os_OpenFile (temp_path w dir pat k) [O_RDWR, O_CREATE, O_EXCL] mode_0600 v = (Ok f, v')"
      and w': "w' = log_event (EvTemp (temp_path w dir pat k)) v'"
      by blast
    let ?p = "temp_path w dir pat k"
    have key: "path_key v ?p = path_key w ?p" by (rule same_env_path_key [OF v(1)])
    have um: "umask v = umask w" using v(1) by (simp add: same_env_def)
    from op have "f = \<lparr>f_name = ?p, f_key = path_key w ?p\<rparr> \<and> node_at (fs w) (path_key w ?p) = None \<and>
        fs v' = fs_put (path_key w ?p) (File (mode_0600 AND NOT (umask w)) []) (fs w) \<and> trace v' = trace w"
      using v key um
      by (auto simp: os_OpenFile_def sys_Ok open_step_def Let_def put_node_def path_key_def
          split: option.splits if_splits)
    then show ?thesis using run Ok w' by (auto simp: log_event_def)
  qed (use run in auto)
qed

lemma MkdirTemp_run:
  assumes "os_MkdirTemp dir pat w = (r, w')"
  shows "same_env w w' \<and> \<not> is_Exit r \<and>
    (case r of
       Ok d \<Rightarrow> \<exists>k. d = temp_path w dir pat k \<and> node_at (fs w) (path_key w d) = None \<and>
                 fs w' = fs_put (path_key w d) (Dir (mode_0700 AND NOT (umask w))) (fs w) \<and>
                 trace w' = trace w @ [EvTemp d]
     | _ \<Rightarrow> trace w' = trace w)"
proof -
  have quiet: "io_respects quiet_rel (thenE (os_Mkdir p mode_0700) (returnE p))" for p
    by (intro respects_intros)
  have err: "\<forall>p v e v'. thenE (os_Mkdir p mode_0700) (returnE p) v = (Err e, v')
      \<longrightarrow> fs v' = fs v"
    using MkdirTemp_Err_fs by blast
  note run = temp_loop_run [OF quiet err assms [unfolded os_MkdirTemp_def]]
  show ?thesis
  proof (cases r)
    case (Ok d)
    from run [unfolded Ok outcome.case] obtain k v v' where v: "same_env w v" "trace v = trace w" "fs v = fs w"
      and op: "thenE (os_Mkdir (temp_path w dir pat k) mode_0700) (returnE (temp_path w dir pat k)) v
                 = (Ok d, v')"
      and w': "w' = log_event (EvTemp (temp_path w dir pat k)) v'"
      by blast
    let ?p = "temp_path w dir pat k"
    have key: "path_key v ?p = path_key w ?p" by (rule same_env_path_key [OF v(1)])
    have um: "umask v = umask w" using v(1) by (simp add: same_env_def)
    from op have "d = ?p \<and> node_at (fs w) (path_key w ?p) = None \<and>
        fs v' = fs_put (path_key w ?p) (Dir (mode_0700 AND NOT (umask w))) (fs w) \<and> trace v' = trace w"
      using v key um
      by (auto simp: os_Mkdir_def io_ok mkdir_step_def Let_def put_node_def path_key_def
          split: option.splits if_splits)
    then show ?thesis using run Ok w' by (auto simp: log_event_def)
  qed (use run in auto)
qed

lemma calm_CreateTemp:
  assumes "\<And>w k. D (temp_path w dir pat k)"
  shows "io_respects (calm_rel D) (os_CreateTemp dir pat)"
proof (rule io_respectsI)
  fix w r w'
  assume run: "os_CreateTemp dir pat w = (r, w')"
  show "calm_rel D w (is_Exit r) w'"
    using CreateTemp_run [OF run] assms by (cases r) (auto simp: calm_rel_def)
qed

lemma calm_CreateTemp_under [respects_intros]:
  "d \<noteq> [] \<Longrightarrow> last d \<noteq> slash \<Longrightarrow>
     io_respects (calm_rel (\<lambda>p. D p \<or> under d p)) (os_CreateTemp d pat)"
  by (rule calm_CreateTemp) (simp add: temp_path_under)

lemma noexit_CreateTemp [respects_intros]: "io_respects noexit_rel (os_CreateTemp dir pat)"
  unfolding noexit_rel_def by (rule io_respectsI) (use CreateTemp_run in blast)

lemma noexit_MkdirTemp [respects_intros]: "io_respects noexit_rel (os_MkdirTemp dir pat)"
  unfolding noexit_rel_def by (rule io_respectsI) (use MkdirTemp_run in blast)

text \<open>
  The two brackets of the sources: a temporary directory, or file, whose removal is deferred
  as soon as it exists. Whatever the body leaves below it, nothing is left uncleaned.
\<close>

lemma uncleaned_bracket:
  assumes "\<forall>p \<in> set (uncleaned t). D p \<or> removes e p" and "removes e d" and "\<forall>q. e \<noteq> EvTemp q"
  shows "\<forall>p \<in> set (uncleaned (EvTemp d # t @ [e])). D p"
proof
  fix p
  assume p: "p \<in> set (uncleaned (EvTemp d # t @ [e]))"
  then have "p \<in> set (uncleaned (t @ [e]))" using assms(2) by (simp split: if_splits)
  moreover have "uncleaned [e] = []" using assms(3) by (cases e) auto
  ultimately show "D p" using uncleaned_append [of p t "[e]"] assms(1) by auto
qed

lemma calm_bracket:
  assumes mk: "\<And>w r w'. mk w = (r, w') \<Longrightarrow> same_env w w' \<and> \<not> is_Exit r \<and>
      (case r of Ok x \<Rightarrow> trace w' = trace w @ [EvTemp (nm x)] \<and> ok (nm x) | _ \<Rightarrow> trace w' = trace w)"
    and rm: "\<And>x w. ok (nm x) \<Longrightarrow> same_env w (snd (rm x w)) \<and> trace (snd (rm x w)) = trace w @ [ev x]
      \<and> \<not> is_Exit (fst (rm x w))"
    and ev: "\<And>x. ok (nm x) \<Longrightarrow> removes (ev x) (nm x)" "\<And>x q. ev x \<noteq> EvTemp q"
    and body: "\<And>x. ok (nm x) \<Longrightarrow> io_respects (calm_rel (\<lambda>p. D p \<or> removes (ev x) p)) (body x)"
  shows "io_respects (calm_rel D) (bindE mk (\<lambda>x. deferE (rm x) (body x)))"
proof (rule io_respectsI)
  fix w r w'
  assume run: "bindE mk (\<lambda>x. deferE (rm x) (body x)) w = (r, w')"
  obtain q v where m: "mk w = (q, v)" by (cases "mk w")
  show "calm_rel D w (is_Exit r) w'"
  proof (cases q)
    case (Ok x)
    with mk [OF m] have v: "same_env w v" "trace v = trace w @ [EvTemp (nm x)]" "ok (nm x)" by auto
    obtain s u where b: "body x v = (s, u)" by (cases "body x v")
    from io_respectsD [OF body [OF v(3)] b] obtain t where u: "same_env v u" "trace u = trace v @ t"
      and t: "is_Exit s \<or> (\<forall>p \<in> set (uncleaned t). D p \<or> removes (ev x) p)"
      by (auto simp: calm_rel_def)
    obtain s' u' where d: "rm x u = (s', u')" by (cases "rm x u")
    from rm [OF v(3), of u] d have u': "same_env u u'" "trace u' = trace u @ [ev x]" "\<not> is_Exit s'" by auto
    from run m Ok have "deferE (rm x) (body x) v = (r, w')" by (simp add: bindE_def)
    then have "is_Exit s \<and> is_Exit r \<and> w' = u \<or> \<not> is_Exit s \<and> w' = u'"
      using b d by (cases s; cases s') (auto simp: deferE_def)
    moreover have "\<forall>p \<in> set (uncleaned (EvTemp (nm x) # t @ [ev x])). D p" if "\<not> is_Exit s"
      using t that ev v(3) by (intro uncleaned_bracket) auto
    moreover have "same_env w u" "same_env w u'"
      using v(1) u(1) u'(1) same_env_trans by blast+
    moreover have "trace u = trace w @ EvTemp (nm x) # t" "trace u' = trace w @ EvTemp (nm x) # t @ [ev x]"
      using v(2) u(2) u'(2) by auto
    ultimately show ?thesis unfolding calm_rel_def by (metis is_Exit.simps(2))
  qed (use mk [OF m] run m in \<open>auto simp: bindE_def calm_rel_def\<close>)
qed

lemma calm_tempdir [respects_intros]:
  assumes "\<And>d. d \<noteq> [] \<Longrightarrow> last d \<noteq> slash \<Longrightarrow> io_respects (calm_rel (\<lambda>p. D p \<or> under d p)) (body d)"
  shows "io_respects (calm_rel D) (bindE (os_MkdirTemp dir pat) (\<lambda>d. deferE (os_RemoveAll d) (body d)))"
proof (rule calm_bracket [where nm = "\<lambda>d. d" and ev = EvRemoveAll and ok = "\<lambda>d. d \<noteq> [] \<and> last d \<noteq> slash"])
  fix w r w'
  assume "os_MkdirTemp dir pat w = (r, w')"
  from MkdirTemp_run [OF this] show "same_env w w' \<and> \<not> is_Exit r \<and>
      (case r of Ok x \<Rightarrow> trace w' = trace w @ [EvTemp x] \<and> x \<noteq> [] \<and> last x \<noteq> slash | _ \<Rightarrow> trace w' = trace w)"
    by (cases r) (auto simp: temp_path_ends)
next
  fix d w
  assume "d \<noteq> [] \<and> last d \<noteq> slash"
  then show "same_env w (snd (os_RemoveAll d w)) \<and> trace (snd (os_RemoveAll d w)) = trace w @ [EvRemoveAll d]
      \<and> \<not> is_Exit (fst (os_RemoveAll d w))"
    using noexit_RemoveAll [of d]
    by (auto simp: RemoveAll_env RemoveAll_trace io_respects_def noexit_rel_def)
qed (use assms in \<open>auto simp: under_def\<close>)

lemma calm_tempfile [respects_intros]:
  assumes "\<And>f. io_respects (calm_rel (\<lambda>p. D p \<or> p = f_name f)) (body f)"
  shows "io_respects (calm_rel D)
    (bindE (os_CreateTemp dir pat) (\<lambda>f. deferE (os_Remove (f_name f)) (body f)))"
proof (rule calm_bracket [where nm = f_name and ev = "\<lambda>f. EvRemove (f_name f)" and ok = "\<lambda>_. True"])
  fix w r w'
  assume "os_CreateTemp dir pat w = (r, w')"
  from CreateTemp_run [OF this] show "same_env w w' \<and> \<not> is_Exit r \<and>
      (case r of Ok x \<Rightarrow> trace w' = trace w @ [EvTemp (f_name x)] \<and> True | _ \<Rightarrow> trace w' = trace w)"
    by (cases r) auto
next
  fix f w
  show "same_env w (snd (os_Remove (f_name f) w)) \<and>
      trace (snd (os_Remove (f_name f) w)) = trace w @ [EvRemove (f_name f)]
      \<and> \<not> is_Exit (fst (os_Remove (f_name f) w))"
    using noexit_Remove [of "f_name f"]
    by (auto simp: Remove_env Remove_trace io_respects_def noexit_rel_def)
qed (use assms in auto)

lemma calm_exitE [respects_intros]: "io_respects (calm_rel D) (exitE n)"
  by (auto simp: io_respects_def calm_rel_def io_run)

lemma calm_Walk [respects_intros]:
  "(\<And>p r. io_respects (calm_rel D) (fn p r)) \<Longrightarrow> io_respects (calm_rel D) (filepath_Walk root fn)"
  unfolding filepath_Walk_def Let_def by (intro respects_intros)

lemma noexit_Walk [respects_intros]:
  "(\<And>p r. io_respects noexit_rel (fn p r)) \<Longrightarrow> io_respects noexit_rel (filepath_Walk root fn)"
  unfolding filepath_Walk_def Let_def by (intro respects_intros)

text \<open>
  Code that removes its temporary directory d by hand, on every path, instead of deferring
  the removal: ends_rel D d says that the run ended with it. The steps before it have to
  return, so that the path to the removal is taken.
\<close>

definition ends_rel :: "(string \<Rightarrow> bool) \<Rightarrow> string \<Rightarrow> world \<Rightarrow> bool \<Rightarrow> world \<Rightarrow> bool" where
  "ends_rel D d w x w' \<longleftrightarrow> \<not> x \<and> same_env w w' \<and>
     (\<exists>t. trace w' = trace w @ t @ [EvRemoveAll d] \<and> (\<forall>p \<in> set (uncleaned t). D p \<or> under d p))"

lemma ends_RemoveAll:
  "d \<noteq> [] \<Longrightarrow> io_respects (ends_rel D d) (os_RemoveAll d)"
proof (rule io_respectsI)
  fix w r w'
  assume d: "d \<noteq> []" and run: "os_RemoveAll d w = (r, w')"
  have "\<not> is_Exit r"
    using io_respectsD [OF noexit_RemoveAll run] by (simp add: noexit_rel_def)
  moreover have "trace w' = trace w @ [] @ [EvRemoveAll d]" "same_env w w'"
    using RemoveAll_trace [OF d, of w] RemoveAll_env [of w d] run by simp_all
  ultimately show "ends_rel D d w (is_Exit r) w'"
    unfolding ends_rel_def by fastforce
qed

lemma calm_ends_trans:
  assumes "calm_rel (\<lambda>p. D p \<or> under d p) w False v" and "ends_rel D d v x w'"
  shows "ends_rel D d w x w'"
proof -
  from assms obtain s t where s: "trace v = trace w @ s" "\<forall>p \<in> set (uncleaned s). D p \<or> under d p"
    and t: "trace w' = trace v @ t @ [EvRemoveAll d]" "\<forall>p \<in> set (uncleaned t). D p \<or> under d p"
    by (auto simp: calm_rel_def ends_rel_def)
  have "trace w' = trace w @ (s @ t) @ [EvRemoveAll d]" using s t by simp
  moreover have "\<forall>p \<in> set (uncleaned (s @ t)). D p \<or> under d p"
    using uncleaned_append s(2) t(2) by blast
  moreover have "\<not> x" "same_env w w'"
    using assms same_env_trans by (auto simp: calm_rel_def ends_rel_def)
  ultimately show ?thesis unfolding ends_rel_def by blast
qed

lemma ends_calm_trans:
  assumes "ends_rel D d w False v" and "same_env v w'" and "trace w' = trace v"
  shows "ends_rel D d w False w'"
  using assms by (auto simp: ends_rel_def intro: same_env_trans)

lemma returns_cases:
  assumes "returns m" and "io_respects (calm_rel D) m"
  obtains x w' where "m w = (Ok x, w')" and "calm_rel D w False w'"
  | e w' where "m w = (Err e, w')" and "calm_rel D w False w'"
proof -
  obtain r w' where m: "m w = (r, w')" by (cases "m w")
  have "calm_rel D w (is_Exit r) w'" by (rule io_respectsD [OF assms(2) m])
  moreover have "is_Ok r \<or> (\<exists>e. r = Err e)"
    using returnsD [OF assms(1) m] by (simp add: returned_iff)
  ultimately show thesis using m that by (cases r) auto
qed

lemma returns_sysp [returns_intros]: "returns (sysp mk part f)"
  by (auto simp: returns_def sysp_def Let_def split: option.splits sum.splits)

lemma returns_Mkdir: "returns (os_Mkdir p perm)"
  unfolding os_Mkdir_def sys_def by (rule returns_sysp)

lemma ends_attempt:
  assumes "returns m" and "io_respects (calm_rel (\<lambda>p. D p \<or> under d p)) m"
    and "\<And>r. io_respects (ends_rel D d) (k r)"
  shows "io_respects (ends_rel D d) (bindE (attemptE m) k)"
proof (rule io_respectsI)
  fix w r w'
  assume run: "bindE (attemptE m) k w = (r, w')"
  from returns_cases [OF assms(1,2), of w] obtain q v
    where v: "calm_rel (\<lambda>p. D p \<or> under d p) w False v" and "attemptE m w = (Ok q, v)"
    by (metis attemptE_Ok)
  with run have "k q v = (r, w')" by (simp add: bindE_def)
  from calm_ends_trans [OF v io_respectsD [OF assms(3) this]]
  show "ends_rel D d w (is_Exit r) w'" .
qed

lemma calm_ends:
  assumes "\<And>d. d \<noteq> [] \<Longrightarrow> last d \<noteq> slash \<Longrightarrow> io_respects (ends_rel D d) (body d)"
  shows "io_respects (calm_rel D) (bindE (os_MkdirTemp dir pat) body)"
proof (rule io_respectsI)
  fix w r w'
  assume run: "bindE (os_MkdirTemp dir pat) body w = (r, w')"
  obtain q v where m: "os_MkdirTemp dir pat w = (q, v)" by (cases "os_MkdirTemp dir pat w")
  note mk = MkdirTemp_run [OF m]
  show "calm_rel D w (is_Exit r) w'"
  proof (cases q)
    case (Ok d)
    with mk have v: "same_env w v" "trace v = trace w @ [EvTemp d]" "d \<noteq> []" "last d \<noteq> slash"
      by (auto simp: temp_path_ends)
    from run m Ok have "body d v = (r, w')" by (simp add: bindE_def)
    from io_respectsD [OF assms [OF v(3,4)] this] obtain t where
      t: "trace w' = trace v @ t @ [EvRemoveAll d]" "\<forall>p \<in> set (uncleaned t). D p \<or> under d p"
      and "same_env v w'"
      by (auto simp: ends_rel_def)
    with v have "same_env w w'" using same_env_trans by blast
    moreover have "\<forall>p \<in> set (uncleaned (EvTemp d # t @ [EvRemoveAll d])). D p"
      using t(2) by (intro uncleaned_bracket) (auto simp: under_def)
    moreover have "trace w' = trace w @ EvTemp d # t @ [EvRemoveAll d]" using t(1) v(2) by simp
    ultimately show ?thesis unfolding calm_rel_def by blast
  qed (use mk run m in \<open>auto simp: bindE_def calm_rel_def\<close>)
qed

text \<open>
  The cleanup property of a whole operation: whatever happens in it, the process goes on and
  every temporary file or directory it created has been removed, or its removal attempted.
\<close>

definition cleans_up :: "'a io \<Rightarrow> bool" where
  "cleans_up m \<longleftrightarrow> (\<forall>w. \<not> is_Exit (fst (m w)) \<and> same_env w (snd (m w)) \<and>
     (\<exists>t. trace (snd (m w)) = trace w @ t \<and> uncleaned t = []))"

lemma cleans_upI:
  assumes "io_respects (calm_rel (\<lambda>_. False)) m" and "io_respects noexit_rel m"
  shows "cleans_up m"
proof -
  have "\<not> is_Exit (fst (m w)) \<and> same_env w (snd (m w)) \<and>
     (\<exists>t. trace (snd (m w)) = trace w @ t \<and> uncleaned t = [])" for w
  proof -
    have "calm_rel (\<lambda>_. False) w (is_Exit (fst (m w))) (snd (m w))" "\<not> is_Exit (fst (m w))"
      using assms by (simp_all add: io_respects_def noexit_rel_def)
    then show ?thesis unfolding calm_rel_def by (metis list.set_intros(1) neq_Nil_conv)
  qed
  then show ?thesis by (simp add: cleans_up_def)
qed

end
