(* ===== verification/OS_Returns.thy ===== *)
theory OS_Returns
  imports OS_Facts
begin

text \<open>
  Every call into the operating system returns a value or an error: none of them panics or ends
  the process, whatever fails.
\<close>

lemma returns_sys [returns_intros]: "returns (sys mk f)"
  unfolding sys_def by (rule returns_sysp)

lemma returns_Write [returns_intros]: "returns (f_Write f bs)"
  by (auto simp: returns_def f_Write_def Let_def split: option.splits)

lemma returns_Stderr [returns_intros]: "returns (os_Stderr s)"
  by (simp add: returns_def os_Stderr_def)

lemma returns_exec [returns_intros]: "returns (os_exec P d argv)"
  by (auto simp: returns_def os_exec_def Let_def split: option.splits prod.splits)

lemma returns_simple [returns_intros]:
  "returns (os_Stat p)" "returns (os_OpenFile p fl perm)" "returns (io_Copy d s)"
  "returns (f_Read f)" "returns (f_Close f)" "returns (f_Sync f)" "returns (f_Seek_start f)"
  "returns (f_Stat f)" "returns (os_Mkdir p perm)" "returns (os_MkdirAll p perm)"
  "returns (os_Rename a b)" "returns (os_ReadDir p)" "returns (f_Readdirnames f)"
  "returns (os_Truncate p n)" "returns (f_Truncate f n)" "returns (unix_Access_X p)"
  unfolding os_Stat_def os_OpenFile_def io_Copy_def f_Read_def f_Close_def f_Sync_def f_Seek_start_def
    f_Stat_def os_Mkdir_def os_MkdirAll_def os_Rename_def os_ReadDir_def f_Readdirnames_def
    os_Truncate_def f_Truncate_def unix_Access_X_def
  by (intro returns_intros)+

lemma returns_files [returns_intros]:
  "returns (os_Open p)" "returns (os_Create p)" "returns (os_ReadFile p)" "returns (os_WriteFile p bs perm)"
  "returns (filepath_Abs p)"
  unfolding os_Open_def os_Create_def os_ReadFile_def os_WriteFile_def filepath_Abs_def
  by (intro returns_intros)+

lemma returns_removal [returns_intros]: "returns (os_Remove p)" "returns (os_RemoveAll p)"
proof -
  have "returned (fst (os_Remove p w))" for w
    using returns_sys unfolding os_Remove_def returns_def by blast
  then show "returns (os_Remove p)" by (simp add: returns_def)
  have "returned (fst (os_RemoveAll p w))" for w
    using returns_sysp unfolding os_RemoveAll_def returns_def by auto
  then show "returns (os_RemoveAll p)" by (simp add: returns_def)
qed

lemma returns_temp_loop:
  assumes "\<And>p. returns (mkf p)"
  shows "returns (temp_loop n op mkf dir pat)"
proof -
  have "returned (fst (temp_loop n op mkf dir pat w))" for w
  proof (induction n arbitrary: w)
    case 0
    show ?case by (subst temp_loop.simps) simp
  next
    case (Suc n)
    let ?m = "mkf (temp_path w dir pat (rands w (rnd w))) (w\<lparr>rnd := Suc (rnd w)\<rparr>)"
    have "returned (fst ?m)" using assms by (simp add: returns_def)
    with Suc show ?case
      by (subst temp_loop.simps) (cases ?m; cases "fst ?m"; auto simp: Let_def)
  qed
  then show ?thesis by (simp add: returns_def)
qed

lemma returns_temp [returns_intros]: "returns (os_CreateTemp dir pat)" "returns (os_MkdirTemp dir pat)"
  unfolding os_CreateTemp_def os_MkdirTemp_def by (intro returns_temp_loop returns_intros)+

lemma returns_Walk [returns_intros]:
  "(\<And>p r. returns (fn p r)) \<Longrightarrow> returns (filepath_Walk root fn)"
  unfolding filepath_Walk_def Let_def by (intro returns_intros)

end
