(* ===== verification/OS_Success.thy ===== *)
theory OS_Success
  imports OS_Returns
begin

text \<open>
  What a call that returned without error has done: moved w w' m says that the world after it
  is the world before with the file system m (calls counted, nothing traced). The rules turn
  a run that returned Ok into the file system it leaves, one call after the other.
\<close>

definition moved :: "world \<Rightarrow> world \<Rightarrow> filesys \<Rightarrow> bool" where
  "moved w w' m \<longleftrightarrow> same_env w w' \<and> trace w' = trace w \<and> fs w' = m"

lemma moved_fs: "moved w w' m \<Longrightarrow> fs w' = m"
  by (simp add: moved_def)

lemma moved_key: "moved w w' m \<Longrightarrow> path_key w' p = path_key w p"
  by (simp add: moved_def same_env_path_key)

lemma moved_refl [simp]: "moved w w m \<longleftrightarrow> fs w = m"
  by (simp add: moved_def)

lemma moved_trans: "moved w v m \<Longrightarrow> moved v w' m' \<Longrightarrow> moved w w' m'"
  by (auto simp: moved_def intro: same_env_trans)

lemma moved_tick [simp]: "moved w (w\<lparr>tick := n\<rparr>) m \<longleftrightarrow> fs w = m"
  by (simp add: moved_def)

lemma quiet_moved: "io_respects quiet_rel m \<Longrightarrow> m w = (Ok x, w') \<Longrightarrow> moved w w' (fs w')"
  using io_respectsD [of quiet_rel m w "Ok x" w'] by (simp add: quiet_rel_def moved_def)

definition file_of :: "world \<Rightarrow> string \<Rightarrow> osfile" where
  "file_of w p = \<lparr>f_name = p, f_key = path_key w p\<rparr>"

lemma file_of_simps [simp]: "f_name (file_of w p) = p" "f_key (file_of w p) = path_key w p"
  by (simp_all add: file_of_def)

lemma path_key_tick [simp]: "path_key (w\<lparr>tick := n\<rparr>) p = path_key w p"
  by (simp add: path_key_def)

lemma node_at_root [simp]: "node_at m [] = Some (Dir mode_0755)"
  by (simp add: node_at_def)

lemma Open_OkD:
  assumes "os_Open p w = (Ok f, w')"
  shows "f = file_of w p" "moved w w' (fs w)" "p \<noteq> []" "node_at (fs w) (path_key w p) \<noteq> None"
  using assms
  by (auto simp: os_Open_def os_OpenFile_def sys_Ok open_step_def Let_def file_of_def
      split: option.splits if_splits node.splits)

lemma OpenFile_OkD:
  assumes "os_OpenFile p fl perm w = (Ok f, w')" and "O_CREATE \<in> set fl" and "O_TRUNC \<in> set fl"
  shows "f = file_of w p" "p \<noteq> []"
    "case node_at (fs w) (path_key w p) of
       None \<Rightarrow> moved w w' (fs_put (path_key w p) (File (perm AND NOT (umask w)) []) (fs w))
     | Some (File m b) \<Rightarrow> moved w w' (fs_put (path_key w p) (File m []) (fs w))
     | Some (Special m) \<Rightarrow> moved w w' (fs w)
     | Some (Dir m) \<Rightarrow> False"
  using assms
  by (auto simp: os_OpenFile_def sys_Ok open_step_def Let_def file_of_def put_node_def moved_def
      split: option.splits if_splits node.splits)

lemma Close_OkD: "f_Close f w = (Ok u, w') \<Longrightarrow> moved w w' (fs w)"
  by (auto simp: f_Close_def sys_Ok)

lemma Sync_OkD: "f_Sync f w = (Ok u, w') \<Longrightarrow> moved w w' (fs w)"
  by (auto simp: f_Sync_def sys_Ok)

lemma Close_moved: "f_Close f w = (r, w') \<Longrightarrow> moved w w' (fs w)"
  by (auto simp: f_Close_def sys_def sysp_def Let_def moved_def split: option.splits)

lemma fStat_OkD:
  assumes "f_Stat f w = (Ok i, w')"
  shows "moved w w' (fs w)" "\<exists>n. node_at (fs w) (f_key f) = Some n \<and> i = node_info n"
  using assms by (auto simp: f_Stat_def sys_Ok split: option.splits)

lemma Read_OkD:
  assumes "f_Read f w = (Ok b, w')"
  shows "moved w w' (fs w)"
    "case node_at (fs w) (f_key f) of Some (File m c) \<Rightarrow> b = c | Some (Dir m) \<Rightarrow> False | _ \<Rightarrow> b = []"
  using assms by (auto simp: f_Read_def sys_Ok split: option.splits node.splits)

lemma Copy_OkD:
  assumes "io_Copy d s w = (Ok n, w')" and "node_at (fs w) (f_key s) = Some (File m b)"
  shows "moved w w' (fs (append_file (f_key d) b w))" "n = length b"
  using assms
  by (auto simp: io_Copy_def sysp_Ok copy_step_def moved_def append_file_def put_node_def
      split: option.splits node.splits)

lemma Write_OkD:
  assumes "f_Write f b w = (Ok (n, None), w')"
  shows "moved w w' (fs (append_file (f_key f) b w))" "n = length b"
  using assms
  by (auto simp: f_Write_def Let_def moved_def append_file_def put_node_def
      split: option.splits node.splits)

lemma append_file_node:
  "k \<noteq> [] \<Longrightarrow> node_at (fs w) k = Some (File m b) \<Longrightarrow>
     node_at (fs (append_file k c w)) q = (if q = k then Some (File m (b @ c)) else node_at (fs w) q)"
  by (simp add: append_file_def put_node_def)

lemma append_file_special:
  "node_at (fs w) k = Some (Special m) \<Longrightarrow> fs (append_file k c w) = fs w"
  by (simp add: append_file_def)

text \<open>A path that is a device, pipe or socket: what is written there is not kept as content.\<close>

definition is_special :: "world \<Rightarrow> string \<Rightarrow> bool" where
  "is_special w p = (case node_at (fs w) (path_key w p) of Some (Special m) \<Rightarrow> True | _ \<Rightarrow> False)"

lemma is_special_iff: "is_special w p \<longleftrightarrow> (\<exists>m. node_at (fs w) (path_key w p) = Some (Special m))"
  by (auto simp: is_special_def split: option.splits node.splits)

lemma ReadFile_OkD:
  assumes "os_ReadFile p w = (Ok b, w')" and "file_content w p = Some c"
  shows "b = c" "moved w w' (fs w)"
proof -
  from assms(1) obtain f v r where o: "os_Open p w = (Ok f, v)"
    and d: "deferE (f_Close f) (f_Read f) v = (Ok b, w')"
    by (auto simp: os_ReadFile_def io_ok)
  note F = Open_OkD [OF o]
  from d obtain u r where rd: "f_Read f v = (Ok b, u)" and cl: "f_Close f u = (r, w')"
    by (auto simp: io_ok)
  from F rd assms(2) show "b = c"
    using Read_OkD(2) [OF rd] by (auto simp: moved_fs [OF F(2)] file_content_def split: option.splits node.splits)
  show "moved w w' (fs w)"
    using F(2) Read_OkD(1) [OF rd] Close_moved [OF cl] by (metis moved_fs moved_trans)
qed

lemma WriteFile_OkD:
  assumes "os_WriteFile p bs perm w = (Ok u, w')"
    and "\<not> is_special w p"
  shows "file_content w' p = Some bs"
    and "q \<noteq> path_key w p \<Longrightarrow> node_at (fs w') q = node_at (fs w) q"
    and "node_at (fs w) (path_key w p) = None \<Longrightarrow>
           node_at (fs w') (path_key w p) = Some (File (perm AND NOT (umask w)) bs)"
    and "same_env w w'" and "trace w' = trace w"
proof -
  let ?k = "path_key w p"
  from assms(1) obtain f v where o: "os_OpenFile p [O_WRONLY, O_CREATE, O_TRUNC] perm w = (Ok f, v)"
    and rest: "bindE (f_Write f bs) (\<lambda>(n, err).
       bindE (attemptE (f_Close f)) (\<lambda>cerr.
         case err of Some e \<Rightarrow> throwE e
         | None \<Rightarrow> (case cerr of Inl e \<Rightarrow> throwE e | Inr u \<Rightarrow> returnE ()))) v = (Ok u, w')"
    by (auto simp: os_WriteFile_def io_ok)
  then obtain n err x where wr: "f_Write f bs v = (Ok (n, err), x)"
    and rest': "bindE (attemptE (f_Close f)) (\<lambda>cerr.
         case err of Some e \<Rightarrow> throwE e
         | None \<Rightarrow> (case cerr of Inl e \<Rightarrow> throwE e | Inr u \<Rightarrow> returnE ())) x = (Ok u, w')"
    by (auto simp: bindE_Ok)
  from rest' have err: "err = None" and cl: "f_Close f x = (Ok (), w')"
    by (auto simp: io_ok split: option.splits sum.splits)
  note F = OpenFile_OkD [OF o, simplified]
  from F(3) assms(2) obtain m where v: "moved w v (fs_put ?k (File m []) (fs w))"
    and m: "node_at (fs w) ?k = None \<Longrightarrow> m = perm AND NOT (umask w)" and k: "?k \<noteq> []"
    by (cases "?k = []") (auto simp: is_special_iff split: option.splits node.splits)
  note W = Write_OkD [OF wr [unfolded err]]
  have x: "moved w w' (fs (append_file ?k bs v))"
    using moved_trans [OF moved_trans [OF v W(1)]] Close_OkD [OF cl] F(1) moved_fs [OF W(1)] by simp
  have node: "node_at (fs w') q = (if q = ?k then Some (File m bs) else node_at (fs w) q)" for q
    using append_file_node [of ?k v m "[]" bs q] k by (simp add: moved_fs [OF x] moved_fs [OF v])
  show "file_content w' p = Some bs"
    by (simp add: file_content_def moved_key [OF x] node)
  show "q \<noteq> ?k \<Longrightarrow> node_at (fs w') q = node_at (fs w) q" by (simp add: node)
  show "node_at (fs w) ?k = None \<Longrightarrow> node_at (fs w') ?k = Some (File (perm AND NOT (umask w)) bs)"
    by (simp add: node m)
  show "same_env w w'" "trace w' = trace w" using x by (simp_all add: moved_def)
qed

section \<open>What a call can change\<close>

text \<open>only_rel k: nothing but the node at the key k is different afterwards.\<close>

definition only_rel :: "key \<Rightarrow> world \<Rightarrow> bool \<Rightarrow> world \<Rightarrow> bool" where
  "only_rel k w x w' \<longleftrightarrow> (\<forall>q. q \<noteq> k \<longrightarrow> node_at (fs w') q = node_at (fs w) q)"

interpretation only: io_effect "only_rel k" for k
  by unfold_locales (auto simp: only_rel_def)

lemma only_sysp:
  assumes "\<And>w x w'. f w = Inr (x, w') \<Longrightarrow> only_rel k w False w'"
    and "\<And>n w. only_rel k w False (part n w)"
  shows "io_respects (only_rel k) (sysp mk part f)"
proof (rule io_respectsI)
  fix w r w'
  assume "sysp mk part f w = (r, w')"
  then show "only_rel k w (is_Exit r) w'"
    using assms(1) [of "w\<lparr>tick := Suc (tick w)\<rparr>"] assms(2) [of "w\<lparr>tick := Suc (tick w)\<rparr>"]
    by (auto simp: sysp_def Let_def only_rel_def split: option.splits sum.splits)
qed

lemma only_append_file: "only_rel k w x (append_file k b w)"
  by (auto simp: only_rel_def append_file_def put_node_def split: option.splits node.splits)

lemma only_Write [respects_intros]: "io_respects (only_rel (f_key f)) (f_Write f b)"
  using only_append_file [of "f_key f"]
  by (auto simp: io_respects_def f_Write_def Let_def only_rel_def append_file_def put_node_def
      split: option.splits node.splits)

lemma only_Close [respects_intros]: "io_respects (only_rel k) (f_Close f)"
  unfolding f_Close_def sys_def by (rule only_sysp) (auto simp: only_rel_def)

lemma attempt_Close_moved: "attemptE (f_Close f) w = (Ok r, w') \<Longrightarrow> moved w w' (fs w)"
  by (auto simp: attemptE_Ok dest: Close_moved)

text \<open>
  extends_fs w v: v has every file of w unchanged, and possibly new ones. A temporary file
  that was written and closed is such an extension, with the content in it.
\<close>

definition extends_fs :: "world \<Rightarrow> world \<Rightarrow> bool" where
  "extends_fs w v \<longleftrightarrow> same_env w v \<and>
     (\<forall>k n. node_at (fs w) k = Some n \<longrightarrow> node_at (fs v) k = Some n)"

lemma extends_fs_trans: "extends_fs u v \<Longrightarrow> extends_fs v w \<Longrightarrow> extends_fs u w"
  by (auto simp: extends_fs_def intro: same_env_trans)

lemma extends_fs_content:
  "extends_fs w v \<Longrightarrow> file_content w p = Some b \<Longrightarrow> file_content v p = Some b"
  by (auto simp: extends_fs_def file_content_def same_env_path_key split: option.splits node.splits)

lemma moved_extends: "moved w v (fs w) \<Longrightarrow> extends_fs w v"
  by (auto simp: moved_def extends_fs_def)

lemma temp_file_written:
  assumes cr: "os_CreateTemp d pat w = (Ok f, u)" and wr: "f_Write f bs u = (Ok (n, None), x)"
    and cl: "attemptE (f_Close f) x = (Ok c, y)"
  shows "extends_fs w y" and "file_content y (f_name f) = Some bs"
proof -
  from CreateTemp_run [OF cr] have f: "f_key f = path_key w (f_name f)" "node_at (fs w) (f_key f) = None"
    "fs u = fs_put (f_key f) (File (mode_0600 AND NOT (umask w)) []) (fs w)" "same_env w u"
    by auto
  have k: "f_key f \<noteq> []" using f(2) by auto
  note W = Write_OkD [OF wr] and y = attempt_Close_moved [OF cl]
  have node: "node_at (fs y) q = (if q = f_key f then Some (File (mode_0600 AND NOT (umask w)) bs)
      else node_at (fs w) q)" for q
    using append_file_node [of "f_key f" u "mode_0600 AND NOT (umask w)" "[]" bs q] k f(3)
    by (simp add: moved_fs [OF y] moved_fs [OF W(1)])
  have env: "same_env w y" using f(4) W(1) y same_env_trans by (metis moved_def)
  with node f(2) show "extends_fs w y" by (auto simp: extends_fs_def)
  show "file_content y (f_name f) = Some bs"
    using node f(1) by (simp add: file_content_def same_env_path_key [OF env])
qed

lemma temp_dir_extends:
  assumes "os_MkdirTemp d pat w = (Ok t, u)"
  shows "extends_fs w u"
  using MkdirTemp_run [OF assms] by (auto simp: extends_fs_def)

text \<open>reads_rel: the call only looked; files, environment and trace are as before.\<close>

definition reads_rel :: "world \<Rightarrow> bool \<Rightarrow> world \<Rightarrow> bool" where
  "reads_rel w x w' \<longleftrightarrow> \<not> x \<and> same_env w w' \<and> trace w' = trace w \<and> fs w' = fs w"

interpretation reads: io_effect reads_rel
  by unfold_locales (auto simp: reads_rel_def intro: same_env_trans)

lemma reads_sys:
  assumes "\<And>w x w'. f w = Inr (x, w') \<Longrightarrow> w' = w"
  shows "io_respects reads_rel (sys mk f)"
proof (rule io_respectsI)
  fix w r w'
  assume "sys mk f w = (r, w')"
  then show "reads_rel w (is_Exit r) w'"
    using assms [of "w\<lparr>tick := Suc (tick w)\<rparr>"]
    by (auto simp: sys_def sysp_def Let_def reads_rel_def split: option.splits sum.splits)
qed

lemma reads_Stat [respects_intros]: "io_respects reads_rel (os_Stat p)"
  unfolding os_Stat_def by (rule reads_sys) (auto split: sum.splits)

lemma reads_Open [respects_intros]: "io_respects reads_rel (os_Open p)"
  unfolding os_Open_def os_OpenFile_def
  by (rule reads_sys) (auto simp: open_step_def Let_def split: option.splits if_splits node.splits)

lemma reads_Read [respects_intros]: "io_respects reads_rel (f_Read f)"
  unfolding f_Read_def by (rule reads_sys) (auto split: option.splits node.splits)

lemma reads_Close [respects_intros]: "io_respects reads_rel (f_Close f)"
  unfolding f_Close_def by (rule reads_sys) auto

lemma reads_fStat [respects_intros]: "io_respects reads_rel (f_Stat f)"
  unfolding f_Stat_def by (rule reads_sys) (auto split: option.splits)

lemma reads_ReadFile [respects_intros]: "io_respects reads_rel (os_ReadFile p)"
  unfolding os_ReadFile_def by (intro respects_intros)

lemma reads_Access [respects_intros]: "io_respects reads_rel (unix_Access_X p)"
  unfolding unix_Access_X_def by (rule reads_sys) (auto split: sum.splits if_splits)

lemma reads_moved: "io_respects reads_rel m \<Longrightarrow> m w = (r, w') \<Longrightarrow> moved w w' (fs w)"
  using io_respectsD [of reads_rel m w r w'] by (simp add: reads_rel_def moved_def)

section \<open>Creating a file\<close>

lemma Create_OkD:
  assumes "os_Create p w = (Ok f, w')" and "\<not> is_special w p"
  shows "f = file_of w p" "path_key w p \<noteq> []"
    "\<exists>m. moved w w' (fs_put (path_key w p) (File m []) (fs w))"
proof -
  note F = OpenFile_OkD [OF assms(1) [unfolded os_Create_def], simplified]
  show "f = file_of w p" by (rule F(1))
  show "path_key w p \<noteq> []" using F(3) by (cases "path_key w p = []") auto
  show "\<exists>m. moved w w' (fs_put (path_key w p) (File m []) (fs w))"
    using F(3) assms(2) by (auto simp: is_special_iff split: option.splits node.splits)
qed


lemma find_node_tick [simp]: "find_node (w\<lparr>tick := n\<rparr>) p = find_node w p"
  by (simp add: find_node_def)

end
