(* ===== verification/Sample_World.thy ===== *)
theory Sample_World
  imports OS_Success
begin

text \<open>
  A concrete world the witnesses of the properties run in: a root directory with the files
  given, no failing calls, an empty environment otherwise.
\<close>

definition sample_world :: "filesys \<Rightarrow> world" where
  "sample_world m =
     \<lparr>fs = m, cwd = ''/'', tmp_root = ''/t'', path_env = ''/b'', umask = 0x12, euid = 0,
      faults = (\<lambda>_. None), rands = (\<lambda>n. n), tick = 0, rnd = 0, trace = []\<rparr>"

text \<open>The same world on a machine on which every call fails.\<close>

definition broken_world :: "filesys \<Rightarrow> world" where
  "broken_world m = (sample_world m)\<lparr>faults := (\<lambda>_. Some (EIO, 0))\<rparr>"

definition sample_fs :: filesys where
  "sample_fs = [([''t''], Dir mode_0755), ([''a''], File mode_0644 [1, 2]), ([''c''], File mode_0600 [3])]"

text \<open>Every program runs, changes nothing and exits with status 0.\<close>

definition idle_programs :: programs where
  "idle_programs d argv m = (Exited 0 [], m)"

end
