(* ===== verification/Cert.thy ===== *)
theory Cert
  imports Pem Sample_World
begin

text \<open>
  go/pkg/cert/cert.go: certificates, keys and GUIDs read from files, and EFI signature data.
  The parsers of crypto/x509 and the EFI library (go-efilib) are parameters, collected in the
  records crypto_lib and efi_lib; encoding/pem is in the theory Pem.
\<close>

section \<open>Library types\<close>

record certificate =
  Raw :: bytes

datatype private_key = RsaKey bytes | OtherKey bytes

record crypto_lib =
  x509_ParseCertificate :: "bytes \<Rightarrow> goerror + certificate"
  x509_ParsePKCS8PrivateKey :: "bytes \<Rightarrow> goerror + private_key"

type_synonym guid = bytes

definition zero_guid :: guid where
  "zero_guid = replicate 16 0"

record SignatureData =
  Owner :: guid
  Data :: bytes

record SignatureList =
  sl_Type :: guid
  Signatures :: "SignatureData list"

type_synonym SignatureDatabase = "SignatureList list"

record efi_lib =
  DecodeGUIDString :: "string \<Rightarrow> goerror + guid"
  GUID_String :: "guid \<Rightarrow> string"
  CertX509Guid :: guid
  SignatureDatabase_Bytes :: "SignatureDatabase \<Rightarrow> goerror + bytes"

section \<open>Definitions\<close>

definition CertFromPem :: "crypto_lib \<Rightarrow> bytes \<Rightarrow> goerror + certificate" where
  "CertFromPem C data =
     (case pem_Decode data of
        None \<Rightarrow> Inl (ErrorString ''No PEM block found'')
      | Some block \<Rightarrow> x509_ParseCertificate C (blk_Bytes block))"

definition CertFromPemFile :: "crypto_lib \<Rightarrow> string \<Rightarrow> certificate io" where
  "CertFromPemFile C path =
     bindE (os_ReadFile path) (\<lambda>pemData. fromSum (CertFromPem C pemData))"

text \<open>Writing to a bytes.Buffer does not fail, so there is no error to return.\<close>

definition PemFromCert :: "certificate \<Rightarrow> goerror + bytes" where
  "PemFromCert cert = Inr (pem_Encode \<lparr>blk_Type = ''CERTIFICATE'', blk_Bytes = Raw cert\<rparr>)"

definition KeyFromPem :: "crypto_lib \<Rightarrow> bytes \<Rightarrow> goerror + bytes" where
  "KeyFromPem C data =
     (case pem_Decode data of
        None \<Rightarrow> Inl (ErrorString ''No PEM block found'')
      | Some block \<Rightarrow>
          (case x509_ParsePKCS8PrivateKey C (blk_Bytes block) of
             Inl err \<Rightarrow> Inl (WrapError (''failed to parse key: '' @ error_text err) err)
           | Inr (RsaKey k) \<Rightarrow> Inr k
           | Inr (OtherKey k) \<Rightarrow> Inl (ErrorString ''parsed key was not rsa.PrivateKey'')))"

definition KeyFromPemFile :: "crypto_lib \<Rightarrow> string \<Rightarrow> bytes io" where
  "KeyFromPemFile C path =
     bindE (os_ReadFile path) (\<lambda>pemData. fromSum (KeyFromPem C pemData))"

definition GUIDFromFile :: "efi_lib \<Rightarrow> string \<Rightarrow> guid io" where
  "GUIDFromFile E path =
     bindE (os_ReadFile path) (\<lambda>content.
       fromSum (DecodeGUIDString E (TrimRight (string_of_bytes content) [CHR 0x0A])))"

definition LoadSignatureDataDir :: "crypto_lib \<Rightarrow> string \<Rightarrow> SignatureData io" where
  "LoadSignatureDataDir C dirPath =
     bindE (CertFromPemFile C (path_Join [dirPath, ''cert.pem''])) (\<lambda>cert.
       returnE \<lparr>Owner = zero_guid, Data = Raw cert\<rparr>)"

text \<open>The signatures loaded so far come back together with the error.\<close>

fun load_dirs :: "crypto_lib \<Rightarrow> SignatureData list \<Rightarrow> string list \<Rightarrow>
    (SignatureData list \<times> goerror option) io" where
  "load_dirs C sigs [] = returnE (sigs, None)"
| "load_dirs C sigs (d # ds) =
     bindE (attemptE (LoadSignatureDataDir C d)) (\<lambda>r.
       case r of
         Inl err \<Rightarrow> returnE (sigs, Some err)
       | Inr curData \<Rightarrow> load_dirs C (sigs @ [curData]) ds)"

definition LoadSignatureDataDirs :: "crypto_lib \<Rightarrow> string list \<Rightarrow>
    (SignatureData list \<times> goerror option) io" where
  "LoadSignatureDataDirs C dirPaths = load_dirs C [] dirPaths"

fun append_siglists :: "efi_lib \<Rightarrow> SignatureDatabase \<Rightarrow> SignatureData list \<Rightarrow> SignatureDatabase" where
  "append_siglists E sigdb [] = sigdb"
| "append_siglists E sigdb (sigdata # ds) =
     append_siglists E (sigdb @ [\<lparr>sl_Type = CertX509Guid E, Signatures = [sigdata]\<rparr>]) ds"

definition NewEFISignatureDatabase :: "efi_lib \<Rightarrow> SignatureData list \<Rightarrow> SignatureDatabase" where
  "NewEFISignatureDatabase E sigDatam = append_siglists E [] sigDatam"

section \<open>Facts\<close>

lemma append_siglists_eq:
  "append_siglists E db ds =
     db @ map (\<lambda>sd. \<lparr>sl_Type = CertX509Guid E, Signatures = [sd]\<rparr>) ds"
  by (induction ds arbitrary: db) auto

lemma quiet_CertFromPemFile [respects_intros]: "io_respects quiet_rel (CertFromPemFile C p)"
  unfolding CertFromPemFile_def by (intro respects_intros)

lemma quiet_KeyFromPemFile [respects_intros]: "io_respects quiet_rel (KeyFromPemFile C p)"
  unfolding KeyFromPemFile_def by (intro respects_intros)

lemma quiet_GUIDFromFile [respects_intros]: "io_respects quiet_rel (GUIDFromFile E p)"
  unfolding GUIDFromFile_def by (intro respects_intros)

lemma quiet_LoadSignatureDataDir [respects_intros]:
  "io_respects quiet_rel (LoadSignatureDataDir C p)"
  unfolding LoadSignatureDataDir_def by (intro respects_intros)

lemma reads_CertFromPemFile [respects_intros]: "io_respects reads_rel (CertFromPemFile C p)"
  unfolding CertFromPemFile_def by (intro respects_intros)

lemma reads_KeyFromPemFile [respects_intros]: "io_respects reads_rel (KeyFromPemFile C p)"
  unfolding KeyFromPemFile_def by (intro respects_intros)

lemma reads_LoadSignatureDataDir [respects_intros]:
  "io_respects reads_rel (LoadSignatureDataDir C p)"
  unfolding LoadSignatureDataDir_def by (intro respects_intros)

lemmas quiet_cert =
  quiet_CertFromPemFile quiet_KeyFromPemFile quiet_GUIDFromFile quiet_LoadSignatureDataDir

lemmas calm_cert [respects_intros] = quiet_cert [THEN quiet_imp_calm]

lemmas noexit_cert [respects_intros] = quiet_cert [THEN quiet_imp_noexit]

text \<open>Opening the empty path fails, so nothing can be read from it.\<close>

lemma Open_empty: "\<exists>e w'. os_Open [] w = (Err e, w')"
  by (auto simp: os_Open_def os_OpenFile_def sys_def sysp_def Let_def open_step_def
      split: option.splits)

lemma ReadFile_empty: "\<exists>e w'. os_ReadFile [] w = (Err e, w')"
  using Open_empty [of w] by (auto simp: os_ReadFile_def bindE_def)

lemma CertFromPemFile_empty: "\<exists>e w'. CertFromPemFile C [] w = (Err e, w')"
  using ReadFile_empty [of w] by (auto simp: CertFromPemFile_def bindE_def)

section \<open>Signature databases\<close>

text \<open>
  NewEFISignatureDatabase makes one X.509 signature list per certificate, with that one
  certificate in it, in the order given: encoding the result of a concatenation needs no
  more than the databases of its parts, as the comment on cert-to-efi-sig-list says.
\<close>

lemma NewEFISignatureDatabase_lists:
  "NewEFISignatureDatabase E (xs @ ys) = NewEFISignatureDatabase E xs @ NewEFISignatureDatabase E ys \<and>
   length (NewEFISignatureDatabase E xs) = length xs \<and>
   list_all (\<lambda>sl. sl_Type sl = CertX509Guid E \<and> length (Signatures sl) = 1) (NewEFISignatureDatabase E xs) \<and>
   concat (map Signatures (NewEFISignatureDatabase E xs)) = xs"
  by (induction xs) (auto simp: NewEFISignatureDatabase_def append_siglists_eq list_all_iff)

section \<open>Loading directories\<close>

lemma LoadSignatureDataDir_Ok:
  "LoadSignatureDataDir C d w = (Ok sd, w') \<Longrightarrow>
     \<exists>cert. CertFromPemFile C (path_Join [d, ''cert.pem'']) w = (Ok cert, w') \<and>
       sd = \<lparr>Owner = zero_guid, Data = Raw cert\<rparr>"
  by (auto simp: LoadSignatureDataDir_def io_ok)

lemma load_dirs_run:
  assumes "load_dirs C sigs ds w = (Ok (sds, err), w')"
  shows "\<exists>new. sds = sigs @ new \<and> length new \<le> length ds \<and>
    (err = None \<longleftrightarrow> length new = length ds) \<and> (\<forall>sd \<in> set new. Owner sd = zero_guid)"
  using assms
proof (induction ds arbitrary: sigs w)
  case Nil
  then show ?case by (auto simp: io_ok)
next
  case (Cons d ds)
  from Cons.prems obtain r v where a: "attemptE (LoadSignatureDataDir C d) w = (Ok r, v)"
    and rest: "(case r of Inl err \<Rightarrow> returnE (sigs, Some err)
       | Inr curData \<Rightarrow> load_dirs C (sigs @ [curData]) ds) v = (Ok (sds, err), w')"
    by (auto simp: bindE_Ok)
  show ?case
  proof (cases r)
    case (Inl e)
    with rest show ?thesis by (auto simp: io_ok)
  next
    case (Inr sd)
    with a have "Owner sd = zero_guid" by (auto simp: attemptE_Ok dest!: LoadSignatureDataDir_Ok)
    moreover from Cons.IH [of "sigs @ [sd]" v] rest Inr obtain new where
      "sds = (sigs @ [sd]) @ new \<and> length new \<le> length ds \<and>
       (err = None \<longleftrightarrow> length new = length ds) \<and> (\<forall>sd \<in> set new. Owner sd = zero_guid)"
      by auto
    ultimately show ?thesis by (intro exI [of _ "sd # new"]) auto
  qed
qed


text \<open>A certificate library that takes every non-empty byte string as a certificate and as a key.\<close>

definition sample_crypto :: crypto_lib where
  "sample_crypto =
     \<lparr>x509_ParseCertificate = (\<lambda>b. if b = [] then Inl (ErrorString ''empty certificate'') else Inr \<lparr>Raw = b\<rparr>),
      x509_ParsePKCS8PrivateKey = (\<lambda>b. Inr (RsaKey b))\<rparr>"

definition pem_of :: "bytes \<Rightarrow> bytes" where
  "pem_of b = pem_Encode \<lparr>blk_Type = ''CERTIFICATE'', blk_Bytes = b\<rparr>"

definition keys_fs :: filesys where
  "keys_fs = [([''t''], Dir mode_0755), ([''k''], Dir mode_0755),
     ([''k'', ''cert.pem''], File mode_0644 (pem_of [9, 8])), ([''k'', ''key.pem''], File mode_0600 (pem_of [1, 2])),
     ([''e''], File mode_0644 [1, 2])]"


section \<open>Keys and GUIDs\<close>

text \<open>
  C26: A certificate written by PemFromCert is read back by CertFromPem: whatever is appended to
  the PEM text, CertFromPem finds the block and parses exactly the bytes of the certificate,
  base64, line breaks of 64 columns and markers included.
\<close>

theorem PemFromCert_round_trip:
  "\<exists>pem. PemFromCert cert = Inr pem \<and> CertFromPem C (pem @ s) = x509_ParseCertificate C (Raw cert)"
proof -
  have "pem_Decode (pem_Encode \<lparr>blk_Type = ''CERTIFICATE'', blk_Bytes = Raw cert\<rparr> @ s)
      = Some \<lparr>blk_Type = ''CERTIFICATE'', blk_Bytes = Raw cert\<rparr>"
    by (rule pem_Decode_Encode) simp_all
  then show ?thesis by (simp add: PemFromCert_def CertFromPem_def)
qed

text \<open>
  KeyFromPem accepts exactly the PEM blocks that parse as a PKCS#8 RSA key: any other key
  is refused, and a parse error is wrapped, not replaced.
\<close>

lemma KeyFromPem_iff:
  "KeyFromPem C data = Inr k \<longleftrightarrow>
     (\<exists>blk. pem_Decode data = Some blk \<and> x509_ParsePKCS8PrivateKey C (blk_Bytes blk) = Inr (RsaKey k))"
  by (auto simp: KeyFromPem_def split: option.splits sum.splits private_key.splits)

text \<open>
  GUIDFromFile reads what was written to the file whatever number of newlines follows it:
  the result is that of decoding the text without them.
\<close>

lemma GUIDFromFile_trims:
  assumes "os_ReadFile p w = (Ok b, v)"
    and "file_content w p = Some (bytes_of_string (s @ replicate n (CHR 0x0A)))"
    and "s = [] \<or> last s \<noteq> CHR 0x0A"
  shows "GUIDFromFile E p w = fromSum (DecodeGUIDString E s) v"
proof -
  have "TrimRight (s @ replicate n (CHR 0x0A)) [CHR 0x0A] = s"
    using assms(3) by (intro TrimRight_suffix) auto
  then show ?thesis
    using ReadFile_OkD(1) [OF assms(1,2)] by (simp add: GUIDFromFile_def bindE_def assms(1))
qed

text \<open>An EFI library whose encoding is the data of the signatures, one after the other.\<close>

definition sample_efi :: efi_lib where
  "sample_efi = \<lparr>DecodeGUIDString = (\<lambda>s. if length s = 16 then Inr (bytes_of_string s)
                                           else Inl (ErrorString ''bad guid'')),
     GUID_String = string_of_bytes, CertX509Guid = replicate 16 1,
     SignatureDatabase_Bytes = (\<lambda>db. Inr (concat (map Data (concat (map Signatures db)))))\<rparr>"

definition guid_fs :: filesys where
  "guid_fs = [([''g''], File mode_0644 (bytes_of_string (''0123456789abcdef'' @ replicate 2 (CHR 0x0A))))]"

theorem GUIDFromFile_trims_witness:
  "GUIDFromFile sample_efi ''/g'' (sample_world guid_fs) =
     fromSum (DecodeGUIDString sample_efi ''0123456789abcdef'')
       (snd (os_ReadFile ''/g'' (sample_world guid_fs)))"
proof (rule GUIDFromFile_trims [where n = 2])
  show "os_ReadFile ''/g'' (sample_world guid_fs) =
      (Ok (bytes_of_string (''0123456789abcdef'' @ replicate 2 (CHR 0x0A))),
       snd (os_ReadFile ''/g'' (sample_world guid_fs)))"
    by (rule run_pair, code_simp)
qed code_simp+

end
