(* ===== verification/Run_Cmd.thy ===== *)
theory Run_Cmd
  imports Sample_World
begin

text \<open>
  Running other programs: go/pkg/run/run.go, and RunCommand of go/cmd/oci-boot/utils.go.
\<close>

section \<open>Definitions\<close>

abbreviation nl :: string where
  "nl \<equiv> [CHR 0x0A]"

record Result =
  Args :: "string list"
  Stdout :: bytes
  Stderr :: bytes
  RC :: int

text \<open>\<open>%v\<close> of a slice of strings.\<close>

definition fmt_v :: "string list \<Rightarrow> string" where
  "fmt_v xs = ''['' @ join_with '' '' xs @ '']''"

definition ends_nl :: "bytes \<Rightarrow> bool" where
  "ends_nl b \<longleftrightarrow> b \<noteq> [] \<and> last b = 10"

definition Result_String :: "Result \<Rightarrow> string" where
  "Result_String r =
     (let errEndl = (if ends_nl (Stderr r) then [] else nl);
          outEndl = (if ends_nl (Stdout r) then [] else nl)
      in ''cmd: '' @ fmt_v (Args r) @ nl @ '' rc: '' @ dec_int (RC r) @ nl @
         '' out: '' @ string_of_bytes (Stdout r) @ outEndl @ nl @
         '' err: '' @ string_of_bytes (Stderr r) @ errEndl)"

fun rc_listed :: "int \<Rightarrow> int list \<Rightarrow> bool" where
  "rc_listed rc [] = False"
| "rc_listed rc (i # is) = (if rc = i then True else rc_listed rc is)"

definition ErrorOnRCs :: "Result \<Rightarrow> int list \<Rightarrow> goerror option" where
  "ErrorOnRCs r rcOK = (if rc_listed (RC r) rcOK then None else Some (ErrorString (Result_String r)))"

definition Result_Error :: "Result \<Rightarrow> goerror option" where
  "Result_Error r = ErrorOnRCs r [0]"

text \<open>
  Capture: RC stays -1 when the program could not be run, and is the exit code (-1 for a
  death by signal) otherwise.
\<close>

definition Capture :: "programs \<Rightarrow> string list \<Rightarrow> Result io" where
  "Capture P args =
     (case args of
        [] \<Rightarrow> panicE ''index out of range [0] with length 0''
      | _ \<Rightarrow> bindE (os_exec P [] args) (\<lambda>r.
          returnE (case r of
            NotStarted e \<Rightarrow> \<lparr>Args = args, Stdout = [], Stderr = [], RC = -1\<rparr>
          | Exited c out \<Rightarrow> \<lparr>Args = args, Stdout = stream_output OutS out,
                              Stderr = stream_output ErrS out, RC = int c\<rparr>
          | Signaled s out \<Rightarrow> \<lparr>Args = args, Stdout = stream_output OutS out,
                              Stderr = stream_output ErrS out, RC = -1\<rparr>)))"

text \<open>The form every caller uses: \<open>run.Capture(args...).Error()\<close>.\<close>

definition Capture_Error :: "programs \<Rightarrow> string list \<Rightarrow> unit io" where
  "Capture_Error P args = bindE (Capture P args) (\<lambda>r.
     case Result_Error r of None \<Rightarrow> returnE () | Some e \<Rightarrow> throwE e)"

text \<open>The error of a command that ran: nil, \<open>exit status n\<close> or \<open>signal: name\<close>.\<close>

fun exit_error :: "proc_result \<Rightarrow> string option" where
  "exit_error (NotStarted e) = Some (error_text e)"
| "exit_error (Exited c out) = (if c = 0 then None else Some (''exit status '' @ dec c))"
| "exit_error (Signaled s out) = Some (''signal: '' @ s)"

fun proc_output :: "proc_result \<Rightarrow> bytes" where
  "proc_output (NotStarted e) = []"
| "proc_output (Exited c out) = combined_output out"
| "proc_output (Signaled s out) = combined_output out"

definition CombinedOutput_error :: "programs \<Rightarrow> string \<Rightarrow> string list \<Rightarrow> unit io" where
  "CombinedOutput_error P dir args =
     (case args of
        [] \<Rightarrow> panicE ''index out of range [0] with length 0''
      | _ \<Rightarrow> bindE (os_exec P dir args) (\<lambda>r.
          case exit_error r of
            None \<Rightarrow> returnE ()
          | Some err \<Rightarrow> throwE (ErrorString (join_with '' '' args @ '': '' @ err @ '': '' @
                string_of_bytes (proc_output r)))))"

definition RunCommand :: "programs \<Rightarrow> string list \<Rightarrow> unit io" where
  "RunCommand P args = CombinedOutput_error P [] args"

section \<open>Facts\<close>

lemma rc_listed_iff [simp]: "rc_listed rc is \<longleftrightarrow> rc \<in> set is"
  by (induction "is") auto

lemma Result_Error_None [simp]: "Result_Error r = None \<longleftrightarrow> RC r = 0"
  by (simp add: Result_Error_def ErrorOnRCs_def)

lemma Result_Error_Some: "Result_Error r = Some e \<longleftrightarrow> RC r \<noteq> 0 \<and> e = ErrorString (Result_String r)"
  by (auto simp: Result_Error_def ErrorOnRCs_def)

text \<open>A command line succeeded: the program ran and exited with status 0.\<close>

definition ran_ok :: "programs \<Rightarrow> string \<Rightarrow> string list \<Rightarrow> world \<Rightarrow> world \<Rightarrow> bool" where
  "ran_ok P dir args w w' \<longleftrightarrow>
     args \<noteq> [] \<and> faults w (tick w) = None \<and>
     (\<exists>out. P (if dir = [] then cwd w else dir) args (fs w) = (Exited 0 out, fs w')) \<and>
     w' = (log_event (EvExec (if dir = [] then cwd w else dir) args) (w\<lparr>tick := Suc (tick w)\<rparr>))
            \<lparr>fs := fs w'\<rparr>"

lemma ran_ok_trace:
  assumes "ran_ok P dir args w w'"
  shows "trace w' = trace w @ [EvExec (if dir = [] then cwd w else dir) args]" and "same_env w w'"
proof -
  let ?v = "log_event (EvExec (if dir = [] then cwd w else dir) args) (w\<lparr>tick := Suc (tick w)\<rparr>)"
  from assms have w': "w' = ?v\<lparr>fs := fs w'\<rparr>" by (simp only: ran_ok_def)
  then have "trace w' = trace (?v\<lparr>fs := fs w'\<rparr>)" by (rule arg_cong)
  then show "trace w' = trace w @ [EvExec (if dir = [] then cwd w else dir) args]"
    by (simp add: log_event_def)
  have "same_env w (?v\<lparr>fs := fs w'\<rparr>)" by simp
  with w' show "same_env w w'" by metis
qed

lemma exit_error_None [simp]: "exit_error r = None \<longleftrightarrow> (\<exists>out. r = Exited 0 out)"
  by (cases r) auto

lemma Capture_Error_Ok [io_ok]: "Capture_Error P args w = (Ok y, w') \<longleftrightarrow> ran_ok P [] args w w'"
  by (auto simp: Capture_Error_def Capture_def io_ok ran_ok_def os_exec_def Let_def
      split: list.splits option.splits prod.splits proc_result.splits if_splits)

lemma RunCommand_Ok [io_ok]: "RunCommand P args w = (Ok y, w') \<longleftrightarrow> ran_ok P [] args w w'"
  by (auto simp: RunCommand_def CombinedOutput_error_def io_ok ran_ok_def os_exec_def Let_def
      split: list.splits option.splits prod.splits proc_result.splits if_splits)

lemma calm_Capture_Error [respects_intros]: "io_respects (calm_rel D) (Capture_Error P args)"
  unfolding Capture_Error_def Capture_def by (intro respects_intros)

lemma noexit_Capture_Error [respects_intros]: "io_respects noexit_rel (Capture_Error P args)"
  unfolding Capture_Error_def Capture_def by (intro respects_intros)

lemma calm_RunCommand [respects_intros]: "io_respects (calm_rel D) (RunCommand P args)"
  unfolding RunCommand_def CombinedOutput_error_def by (intro respects_intros)

lemma noexit_RunCommand [respects_intros]: "io_respects noexit_rel (RunCommand P args)"
  unfolding RunCommand_def CombinedOutput_error_def by (intro respects_intros)

section \<open>What a caller learns\<close>

lemma Capture_cases:
  assumes "Capture P args w = (Ok r, w')"
  shows "args \<noteq> []" and "Run_Cmd.Args r = args"
    and "RC r = 0 \<longleftrightarrow> ran_ok P [] args w w'"
proof -
  from assms show args: "args \<noteq> []" by (auto simp: Capture_def io_ok split: list.splits)
  with assms obtain q where ex: "os_exec P [] args w = (Ok q, w')"
    and r: "r = (case q of
            NotStarted e \<Rightarrow> \<lparr>Args = args, Stdout = [], Stderr = [], RC = -1\<rparr>
          | Exited c out \<Rightarrow> \<lparr>Args = args, Stdout = stream_output OutS out,
                              Stderr = stream_output ErrS out, RC = int c\<rparr>
          | Signaled s out \<Rightarrow> \<lparr>Args = args, Stdout = stream_output OutS out,
                              Stderr = stream_output ErrS out, RC = -1\<rparr>)"
    by (cases args) (auto simp: Capture_def io_ok)
  from r show "Run_Cmd.Args r = args" by (auto split: proc_result.splits)
  from r have "RC r = 0 \<longleftrightarrow> (\<exists>out. q = Exited 0 out)" by (auto split: proc_result.splits)
  also have "\<dots> \<longleftrightarrow> ran_ok P [] args w w'"
    using ex args
    by (auto simp: os_exec_def Let_def ran_ok_def log_event_def split: option.splits prod.splits)
  finally show "RC r = 0 \<longleftrightarrow> ran_ok P [] args w w'" .
qed

text \<open>
  The error of a captured command is nil exactly when the program could be started, ran
  and exited with status 0 (a program that cannot be started and one that dies of a signal
  count as failures), and otherwise it is the printed result.
\<close>

lemma Capture_Error_nil_iff:
  assumes "Capture P args w = (Ok r, w')"
  shows "Result_Error r = (if ran_ok P [] args w w' then None else Some (ErrorString (Result_String r)))"
  using Capture_cases(3) [OF assms] by (auto simp: Result_Error_Some)

lemma Capture_Error_nil_iff_witness:
  "Result_Error \<lparr>Args = [''ls''], Stdout = [], Stderr = [], RC = 0\<rparr> =
     (if ran_ok idle_programs [] [''ls''] (sample_world sample_fs)
           (snd (Capture idle_programs [''ls''] (sample_world sample_fs)))
      then None else Some (ErrorString (Result_String
        \<lparr>Args = [''ls''], Stdout = [], Stderr = [], RC = 0\<rparr>)))"
proof (rule Capture_Error_nil_iff)
  show "Capture idle_programs [''ls''] (sample_world sample_fs) =
      (Ok \<lparr>Args = [''ls''], Stdout = [], Stderr = [], RC = 0\<rparr>,
       snd (Capture idle_programs [''ls''] (sample_world sample_fs)))"
    by (rule run_pair, code_simp)
qed

text \<open>
  The two ways the repository runs a command, \<open>run.Capture(args...).Error()\<close> of bkcust and
  RunCommand of oci-boot, agree: they succeed on the same runs and leave the same world.
\<close>

lemma RunCommand_agrees_with_Capture:
  "snd (RunCommand P args w) = snd (Capture_Error P args w) \<and>
   (fst (RunCommand P args w) = Ok () \<longleftrightarrow> fst (Capture_Error P args w) = Ok ())"
  by (auto simp: RunCommand_def CombinedOutput_error_def Capture_Error_def Capture_def bindE_def
      io_run os_exec_def Let_def Result_Error_def ErrorOnRCs_def
      split: list.splits option.splits prod.splits proc_result.splits)

end
