(* ===== verification/Obj_Update.thy ===== *)
theory Obj_Update
  imports Run_Cmd
begin

text \<open>
  go/pkg/obj/update.go: the objcopy command line that replaces the sections of a PE file.
\<close>

section \<open>Definitions\<close>

record SectionInput =
  Name :: string
  VMA :: int
  Alignment :: int
  Path :: string

text \<open>\<open>%x\<close> of an int: the sign, then the digits.\<close>

definition hex_int :: "int \<Rightarrow> string" where
  "hex_int i = (if i < 0 then ''-'' @ hex (nat (- i)) else hex (nat i))"

definition setArgs :: "SectionInput \<Rightarrow> string list" where
  "setArgs s =
     (if Path s \<noteq> [] then
        [''--remove-section='' @ Name s, ''--add-section='' @ Name s @ ''='' @ Path s]
      else []) @
     (if VMA s \<noteq> 0 then [''--change-section-vma='' @ Name s @ ''=0x'' @ hex_int (VMA s)] else []) @
     (if Alignment s \<noteq> 0 then
        [''--set-section-alignment='' @ Name s @ ''='' @ dec_int (Alignment s)] else [])"

fun append_args :: "string list \<Rightarrow> SectionInput list \<Rightarrow> string list" where
  "append_args cmd [] = cmd"
| "append_args cmd (s # ss) = append_args (cmd @ setArgs s) ss"

definition SetSections_cmd :: "string \<Rightarrow> SectionInput list \<Rightarrow> string list" where
  "SetSections_cmd objpath sections = append_args [''objcopy''] sections @ [objpath]"

definition SetSections :: "programs \<Rightarrow> string \<Rightarrow> SectionInput list \<Rightarrow> unit io" where
  "SetSections P objpath sections = Capture_Error P (SetSections_cmd objpath sections)"

section \<open>What the command line means\<close>

text \<open>
  The options of objcopy that setArgs uses, as its manual gives their form, and the reader
  of one such option.
\<close>

datatype directive =
    RemoveSection string
  | AddSection string string
  | ChangeVMA string nat
  | SetAlign string nat

definition strip_opt :: "string \<Rightarrow> string \<Rightarrow> string option" where
  "strip_opt opt arg = (if HasPrefix arg opt then Some (drop (length opt) arg) else None)"

definition split_eq :: "string \<Rightarrow> (string \<times> string) option" where
  "split_eq s = (case split_on_n 2 CHR ''='' s of [a, b] \<Rightarrow> Some (a, b) | _ \<Rightarrow> None)"

definition read_directive :: "string \<Rightarrow> directive option" where
  "read_directive arg =
     (case strip_opt ''--remove-section='' arg of
        Some n \<Rightarrow> Some (RemoveSection n)
      | None \<Rightarrow> (case strip_opt ''--add-section='' arg of
          Some r \<Rightarrow> map_option (\<lambda>(n, f). AddSection n f) (split_eq r)
        | None \<Rightarrow> (case strip_opt ''--change-section-vma='' arg of
            Some r \<Rightarrow> map_option (\<lambda>(n, v). ChangeVMA n (parse_base 16 (drop 2 v))) (split_eq r)
          | None \<Rightarrow> (case strip_opt ''--set-section-alignment='' arg of
              Some r \<Rightarrow> map_option (\<lambda>(n, v). SetAlign n (parse_base 10 v)) (split_eq r)
            | None \<Rightarrow> None))))"

definition section_directives :: "SectionInput \<Rightarrow> directive list" where
  "section_directives s =
     (if Path s \<noteq> [] then [RemoveSection (Name s), AddSection (Name s) (Path s)] else []) @
     (if VMA s \<noteq> 0 then [ChangeVMA (Name s) (nat (VMA s))] else []) @
     (if Alignment s \<noteq> 0 then [SetAlign (Name s) (nat (Alignment s))] else [])"

section \<open>Facts\<close>

lemma append_args_eq: "append_args cmd ss = cmd @ concat (map setArgs ss)"
  by (induction ss arbitrary: cmd) auto

lemma split_eq_pair: "CHR ''='' \<notin> set n \<Longrightarrow> split_eq (n @ CHR ''='' # v) = Some (n, v)"
proof -
  assume n: "CHR ''='' \<notin> set n"
  then have "takeWhile (\<lambda>x. x \<noteq> CHR ''='') (n @ CHR ''='' # v) = n"
    and "dropWhile (\<lambda>x. x \<noteq> CHR ''='') (n @ CHR ''='' # v) = CHR ''='' # v"
    by (auto simp: takeWhile_append dropWhile_append)
  then show ?thesis by (simp add: split_eq_def numeral_2_eq_2)
qed

lemma read_remove: "read_directive (''--remove-section='' @ n) = Some (RemoveSection n)"
  by (simp add: read_directive_def strip_opt_def HasPrefix_def)

lemma read_add:
  "CHR ''='' \<notin> set n \<Longrightarrow>
     read_directive (''--add-section='' @ n @ ''='' @ f) = Some (AddSection n f)"
  by (simp add: read_directive_def strip_opt_def HasPrefix_def split_eq_pair)

lemma read_vma:
  "CHR ''='' \<notin> set n \<Longrightarrow> 0 \<le> v \<Longrightarrow>
     read_directive (''--change-section-vma='' @ n @ ''=0x'' @ hex_int v) = Some (ChangeVMA n (nat v))"
  by (simp add: read_directive_def strip_opt_def HasPrefix_def split_eq_pair hex_int_def)

lemma read_align:
  "CHR ''='' \<notin> set n \<Longrightarrow> 0 \<le> v \<Longrightarrow>
     read_directive (''--set-section-alignment='' @ n @ ''='' @ dec_int v) = Some (SetAlign n (nat v))"
  by (simp add: read_directive_def strip_opt_def HasPrefix_def split_eq_pair dec_int_def)

lemmas read_simps = read_remove read_add read_vma read_align

lemma SetSections_Ok [io_ok]:
  "SetSections P f ss w = (Ok y, w') \<longleftrightarrow> ran_ok P [] (SetSections_cmd f ss) w w'"
  by (simp add: SetSections_def io_ok)

lemma calm_SetSections [respects_intros]: "io_respects (calm_rel D) (SetSections P f ss)"
  unfolding SetSections_def by (intro respects_intros)

lemma noexit_SetSections [respects_intros]: "io_respects noexit_rel (SetSections P f ss)"
  unfolding SetSections_def by (intro respects_intros)

section \<open>The command line says what was asked for\<close>

text \<open>Names as PE files have them, and the numbers the option syntax can carry.\<close>

definition section_ok :: "SectionInput \<Rightarrow> bool" where
  "section_ok s \<longleftrightarrow> CHR ''='' \<notin> set (Name s) \<and> 0 \<le> VMA s \<and> 0 \<le> Alignment s"

lemma read_setArgs:
  "section_ok s \<Longrightarrow> map read_directive (setArgs s) = map Some (section_directives s)"
  by (auto simp: setArgs_def section_directives_def section_ok_def read_simps simp del: append.simps)

text \<open>
  C27: SetSections runs objcopy on the file with a command line that means exactly the sections
  given, in their order: read back by objcopy's syntax, the options are to replace each
  section that has a path, to set each non-zero address and each non-zero alignment.
\<close>

theorem SetSections_cmd_reads_back:
  assumes "\<forall>s \<in> set sections. section_ok s"
  shows "\<exists>opts. SetSections_cmd objpath sections = ''objcopy'' # opts @ [objpath] \<and>
    map read_directive opts = map Some (concat (map section_directives sections))"
proof -
  have "map read_directive (concat (map setArgs sections)) =
      map Some (concat (map section_directives sections))"
    using assms by (induction sections) (auto simp: read_setArgs)
  then show ?thesis by (simp add: SetSections_cmd_def append_args_eq)
qed

theorem SetSections_cmd_reads_back_witness:
  "\<exists>opts. SetSections_cmd ''/s.efi'' [\<lparr>Name = ''.sbat'', VMA = 0x50000, Alignment = 512, Path = ''/f=1''\<rparr>]
       = ''objcopy'' # opts @ [''/s.efi''] \<and>
     map read_directive opts =
       map Some (concat (map section_directives
         [\<lparr>Name = ''.sbat'', VMA = 0x50000, Alignment = 512, Path = ''/f=1''\<rparr>]))"
  by (rule SetSections_cmd_reads_back) code_simp

end
