(* ===== verification/Shim.thy ===== *)
theory Shim
  imports Cert Obj_Update
begin

text \<open>
  go/pkg/shim/shim.go: the .vendor_cert section of a shim executable. The section starts
  with a table of four 32-bit words in native byte order, followed by the db and the dbx
  signature lists; sizes and offsets are 32-bit and wrap.
\<close>

section \<open>Definitions\<close>

datatype ByteOrder = LittleEndian | BigEndian

type_synonym u32 = "32 word"

record shimCertTable =
  AuthSize :: u32
  DeAuthSize :: u32
  AuthOffset :: u32
  DeAuthOffset :: u32

text \<open>encoding/binary on uint32 and on a struct of them, field by field.\<close>

definition u32_le :: "u32 \<Rightarrow> bytes" where
  "u32_le x = [ucast x, ucast (drop_bit 8 x), ucast (drop_bit 16 x), ucast (drop_bit 24 x)]"

definition put_u32 :: "ByteOrder \<Rightarrow> u32 \<Rightarrow> bytes" where
  "put_u32 ord x = (case ord of LittleEndian \<Rightarrow> u32_le x | BigEndian \<Rightarrow> rev (u32_le x))"

definition u32_of_le :: "byte \<Rightarrow> byte \<Rightarrow> byte \<Rightarrow> byte \<Rightarrow> u32" where
  "u32_of_le a b c d =
     ucast a OR push_bit 8 (ucast b) OR push_bit 16 (ucast c) OR push_bit 24 (ucast d)"

fun get_u32 :: "ByteOrder \<Rightarrow> bytes \<Rightarrow> (u32 \<times> bytes) option" where
  "get_u32 ord (a # b # c # d # rest) =
     Some (case ord of LittleEndian \<Rightarrow> u32_of_le a b c d | BigEndian \<Rightarrow> u32_of_le d c b a, rest)"
| "get_u32 ord _ = None"

definition put_table :: "ByteOrder \<Rightarrow> shimCertTable \<Rightarrow> bytes" where
  "put_table ord t = put_u32 ord (AuthSize t) @ put_u32 ord (DeAuthSize t) @
     put_u32 ord (AuthOffset t) @ put_u32 ord (DeAuthOffset t)"

definition get_table :: "ByteOrder \<Rightarrow> bytes \<Rightarrow> (shimCertTable \<times> bytes) option" where
  "get_table ord bs0 =
     Option.bind (get_u32 ord bs0) (\<lambda>(a, bs1).
     Option.bind (get_u32 ord bs1) (\<lambda>(b, bs2).
     Option.bind (get_u32 ord bs2) (\<lambda>(c, bs3).
     Option.bind (get_u32 ord bs3) (\<lambda>(d, bs4).
       Some (\<lparr>AuthSize = a, DeAuthSize = b, AuthOffset = c, DeAuthOffset = d\<rparr>, bs4)))))"

text \<open>
  init stores 0xABCD in two bytes of memory and looks at them. Memory of the machine is the
  byte order it really has.
\<close>

definition store_u16_ABCD :: "ByteOrder \<Rightarrow> bytes" where
  "store_u16_ABCD host = (case host of LittleEndian \<Rightarrow> [0xCD, 0xAB] | BigEndian \<Rightarrow> [0xAB, 0xCD])"

definition shim_init :: "bytes \<Rightarrow> ByteOrder outcome" where
  "shim_init buf =
     (if buf = [0xCD, 0xAB] then Ok LittleEndian
      else if buf = [0xAB, 0xCD] then Ok LittleEndian
      else Panic ''Could not determine native endianness.'')"

definition dbOffset :: u32 where
  "dbOffset = 16"

definition vendorDBSectionTable :: "int \<Rightarrow> int \<Rightarrow> shimCertTable" where
  "vendorDBSectionTable dbSize dbxSize =
     \<lparr>AuthSize = word_of_int dbSize, DeAuthSize = word_of_int dbxSize,
      AuthOffset = dbOffset, DeAuthOffset = word_of_int dbSize + dbOffset\<rparr>"

definition vendorDBSectionHeader :: "ByteOrder \<Rightarrow> int \<Rightarrow> int \<Rightarrow> bytes" where
  "vendorDBSectionHeader nativeEndian dbSize dbxSize =
     put_table nativeEndian (vendorDBSectionTable dbSize dbxSize)"

text \<open>\<open>%d\<close> of a byte slice.\<close>

definition fmt_bytes :: "bytes \<Rightarrow> string" where
  "fmt_bytes b = ''['' @ join_with '' '' (map (\<lambda>x. dec (unat x)) b) @ '']''"

text \<open>The writer is any io.Writer: its Write method is the argument.\<close>

definition write_all :: "(bytes \<Rightarrow> ('s, nat \<times> goerror option) gofun) \<Rightarrow> bytes list \<Rightarrow>
    ('s, unit) gofun" where
  "write_all wr bufs = forE bufs (\<lambda>b.
     bindE (wr b) (\<lambda>(n, err).
       case err of
         Some e \<Rightarrow> throwE e
       | None \<Rightarrow> if n \<noteq> length b
                 then throwE (ErrorString (''Wrote only '' @ dec n @ '' bytes of '' @ fmt_bytes b))
                 else returnE ()))"

definition VendorDBSectionWrite :: "efi_lib \<Rightarrow> ByteOrder \<Rightarrow>
    (bytes \<Rightarrow> ('s, nat \<times> goerror option) gofun) \<Rightarrow> SignatureDatabase \<Rightarrow> SignatureDatabase \<Rightarrow>
    ('s, unit) gofun" where
  "VendorDBSectionWrite E nativeEndian wr sigdb sigdbx =
     bindE (fromSum (SignatureDatabase_Bytes E sigdb)) (\<lambda>dbBuf.
     bindE (fromSum (SignatureDatabase_Bytes E sigdbx)) (\<lambda>dbxBuf.
       let header = vendorDBSectionHeader nativeEndian (int (length dbBuf)) (int (length dbxBuf)) in
       write_all wr [header, dbBuf, dbxBuf]))"

definition vendor_cert_section :: "string \<Rightarrow> SectionInput list" where
  "vendor_cert_section path =
     [\<lparr>Name = ''.vendor_cert'', VMA = 0xb4000, Alignment = 0, Path = path\<rparr>]"

definition SetVendorDB :: "programs \<Rightarrow> efi_lib \<Rightarrow> ByteOrder \<Rightarrow> string \<Rightarrow>
    SignatureDatabase \<Rightarrow> SignatureDatabase \<Rightarrow> unit io" where
  "SetVendorDB P E nativeEndian shim db dbx =
     bindE (os_CreateTemp [] ''setvendordb'') (\<lambda>fp.
     deferE (os_Remove (f_name fp))
       (bindE (catchE (VendorDBSectionWrite E nativeEndian (f_Write fp) db dbx)
                 (\<lambda>err. thenE (attemptE (f_Close fp)) (throwE err))) (\<lambda>_.
        thenE (attemptE (f_Close fp))
          (SetSections P shim (vendor_cert_section (f_name fp))))))"

section \<open>The io.Writer interface\<close>

text \<open>
  The contract of io.Writer as its documentation states it: a write that reports no error
  wrote everything, after what was there.
\<close>

locale io_writer =
  fixes wr :: "bytes \<Rightarrow> ('s, nat \<times> goerror option) gofun"
    and written :: "'s \<Rightarrow> bytes option"
  assumes write_appends:
    "wr bs s = (Ok (n, None), s') \<Longrightarrow> written s = Some b \<Longrightarrow>
       n = length bs \<and> written s' = Some (b @ bs)"
begin

lemma write_all_appends:
  "write_all wr bufs s = (Ok (), s') \<Longrightarrow> written s = Some b \<Longrightarrow>
     written s' = Some (b @ concat bufs)"
proof (induction bufs arbitrary: s b)
  case Nil
  then show ?case by (simp add: write_all_def io_ok)
next
  case (Cons x xs)
  from Cons.prems(1) obtain n t where w: "wr x s = (Ok (n, None), t)"
    and rest: "write_all wr xs t = (Ok (), s')"
    by (auto simp: write_all_def io_ok split: option.splits if_splits)
  from write_appends [OF w Cons.prems(2)] have "written t = Some (b @ x)" by simp
  from Cons.IH [OF rest this] show ?case by simp
qed

lemma section_written:
  assumes "VendorDBSectionWrite E ord wr sigdb sigdbx s = (Ok (), s')" and "written s = Some b"
  obtains db dbx where "SignatureDatabase_Bytes E sigdb = Inr db"
    and "SignatureDatabase_Bytes E sigdbx = Inr dbx"
    and "written s' = Some (b @ vendorDBSectionHeader ord (int (length db)) (int (length dbx)) @ db @ dbx)"
proof -
  from assms(1) obtain db dbx where db: "SignatureDatabase_Bytes E sigdb = Inr db"
    and dbx: "SignatureDatabase_Bytes E sigdbx = Inr dbx"
    and run: "write_all wr [vendorDBSectionHeader ord (int (length db)) (int (length dbx)), db, dbx] s
               = (Ok (), s')"
    by (auto simp: VendorDBSectionWrite_def io_ok Let_def)
  from write_all_appends [OF run assms(2)] show ?thesis using db dbx that by simp
qed

end

section \<open>Byte order and the table\<close>

lemma u32_of_le_le:
  "u32_of_le (ucast x) (ucast (drop_bit 8 x)) (ucast (drop_bit 16 x)) (ucast (drop_bit 24 x)) = x"
proof (rule bit_word_eqI)
  fix n
  assume n: "n < LENGTH(32)"
  consider "n < 8" | "8 \<le> n \<and> n < 16" | "16 \<le> n \<and> n < 24" | "24 \<le> n \<and> n < 32"
    using n by fastforce
  then show "bit (u32_of_le (ucast x) (ucast (drop_bit 8 x)) (ucast (drop_bit 16 x))
      (ucast (drop_bit 24 x))) n = bit x n"
    by cases (auto simp: u32_of_le_def bit_simps)
qed

lemma length_put_u32 [simp]: "length (put_u32 ord x) = 4"
  by (cases ord) (simp_all add: put_u32_def u32_le_def)

interpretation u32: codec "put_u32 ord" "get_u32 ord" for ord
  by unfold_locales (cases ord; simp add: put_u32_def u32_le_def u32_of_le_le)

lemma get_table_put_table: "get_table ord (put_table ord t @ rest) = Some (t, rest)"
  by (simp add: get_table_def put_table_def u32.dec_enc)

interpretation table: codec "put_table ord" "get_table ord" for ord
  by unfold_locales (rule get_table_put_table)

lemma length_put_table [simp]: "length (put_table ord t) = 16"
  by (simp add: put_table_def)

lemma length_header [simp]: "length (vendorDBSectionHeader ord m n) = 16"
  by (simp add: vendorDBSectionHeader_def)

lemma unat_dbOffset [simp]: "unat dbOffset = 16"
  by (simp add: dbOffset_def)

text \<open>What a reader of the section takes for the two lists, by the table it finds there.\<close>

definition section_part :: "bytes \<Rightarrow> u32 \<Rightarrow> u32 \<Rightarrow> bytes" where
  "section_part sec off len = take (unat len) (drop (unat off) sec)"

definition read_section :: "ByteOrder \<Rightarrow> bytes \<Rightarrow> (bytes \<times> bytes) option" where
  "read_section ord sec =
     map_option (\<lambda>(t, _). (section_part sec (AuthOffset t) (AuthSize t),
                          section_part sec (DeAuthOffset t) (DeAuthSize t))) (get_table ord sec)"

definition vendor_section :: "ByteOrder \<Rightarrow> bytes \<Rightarrow> bytes \<Rightarrow> bytes" where
  "vendor_section ord db dbx =
     vendorDBSectionHeader ord (int (length db)) (int (length dbx)) @ db @ dbx"

lemma read_vendor_section:
  "read_section ord (vendor_section ord db dbx) =
     Some (take (length db mod 2 ^ 32) (db @ dbx),
           take (length dbx mod 2 ^ 32)
             (drop ((length db + 16) mod 2 ^ 32) (vendor_section ord db dbx)))"
proof -
  let ?t = "vendorDBSectionTable (int (length db)) (int (length dbx))"
  have "get_table ord (vendor_section ord db dbx) = Some (?t, db @ dbx)"
    by (simp add: vendor_section_def vendorDBSectionHeader_def get_table_put_table)
  moreover have "unat (DeAuthOffset ?t) = (length db + 16) mod 2 ^ 32"
    by (simp add: vendorDBSectionTable_def unat_word_ariths unat_of_nat dbOffset_def mod_simps)
  moreover have "drop 16 (vendor_section ord db dbx) = db @ dbx"
    by (simp add: vendor_section_def)
  ultimately show ?thesis
    by (simp add: read_section_def section_part_def vendorDBSectionTable_def unat_of_nat)
qed

interpretation file_writer: io_writer "f_Write f"
  "\<lambda>w. case node_at (fs w) (f_key f) of Some (File m b) \<Rightarrow> if f_key f = [] then None else Some b | _ \<Rightarrow> None"
  for f
  by unfold_locales
    (auto simp: f_Write_def Let_def append_file_def put_node_def
      split: option.splits node.splits if_splits)

lemma write_all_respects:
  assumes "io_effect R" and "\<And>b. io_respects R (wr b)"
  shows "io_respects R (write_all wr bufs)"
proof -
  note rules = io_effect.respects_for [OF assms(1)] io_effect.respects_bind [OF assms(1)]
    io_effect.respects_return [OF assms(1)] io_effect.respects_throw [OF assms(1)]
  show ?thesis
    unfolding write_all_def
    by (intro rules assms(2)) (auto intro!: rules split: option.split prod.split)
qed

lemma VendorDBSectionWrite_respects:
  assumes "io_effect R" and "\<And>b. io_respects R (wr b)"
  shows "io_respects R (VendorDBSectionWrite E ord wr db dbx)"
  unfolding VendorDBSectionWrite_def Let_def
  by (intro io_effect.respects_bind [OF assms(1)] io_effect.respects_fromSum [OF assms(1)]
      write_all_respects assms)

lemma calm_SetVendorDB [respects_intros]:
  "io_respects (calm_rel D) (SetVendorDB P E ord shim db dbx)"
  unfolding SetVendorDB_def
  by (intro respects_intros VendorDBSectionWrite_respects calm.io_effect_axioms)

lemma noexit_SetVendorDB [respects_intros]:
  "io_respects noexit_rel (SetVendorDB P E ord shim db dbx)"
  unfolding SetVendorDB_def
  by (intro respects_intros VendorDBSectionWrite_respects noexit.io_effect_axioms)

section \<open>The section and its reader\<close>

text \<open>
  C22: A reader of the section that SetVendorDB makes, going by the table at its start, finds
  exactly the db and the dbx bytes, in either byte order, as long as the offsets fit in 32 bits.
\<close>

theorem vendor_section_round_trip:
  assumes "length db + 16 < 2 ^ 32" and "length dbx < 2 ^ 32"
  shows "read_section ord (vendorDBSectionHeader ord (int (length db)) (int (length dbx)) @ db @ dbx)
    = Some (db, dbx)"
proof -
  have "length db mod 2 ^ 32 = length db" "length dbx mod 2 ^ 32 = length dbx"
    and "(length db + 16) mod 2 ^ 32 = length db + 16"
    using assms by simp_all
  then show ?thesis
    using read_vendor_section [of ord db dbx] by (simp add: vendor_section_def)
qed

theorem vendor_section_round_trip_witness:
  "read_section BigEndian (vendorDBSectionHeader BigEndian 2 1 @ [1, 2] @ [3]) = Some ([1, 2], [3])"
  using vendor_section_round_trip [of "[1, 2]" "[3]" BigEndian] by simp

text \<open>
  The native byte order that the package finds out at start-up is LittleEndian on every
  machine: on a big-endian one too, where the second case of the switch was meant to choose
  BigEndian. There the header written is not the one the machine's own shim reads.
\<close>

lemma shim_init_always_little_endian:
  "shim_init (store_u16_ABCD host) = Ok LittleEndian \<and>
   read_section BigEndian (vendorDBSectionHeader LittleEndian 2 1 @ [1, 2, 3]) \<noteq> Some ([1, 2], [3])"
proof -
  have "read_section BigEndian (vendorDBSectionHeader LittleEndian 2 1 @ [1, 2, 3]) \<noteq> Some ([1, 2], [3])"
    by (simp add: vendorDBSectionHeader_def put_table_def put_u32_def u32_le_def
        vendorDBSectionTable_def dbOffset_def read_section_def get_table_def u32_of_le_def section_part_def)
  then show ?thesis by (cases host) (simp_all add: shim_init_def store_u16_ABCD_def)
qed

section \<open>SetVendorDB\<close>

lemma section_in_file:
  assumes "VendorDBSectionWrite E ord (f_Write f) sigdb sigdbx w = (Ok (), w')"
    and "node_at (fs w) (f_key f) = Some (File m [])" and "f_key f \<noteq> []"
  obtains db dbx m' where "SignatureDatabase_Bytes E sigdb = Inr db"
    and "SignatureDatabase_Bytes E sigdbx = Inr dbx"
    and "node_at (fs w') (f_key f) = Some (File m' (vendor_section ord db dbx))"
    and "only_rel (f_key f) w False w'" and "same_env w w'"
proof -
  have only: "io_respects (only_rel (f_key f)) (VendorDBSectionWrite E ord (f_Write f) sigdb sigdbx)"
    by (intro VendorDBSectionWrite_respects only.io_effect_axioms only_Write)
  have quiet: "io_respects quiet_rel (VendorDBSectionWrite E ord (f_Write f) sigdb sigdbx)"
    by (intro VendorDBSectionWrite_respects quiet.io_effect_axioms quiet_Write)
  have empty: "(case node_at (fs w) (f_key f) of
      Some (File m b) \<Rightarrow> if f_key f = [] then None else Some b | _ \<Rightarrow> None) = Some []"
    using assms(2,3) by simp
  from file_writer.section_written [OF assms(1) empty] obtain db dbx where
    b: "SignatureDatabase_Bytes E sigdb = Inr db" "SignatureDatabase_Bytes E sigdbx = Inr dbx"
    and "(case node_at (fs w') (f_key f) of
      Some (File m b) \<Rightarrow> if f_key f = [] then None else Some b | _ \<Rightarrow> None) =
      Some (vendor_section ord db dbx)"
    by (metis append_Nil vendor_section_def)
  then obtain m' where "node_at (fs w') (f_key f) = Some (File m' (vendor_section ord db dbx))"
    by (auto split: option.splits node.splits if_splits)
  with b show thesis
    using io_respectsD [OF only assms(1)] io_respectsD [OF quiet assms(1)]
    by (intro that) (auto simp: quiet_rel_def)
qed

lemma SetVendorDB_run:
  assumes "SetVendorDB P E ord shim db dbx w = (Ok (), w')"
  shows "\<exists>dbb dbxb tmp v v'.
    SignatureDatabase_Bytes E db = Inr dbb \<and> SignatureDatabase_Bytes E dbx = Inr dbxb \<and>
    node_at (fs w) (path_key w tmp) = None \<and>
    file_content v tmp = Some (vendor_section ord dbb dbxb) \<and>
    (\<forall>k. k \<noteq> path_key w tmp \<longrightarrow> node_at (fs v) k = node_at (fs w) k) \<and>
    ran_ok P [] (SetSections_cmd shim (vendor_cert_section tmp)) v v'"
proof -
  from assms obtain f u where cr: "os_CreateTemp [] ''setvendordb'' w = (Ok f, u)"
    and d: "deferE (os_Remove (f_name f))
       (bindE (catchE (VendorDBSectionWrite E ord (f_Write f) db dbx)
                 (\<lambda>err. thenE (attemptE (f_Close f)) (throwE err))) (\<lambda>_.
        thenE (attemptE (f_Close f))
          (SetSections P shim (vendor_cert_section (f_name f))))) u = (Ok (), w')"
    by (auto simp: SetVendorDB_def bindE_Ok)
  from CreateTemp_run [OF cr] have f: "f_key f = path_key w (f_name f)" "node_at (fs w) (f_key f) = None"
    "fs u = fs_put (f_key f) (File (mode_0600 AND NOT (umask w)) []) (fs w)" "same_env w u"
    by auto
  have k: "f_key f \<noteq> []" using f(2) by auto
  from d obtain x c y z where
    wr: "catchE (VendorDBSectionWrite E ord (f_Write f) db dbx)
            (\<lambda>err. thenE (attemptE (f_Close f)) (throwE err)) u = (Ok (), x)"
    and cl: "attemptE (f_Close f) x = (Ok c, y)"
    and ran: "ran_ok P [] (SetSections_cmd shim (vendor_cert_section (f_name f))) y z"
    by (auto simp: io_ok)
  from wr have wr': "VendorDBSectionWrite E ord (f_Write f) db dbx u = (Ok (), x)"
    by (auto simp: catchE_def io_ok split: prod.splits outcome.splits)
  have "node_at (fs u) (f_key f) = Some (File (mode_0600 AND NOT (umask w)) [])"
    using f(3) k by simp
  from section_in_file [OF wr' this k] obtain dbb dbxb m where
    b: "SignatureDatabase_Bytes E db = Inr dbb" "SignatureDatabase_Bytes E dbx = Inr dbxb"
    and x: "node_at (fs x) (f_key f) = Some (File m (vendor_section ord dbb dbxb))"
    "only_rel (f_key f) u False x" "same_env u x"
    by blast
  note y = attempt_Close_moved [OF cl]
  have env: "same_env w y" using f(4) x(3) y same_env_trans by (metis moved_def)
  have "node_at (fs y) (path_key y (f_name f)) = Some (File m (vendor_section ord dbb dbxb))"
    using x(1) f(1) by (simp add: moved_fs [OF y] same_env_path_key [OF env])
  then have "file_content y (f_name f) = Some (vendor_section ord dbb dbxb)"
    by (simp add: file_content_def)
  moreover have "\<forall>q. q \<noteq> path_key w (f_name f) \<longrightarrow> node_at (fs y) q = node_at (fs w) q"
    using x(2) f(1,3) by (simp add: only_rel_def moved_fs [OF y])
  ultimately show ?thesis using b f(1,2) ran by metis
qed

text \<open>
  C21: When SetVendorDB returns nil, objcopy has run on the shim and succeeded, with a command
  line that gives section .vendor_cert the content of a temporary file, and when it ran that
  file held the header followed by the two encoded databases; nothing else had been touched.
\<close>

theorem SetVendorDB_installs_section:
  assumes "SetVendorDB P E ord shim db dbx w = (Ok (), w')"
  shows "\<exists>dbb dbxb tmp v v'.
    SignatureDatabase_Bytes E db = Inr dbb \<and> SignatureDatabase_Bytes E dbx = Inr dbxb \<and>
    node_at (fs w) (path_key w tmp) = None \<and>
    file_content v tmp = Some (vendor_section ord dbb dbxb) \<and>
    (\<forall>k. k \<noteq> path_key w tmp \<longrightarrow> node_at (fs v) k = node_at (fs w) k) \<and>
    ran_ok P [] (SetSections_cmd shim (vendor_cert_section tmp)) v v'"
  using SetVendorDB_run [OF assms] .

theorem SetVendorDB_installs_section_witness:
  "\<exists>dbb dbxb tmp v v'.
    SignatureDatabase_Bytes sample_efi [\<lparr>sl_Type = [], Signatures = [\<lparr>Owner = [], Data = [7, 8]\<rparr>]\<rparr>] = Inr dbb \<and>
    SignatureDatabase_Bytes sample_efi [] = Inr dbxb \<and>
    node_at (fs (sample_world sample_fs)) (path_key (sample_world sample_fs) tmp) = None \<and>
    file_content v tmp = Some (vendor_section LittleEndian dbb dbxb) \<and>
    (\<forall>k. k \<noteq> path_key (sample_world sample_fs) tmp \<longrightarrow>
       node_at (fs v) k = node_at (fs (sample_world sample_fs)) k) \<and>
    ran_ok idle_programs [] (SetSections_cmd ''/a'' (vendor_cert_section tmp)) v v'"
proof (rule SetVendorDB_installs_section)
  show "SetVendorDB idle_programs sample_efi LittleEndian ''/a''
      [\<lparr>sl_Type = [], Signatures = [\<lparr>Owner = [], Data = [7, 8]\<rparr>]\<rparr>] [] (sample_world sample_fs) =
    (Ok (), snd (SetVendorDB idle_programs sample_efi LittleEndian ''/a''
      [\<lparr>sl_Type = [], Signatures = [\<lparr>Owner = [], Data = [7, 8]\<rparr>]\<rparr>] [] (sample_world sample_fs)))"
    by (rule run_pair, code_simp)
qed

text \<open>
  SetVendorDB leaves no temporary file behind, whichever of its calls fail and whatever
  objcopy does, and never ends the process.
\<close>

lemma cleans_up_SetVendorDB: "cleans_up (SetVendorDB P E ord shim db dbx)"
  by (intro cleans_upI calm_SetVendorDB noexit_SetVendorDB)

end
