(* ===== verification/Util.thy ===== *)
theory Util
  imports Sample_World
begin

text \<open>
  go/pkg/util/file.go and the path predicates of the two commands
  (go/cmd/bkcust/util.go, go/cmd/oci-boot/utils.go, isDir and copyFile of
  go/cmd/oci-boot/main.go).
\<close>

section \<open>Definitions\<close>

definition CopyFileContents :: "string \<Rightarrow> string \<Rightarrow> unit io" where
  "CopyFileContents src dst =
     bindE (os_Open src) (\<lambda>fin.
     deferE (f_Close fin)
       (bindE (os_Create dst) (\<lambda>fout.
        deferE (f_Close fout)
          (thenE (io_Copy fout fin) (f_Sync fout)))))"

definition IsDir :: "string \<Rightarrow> bool io" where
  "IsDir d = bindE (attemptE (os_Stat d)) (\<lambda>s.
     returnE (case s of Inl e \<Rightarrow> False | Inr i \<Rightarrow> fi_dir i))"

definition PathExists :: "string \<Rightarrow> bool io" where
  "PathExists d = bindE (attemptE (os_Stat d)) (\<lambda>s.
     returnE (case s of Inl e \<Rightarrow> \<not> os_IsNotExist e | Inr i \<Rightarrow> True))"

definition oci_PathExists :: "string \<Rightarrow> bool io" where
  "oci_PathExists d = bindE (attemptE (os_Stat d)) (\<lambda>s.
     returnE (case s of Inl e \<Rightarrow> \<not> os_IsNotExist e | Inr i \<Rightarrow> True))"

definition oci_isDir :: "string \<Rightarrow> bool io" where
  "oci_isDir fpath =
     bindE (attemptE (os_Open fpath)) (\<lambda>file.
       case file of
         Inl e \<Rightarrow> returnE False
       | Inr f \<Rightarrow> bindE (attemptE (f_Stat f)) (\<lambda>fi.
           returnE (case fi of Inl e \<Rightarrow> False | Inr i \<Rightarrow> fi_dir i)))"

definition copyFile :: "string \<Rightarrow> string \<Rightarrow> unit io" where
  "copyFile src dest =
     bindE (os_Open src) (\<lambda>fin.
     bindE (f_Stat fin) (\<lambda>info.
     deferE (f_Close fin)
       (bindE (os_OpenFile dest [O_RDWR, O_CREATE, O_TRUNC] (fi_perm info)) (\<lambda>fout.
        deferE (f_Close fout)
          (thenE (io_Copy fout fin) (returnE ()))))))"

section \<open>Effects\<close>

lemma quiet_CopyFileContents [respects_intros]: "io_respects quiet_rel (CopyFileContents a b)"
  unfolding CopyFileContents_def by (intro respects_intros)

lemma quiet_IsDir [respects_intros]: "io_respects quiet_rel (IsDir d)"
  unfolding IsDir_def by (intro respects_intros)

lemma quiet_PathExists [respects_intros]: "io_respects quiet_rel (PathExists d)"
  unfolding PathExists_def by (intro respects_intros)

lemma reads_IsDir [respects_intros]: "io_respects reads_rel (IsDir d)"
  unfolding IsDir_def by (intro respects_intros)

lemma reads_PathExists [respects_intros]: "io_respects reads_rel (PathExists d)"
  unfolding PathExists_def by (intro respects_intros)

lemma reads_oci_PathExists [respects_intros]: "io_respects reads_rel (oci_PathExists d)"
  unfolding oci_PathExists_def by (intro respects_intros)

lemma quiet_oci_PathExists [respects_intros]: "io_respects quiet_rel (oci_PathExists d)"
  unfolding oci_PathExists_def by (intro respects_intros)

lemma quiet_oci_isDir [respects_intros]: "io_respects quiet_rel (oci_isDir d)"
  unfolding oci_isDir_def by (intro respects_intros)

lemma quiet_copyFile [respects_intros]: "io_respects quiet_rel (copyFile a b)"
  unfolding copyFile_def by (intro respects_intros)

lemmas quiet_util =
  quiet_CopyFileContents quiet_IsDir quiet_PathExists quiet_oci_PathExists quiet_oci_isDir
  quiet_copyFile

lemmas calm_util [respects_intros] = quiet_util [THEN quiet_imp_calm]

lemmas noexit_util [respects_intros] = quiet_util [THEN quiet_imp_noexit]

section \<open>What copying does\<close>

text \<open>
  The run of CopyFileContents up to the copy: both files are open and the destination is
  empty. What is copied is what the source holds then.
\<close>

lemma CopyFileContents_run:
  assumes "CopyFileContents src dst w = (Ok (), w')"
    and "\<not> is_special w dst"
  obtains v m n u where "moved w v (fs_put (path_key w dst) (File m []) (fs w))"
    and "path_key w dst \<noteq> []"
    and "io_Copy (file_of w dst) (file_of w src) v = (Ok n, u)" and "moved u w' (fs u)"
proof -
  let ?ks = "path_key w src" and ?kd = "path_key w dst"
  from assms(1) obtain fin v0 where o: "os_Open src w = (Ok fin, v0)"
    and d: "deferE (f_Close fin) (bindE (os_Create dst) (\<lambda>fout.
      deferE (f_Close fout) (thenE (io_Copy fout fin) (f_Sync fout)))) v0 = (Ok (), w')"
    by (auto simp: CopyFileContents_def bindE_Ok)
  note O = Open_OkD [OF o]
  from d obtain v1 r1 where b: "bindE (os_Create dst) (\<lambda>fout.
      deferE (f_Close fout) (thenE (io_Copy fout fin) (f_Sync fout))) v0 = (Ok (), v1)"
    and c1: "f_Close fin v1 = (r1, w')"
    by (auto simp: deferE_Ok)
  from b obtain fout v2 v3 r3 n v4 where cr: "os_Create dst v0 = (Ok fout, v2)"
    and cp: "io_Copy fout fin v2 = (Ok n, v3)" and sy: "f_Sync fout v3 = (Ok (), v4)"
    and c2: "f_Close fout v4 = (r3, v1)"
    by (auto simp: io_ok)
  have dst0: "\<not> is_special v0 dst"
    using assms(2) by (simp add: is_special_iff moved_fs [OF O(2)] moved_key [OF O(2)])
  note C = Create_OkD [OF cr dst0, unfolded moved_fs [OF O(2)] moved_key [OF O(2)]]
  have fout: "fout = file_of w dst" using C(1) by (simp add: file_of_def moved_key [OF O(2)])
  from C(3) obtain m where "moved v0 v2 (fs_put ?kd (File m []) (fs w))" by blast
  with O(2) have v2: "moved w v2 (fs_put ?kd (File m []) (fs w))" by (rule moved_trans)
  have "moved v3 w' (fs v3)"
    using moved_trans [OF moved_trans [OF Sync_OkD [OF sy] Close_moved [OF c2]] Close_moved [OF c1]]
    by (simp add: moved_fs [OF Close_moved [OF c2]] moved_fs [OF Sync_OkD [OF sy]])
  with v2 C(2) cp [unfolded fout O(1)] show thesis by (rule that)
qed

text \<open>
  copyFile keeps the mode of a destination that exists, and gives a new one the source's
  permissions, less the umask.
\<close>

definition copied_mode :: "world \<Rightarrow> filemode \<Rightarrow> string \<Rightarrow> filemode" where
  "copied_mode w perm dest =
     (case node_at (fs w) (path_key w dest) of
        Some (File m c) \<Rightarrow> m | _ \<Rightarrow> perm AND NOT (umask w))"

lemma copyFile_node:
  assumes "copyFile src dest w = (Ok u, w')" and "node_at (fs w) (path_key w src) = Some (File m b)"
    and "path_key w src \<noteq> path_key w dest" and "\<not> is_special w dest"
  shows "node_at (fs w') k = (if k = path_key w dest then Some (File (copied_mode w m dest) b)
           else node_at (fs w) k)"
    and "same_env w w'" and "trace w' = trace w"
proof -
  let ?ks = "path_key w src" and ?kd = "path_key w dest"
  from assms(1) obtain fin v0 where o: "os_Open src w = (Ok fin, v0)"
    and d0: "bindE (f_Stat fin) (\<lambda>info. deferE (f_Close fin)
       (bindE (os_OpenFile dest [O_RDWR, O_CREATE, O_TRUNC] (fi_perm info)) (\<lambda>fout.
        deferE (f_Close fout) (thenE (io_Copy fout fin) (returnE ()))))) v0 = (Ok (), w')"
    by (auto simp: copyFile_def bindE_Ok)
  note O = Open_OkD [OF o]
  from d0 obtain info v1 where st: "f_Stat fin v0 = (Ok info, v1)"
    and d: "deferE (f_Close fin)
       (bindE (os_OpenFile dest [O_RDWR, O_CREATE, O_TRUNC] (fi_perm info)) (\<lambda>fout.
        deferE (f_Close fout) (thenE (io_Copy fout fin) (returnE ())))) v1 = (Ok (), w')"
    by (auto simp: bindE_Ok)
  note S = fStat_OkD [OF st]
  have v1: "moved w v1 (fs w)" using moved_trans [OF O(2) S(1)] by (simp add: moved_fs [OF O(2)])
  from S(2) assms(2) O(1) have perm: "fi_perm info = m" by (auto simp: moved_fs [OF O(2)])
  from d obtain fout v2 v3 r3 n v4 r4 where
    op: "os_OpenFile dest [O_RDWR, O_CREATE, O_TRUNC] m v1 = (Ok fout, v2)"
    and cp: "io_Copy fout fin v2 = (Ok n, v3)" and c2: "f_Close fout v3 = (r3, v4)"
    and c1: "f_Close fin v4 = (r4, w')"
    unfolding perm by (auto simp: io_ok)
  note F = OpenFile_OkD [OF op, simplified, unfolded moved_fs [OF v1] moved_key [OF v1]]
  have um: "umask v1 = umask w" using v1 by (simp add: moved_def same_env_def)
  have kd: "?kd \<noteq> []" using F(3) by (cases "?kd = []") auto
  have "moved v1 v2 (fs_put ?kd (File (copied_mode w m dest) []) (fs w))"
    using F(3) assms(4) um
    by (auto simp: is_special_iff copied_mode_def split: option.splits node.splits)
  with v1 have v2: "moved w v2 (fs_put ?kd (File (copied_mode w m dest) []) (fs w))"
    by (rule moved_trans)
  have "node_at (fs v2) (f_key fin) = Some (File m b)"
    using assms(2,3) O(1) by (simp add: moved_fs [OF v2])
  note C = Copy_OkD [OF cp this]
  have closed: "moved v3 w' (fs v3)"
    using moved_trans [OF Close_moved [OF c2] Close_moved [OF c1]]
    by (simp add: moved_fs [OF Close_moved [OF c2]])
  have key: "f_key fout = ?kd" using F(1) by (simp add: file_of_def moved_key [OF v1])
  show "node_at (fs w') k = (if k = ?kd then Some (File (copied_mode w m dest) b) else node_at (fs w) k)"
    using append_file_node [of ?kd v2 "copied_mode w m dest" "[]" b k] kd
    by (simp add: moved_fs [OF closed] moved_fs [OF C(1)] key moved_fs [OF v2])
  show "same_env w w'" "trace w' = trace w"
    using moved_trans [OF moved_trans [OF v2 C(1)] closed] by (simp_all add: moved_def)
qed

lemma CopyFileContents_node:
  assumes "CopyFileContents src dst w = (Ok (), w')" and "file_content w src = Some b"
    and "path_key w src \<noteq> path_key w dst" and "\<not> is_special w dst"
  obtains m where
    "\<And>q. node_at (fs w') q = (if q = path_key w dst then Some (File m b) else node_at (fs w) q)"
    and "same_env w w'"
proof -
  let ?ks = "path_key w src" and ?kd = "path_key w dst"
  from CopyFileContents_run [OF assms(1,4)] obtain v m n u where
    v: "moved w v (fs_put ?kd (File m []) (fs w))" and k: "?kd \<noteq> []"
    and cp: "io_Copy (file_of w dst) (file_of w src) v = (Ok n, u)" and u: "moved u w' (fs u)"
    by blast
  from assms(2) obtain m0 where "node_at (fs w) ?ks = Some (File m0 b)"
    by (auto simp: file_content_def split: option.splits node.splits)
  with assms(3) have "node_at (fs v) (f_key (file_of w src)) = Some (File m0 b)"
    by (simp add: moved_fs [OF v])
  note C = Copy_OkD [OF cp this, simplified]
  have "node_at (fs w') q = (if q = ?kd then Some (File m b) else node_at (fs w) q)" for q
    using append_file_node [of ?kd v m "[]" b q] k
    by (simp add: moved_fs [OF u] moved_fs [OF C(1)] moved_fs [OF v])
  moreover have "same_env w w'"
    using moved_trans [OF moved_trans [OF v C(1)] u] by (simp add: moved_def)
  ultimately show thesis by (rule that)
qed

text \<open>
  C40: A CopyFileContents that returns nil has copied: the destination holds exactly the bytes
  of the source, and no other file or directory is different from before.
\<close>

theorem CopyFileContents_copies:
  assumes "CopyFileContents src dst w = (Ok (), w')" and "file_content w src = Some b"
    and "path_key w src \<noteq> path_key w dst"
    and "\<not> is_special w dst"
  shows "file_content w' dst = Some b \<and>
    (\<forall>k. k \<noteq> path_key w dst \<longrightarrow> node_at (fs w') k = node_at (fs w) k)"
proof -
  from CopyFileContents_node [OF assms] obtain m where
    "\<And>q. node_at (fs w') q = (if q = path_key w dst then Some (File m b) else node_at (fs w) q)"
    and "same_env w w'"
    by blast
  then show ?thesis by (simp add: file_content_def same_env_path_key [of w w'])
qed

theorem CopyFileContents_copies_witness:
  "file_content (snd (CopyFileContents ''/a'' ''/c'' (sample_world sample_fs))) ''/c'' = Some [1, 2] \<and>
   node_at (fs (snd (CopyFileContents ''/a'' ''/c'' (sample_world sample_fs)))) [''a''] =
     Some (File mode_0644 [1, 2])"
proof -
  let ?w = "sample_world sample_fs"
  let ?w' = "snd (CopyFileContents ''/a'' ''/c'' ?w)"
  have "CopyFileContents ''/a'' ''/c'' ?w = (Ok (), ?w')" by (rule run_pair, code_simp)
  moreover have "file_content ?w ''/a'' = Some [1, 2]" and "path_key ?w ''/a'' \<noteq> path_key ?w ''/c''"
    and "\<not> is_special ?w ''/c''" by code_simp+
  ultimately have C: "file_content ?w' ''/c'' = Some [1, 2] \<and>
      (\<forall>k. k \<noteq> path_key ?w ''/c'' \<longrightarrow> node_at (fs ?w') k = node_at (fs ?w) k)"
    by (rule CopyFileContents_copies)
  have "[''a''] \<noteq> path_key ?w ''/c''" and "node_at (fs ?w) [''a''] = Some (File mode_0644 [1, 2])"
    by code_simp+
  with C show ?thesis by simp
qed

text \<open>
  Copying a file onto itself with CopyFileContents loses it: the destination is truncated
  before the source is read, so the file is empty when nil is returned.
\<close>

lemma CopyFileContents_self_empties:
  assumes "CopyFileContents src dst w = (Ok (), w')" and "path_key w src = path_key w dst"
    and "\<not> is_special w dst"
  shows "file_content w' dst = Some []"
proof -
  let ?kd = "path_key w dst"
  from CopyFileContents_run [OF assms(1,3)] obtain v m n u where
    v: "moved w v (fs_put ?kd (File m []) (fs w))" and k: "?kd \<noteq> []"
    and cp: "io_Copy (file_of w dst) (file_of w src) v = (Ok n, u)" and u: "moved u w' (fs u)"
    by blast
  have "node_at (fs v) (f_key (file_of w src)) = Some (File m [])"
    using k by (simp add: assms(2) moved_fs [OF v])
  note C = Copy_OkD [OF cp this, simplified]
  have "node_at (fs w') ?kd = Some (File m [])"
    using append_file_node [of ?kd v m "[]" "[]" ?kd] k
    by (simp add: moved_fs [OF u] moved_fs [OF C(1)] moved_fs [OF v])
  then show ?thesis
    using moved_key [OF moved_trans [OF moved_trans [OF v C(1)] u], of dst]
    by (simp add: file_content_def)
qed

lemma CopyFileContents_self_empties_witness:
  "file_content (snd (CopyFileContents ''/a'' ''/./a'' (sample_world sample_fs))) ''/./a'' = Some []"
proof (rule CopyFileContents_self_empties)
  show "CopyFileContents ''/a'' ''/./a'' (sample_world sample_fs) =
      (Ok (), snd (CopyFileContents ''/a'' ''/./a'' (sample_world sample_fs)))"
    by (rule run_pair, code_simp)
qed code_simp+

end
