(* ===== verification/Stubby.thy ===== *)
theory Stubby
  imports Util Obj_Update
begin

text \<open>
  go/pkg/stubby/stubby.go: the unified kernel image made from the stubby loader, the command
  line, the sbat data, the kernel and the initramfs.
\<close>

definition smoosh_sections :: "string \<Rightarrow> string \<Rightarrow> string \<Rightarrow> string \<Rightarrow> SectionInput list" where
  "smoosh_sections cmdlineFile sbatFile krn initrd =
     [\<lparr>Name = ''.cmdline'', VMA = 0x30000, Alignment = 0, Path = cmdlineFile\<rparr>,
      \<lparr>Name = ''.sbat'', VMA = 0x50000, Alignment = 512, Path = sbatFile\<rparr>,
      \<lparr>Name = ''.linux'', VMA = 0x2000000, Alignment = 0, Path = krn\<rparr>,
      \<lparr>Name = ''.initrd'', VMA = 0x3000000, Alignment = 0, Path = initrd\<rparr>]"

text \<open>\<open>if _, err := f.Write(b); err != nil { return err }\<close>\<close>

definition write_or_fail :: "osfile \<Rightarrow> bytes \<Rightarrow> unit io" where
  "write_or_fail f b = bindE (f_Write f b) (\<lambda>(n, err).
     case err of Some e \<Rightarrow> throwE e | None \<Rightarrow> returnE ())"

definition Smoosh :: "programs \<Rightarrow> string \<Rightarrow> string \<Rightarrow> string \<Rightarrow> string \<Rightarrow> string \<Rightarrow> string \<Rightarrow> unit io" where
  "Smoosh P stubEfi uki cmdline sbat krn initrd =
     bindE (wrapE (\<lambda>err. ErrorString (''Failed to copy '' @ stubEfi @ '' -> '' @ uki))
              (CopyFileContents stubEfi uki)) (\<lambda>_.
     bindE (os_MkdirTemp [] ''smoosh-'') (\<lambda>tmpd.
     deferE (os_RemoveAll tmpd)
       (bindE (os_CreateTemp tmpd []) (\<lambda>cmdlineFile.
        bindE (write_or_fail cmdlineFile (bytes_of_string cmdline)) (\<lambda>_.
        bindE (attemptE (f_Close cmdlineFile)) (\<lambda>_.
        bindE (os_CreateTemp tmpd []) (\<lambda>sbatFile.
        bindE (write_or_fail sbatFile (bytes_of_string sbat)) (\<lambda>_.
        bindE (attemptE (f_Close sbatFile)) (\<lambda>_.
        SetSections P uki
          (smoosh_sections (f_name cmdlineFile) (f_name sbatFile) krn initrd))))))))))"

section \<open>Effects\<close>

lemma quiet_write_or_fail [respects_intros]: "io_respects quiet_rel (write_or_fail f b)"
  unfolding write_or_fail_def by (intro respects_intros)

lemmas calm_write_or_fail [respects_intros] = quiet_write_or_fail [THEN quiet_imp_calm]

lemmas noexit_write_or_fail [respects_intros] = quiet_write_or_fail [THEN quiet_imp_noexit]

lemma calm_Smoosh [respects_intros]:
  "io_respects (calm_rel D) (Smoosh P stubEfi uki cmdline sbat krn initrd)"
  unfolding Smoosh_def by (intro respects_intros)

lemma noexit_Smoosh [respects_intros]:
  "io_respects noexit_rel (Smoosh P stubEfi uki cmdline sbat krn initrd)"
  unfolding Smoosh_def by (intro respects_intros)

section \<open>What a successful Smoosh has done\<close>

lemma write_or_fail_Ok: "write_or_fail f bs w = (Ok u, w') \<Longrightarrow> \<exists>n. f_Write f bs w = (Ok (n, None), w')"
  by (auto simp: write_or_fail_def io_ok split: option.splits)

text \<open>
  When Smoosh returns nil, objcopy has run on the output file and succeeded with the four
  sections at their addresses, and when it ran the output was a copy of the stub, and the files
  named for .cmdline and .sbat held exactly the command line and the sbat text.
\<close>

lemma Smoosh_builds_image:
  assumes "Smoosh P stubEfi uki cmdline sbat krn initrd w = (Ok (), w')"
    and "file_content w stubEfi = Some stub" and "path_key w stubEfi \<noteq> path_key w uki"
    and "\<not> is_special w uki"
  shows "\<exists>cf sf v v'.
    file_content v uki = Some stub \<and>
    file_content v cf = Some (bytes_of_string cmdline) \<and> file_content v sf = Some (bytes_of_string sbat) \<and>
    ran_ok P [] (SetSections_cmd uki (smoosh_sections cf sf krn initrd)) v v'"
proof -
  from assms(1) obtain w1 d w2 where
    cp: "CopyFileContents stubEfi uki w = (Ok (), w1)" and md: "os_MkdirTemp [] ''smoosh-'' w1 = (Ok d, w2)"
    and df: "deferE (os_RemoveAll d)
       (bindE (os_CreateTemp d []) (\<lambda>cmdlineFile.
        bindE (write_or_fail cmdlineFile (bytes_of_string cmdline)) (\<lambda>_.
        bindE (attemptE (f_Close cmdlineFile)) (\<lambda>_.
        bindE (os_CreateTemp d []) (\<lambda>sbatFile.
        bindE (write_or_fail sbatFile (bytes_of_string sbat)) (\<lambda>_.
        bindE (attemptE (f_Close sbatFile)) (\<lambda>_.
        SetSections P uki
          (smoosh_sections (f_name cmdlineFile) (f_name sbatFile) krn initrd)))))))) w2 = (Ok (), w')"
    by (auto simp: Smoosh_def bindE_Ok wrapE_Ok)
  from df obtain cf w3 w4 c w5 sf w6 w7 s w8 w9 where
    c1: "os_CreateTemp d [] w2 = (Ok cf, w3)" and c2: "write_or_fail cf (bytes_of_string cmdline) w3 = (Ok (), w4)"
    and c3: "attemptE (f_Close cf) w4 = (Ok c, w5)"
    and s1: "os_CreateTemp d [] w5 = (Ok sf, w6)" and s2: "write_or_fail sf (bytes_of_string sbat) w6 = (Ok (), w7)"
    and s3: "attemptE (f_Close sf) w7 = (Ok s, w8)"
    and ran: "ran_ok P [] (SetSections_cmd uki (smoosh_sections (f_name cf) (f_name sf) krn initrd)) w8 w9"
    by (auto simp: deferE_Ok bindE_Ok SetSections_Ok)
  from write_or_fail_Ok [OF c2] obtain n where "f_Write cf (bytes_of_string cmdline) w3 = (Ok (n, None), w4)" ..
  note C = temp_file_written [OF c1 this c3]
  from write_or_fail_Ok [OF s2] obtain n' where "f_Write sf (bytes_of_string sbat) w6 = (Ok (n', None), w7)" ..
  note S = temp_file_written [OF s1 this s3]
  from CopyFileContents_node [OF cp assms(2-4)] obtain m where
    "\<And>q. node_at (fs w1) q = (if q = path_key w uki then Some (File m stub) else node_at (fs w) q)"
    and "same_env w w1" by blast
  then have "file_content w1 uki = Some stub"
    by (simp add: file_content_def same_env_path_key [of w w1])
  with extends_fs_trans [OF temp_dir_extends [OF md] extends_fs_trans [OF C(1) S(1)]]
  have "file_content w8 uki = Some stub" by (rule extends_fs_content)
  moreover have "file_content w8 (f_name cf) = Some (bytes_of_string cmdline)"
    using S(1) C(2) by (rule extends_fs_content)
  ultimately show ?thesis using S(2) ran by blast
qed

text \<open>
  The directory with the two temporary files of Smoosh is removed on every path out of it,
  and Smoosh never ends the process.
\<close>

lemma cleans_up_Smoosh: "cleans_up (Smoosh P stubEfi uki cmdline sbat krn initrd)"
  by (intro cleans_upI calm_Smoosh noexit_Smoosh)

end
