(* ===== verification/Firmware.thy ===== *)
theory Firmware
  imports Cert Run_Cmd
begin

text \<open>
  go/pkg/firmware/ovmf.go: the secure-boot variables of an OVMF image are populated by
  running virt-fw-vars, with every certificate in a temporary PEM file.
\<close>

section \<open>Definitions\<close>

text \<open>The closure sigDataArgs; tmpd is the directory the temporary files go to.\<close>

definition sigdata_arg :: "crypto_lib \<Rightarrow> efi_lib \<Rightarrow> string \<Rightarrow> string \<Rightarrow> SignatureData \<Rightarrow> string list io" where
  "sigdata_arg C E tmpd argName sigdata =
     bindE (fromSum (x509_ParseCertificate C (Data sigdata))) (\<lambda>dcert.
     bindE (fromSum (PemFromCert dcert)) (\<lambda>buf.
     bindE (os_CreateTemp tmpd []) (\<lambda>tmpf.
     bindE (f_Write tmpf buf) (\<lambda>(n, err).
       case err of
         Some e \<Rightarrow> throwE e
       | None \<Rightarrow> bindE (attemptE (f_Close tmpf)) (\<lambda>_.
           returnE [argName, GUID_String E (Owner sigdata), f_name tmpf])))))"

definition sigDataArgs :: "crypto_lib \<Rightarrow> efi_lib \<Rightarrow> string \<Rightarrow> string \<Rightarrow> SignatureData list \<Rightarrow>
    string list io" where
  "sigDataArgs C E tmpd argName sigdatum =
     foldE (\<lambda>args sigdata. bindE (sigdata_arg C E tmpd argName sigdata) (\<lambda>a. returnE (args @ a)))
       [] sigdatum"

definition virt_fw_base :: "string \<Rightarrow> string \<Rightarrow> string list" where
  "virt_fw_base ovmfVarsIn ovmfVarsOut =
     [''virt-fw-vars'', ''--input='' @ ovmfVarsIn, ''--output='' @ ovmfVarsOut,
      ''--secure-boot'', ''--no-microsoft'']"

definition OVMFPopulateSecureBoot :: "programs \<Rightarrow> crypto_lib \<Rightarrow> efi_lib \<Rightarrow> string \<Rightarrow> string \<Rightarrow>
    SignatureData \<Rightarrow> SignatureData list \<Rightarrow> SignatureData list \<Rightarrow> SignatureData list \<Rightarrow> unit io" where
  "OVMFPopulateSecureBoot P C E ovmfVarsIn ovmfVarsOut platformKey kekData dbData mokData =
     bindE (os_MkdirTemp [] ''OVMFPopulate'') (\<lambda>tmpd.
     deferE (os_RemoveAll tmpd)
       (bindE (foldE (\<lambda>args (arg, sdl).
            bindE (wrapE (\<lambda>err. WrapError (''Failed to get sigData for '' @ arg @ '': '' @ error_text err) err)
                     (sigDataArgs C E tmpd arg sdl)) (\<lambda>nArgs. returnE (args @ nArgs)))
          (virt_fw_base ovmfVarsIn ovmfVarsOut)
          [(''--set-pk'', [platformKey]), (''--add-kek'', kekData), (''--add-db'', dbData),
           (''--add-mok'', mokData)]) (\<lambda>args.
        Capture_Error P args)))"

section \<open>Effects\<close>

lemma calm_sigdata_arg [respects_intros]:
  "d \<noteq> [] \<Longrightarrow> last d \<noteq> slash \<Longrightarrow>
     io_respects (calm_rel (\<lambda>p. D p \<or> under d p)) (sigdata_arg C E d argName sd)"
  unfolding sigdata_arg_def by (intro respects_intros)

lemma calm_sigDataArgs [respects_intros]:
  "d \<noteq> [] \<Longrightarrow> last d \<noteq> slash \<Longrightarrow>
     io_respects (calm_rel (\<lambda>p. D p \<or> under d p)) (sigDataArgs C E d argName sds)"
  unfolding sigDataArgs_def by (intro respects_intros)

lemma noexit_sigdata_arg [respects_intros]:
  "io_respects noexit_rel (sigdata_arg C E d argName sd)"
  unfolding sigdata_arg_def by (intro respects_intros)

lemma noexit_sigDataArgs [respects_intros]:
  "io_respects noexit_rel (sigDataArgs C E d argName sds)"
  unfolding sigDataArgs_def by (intro respects_intros)

lemma calm_OVMFPopulateSecureBoot [respects_intros]:
  "io_respects (calm_rel D) (OVMFPopulateSecureBoot P C E vin vout pk kek db mok)"
  unfolding OVMFPopulateSecureBoot_def by (intro respects_intros)

lemma noexit_OVMFPopulateSecureBoot [respects_intros]:
  "io_respects noexit_rel (OVMFPopulateSecureBoot P C E vin vout pk kek db mok)"
  unfolding OVMFPopulateSecureBoot_def by (intro respects_intros)

section \<open>The command line of virt-fw-vars\<close>

text \<open>
  The three words for one key: the option, the owner, and a file that holds the certificate
  as PEM in the world v.
\<close>

definition key_args :: "crypto_lib \<Rightarrow> efi_lib \<Rightarrow> world \<Rightarrow> string \<times> SignatureData \<Rightarrow> string list \<Rightarrow> bool" where
  "key_args C E v key args \<longleftrightarrow>
     (\<exists>crt pem f. x509_ParseCertificate C (Data (snd key)) = Inr crt \<and> PemFromCert crt = Inr pem \<and>
        file_content v f = Some pem \<and> args = [fst key, GUID_String E (Owner (snd key)), f])"

lemma key_args_mono: "extends_fs v v' \<Longrightarrow> key_args C E v key args \<Longrightarrow> key_args C E v' key args"
  unfolding key_args_def using extends_fs_content by blast

lemma keys_args_mono:
  "extends_fs v v' \<Longrightarrow> list_all2 (key_args C E v) keys as \<Longrightarrow> list_all2 (key_args C E v') keys as"
  by (erule list_all2_mono) (rule key_args_mono)

lemma sigdata_arg_Ok:
  assumes "sigdata_arg C E d arg sd w = (Ok args, w')"
  shows "extends_fs w w' \<and> key_args C E w' (arg, sd) args"
proof -
  from assms obtain crt pem f u n x c where
    p: "x509_ParseCertificate C (Data sd) = Inr crt" "PemFromCert crt = Inr pem"
    and cr: "os_CreateTemp d [] w = (Ok f, u)" and wr: "f_Write f pem u = (Ok (n, None), x)"
    and cl: "attemptE (f_Close f) x = (Ok c, w')"
    and args: "args = [arg, GUID_String E (Owner sd), f_name f]"
    by (auto simp: sigdata_arg_def bindE_Ok fromSum_Ok returnE_Ok throwE_Ok split: option.splits)
  from temp_file_written [OF cr wr cl] p args show ?thesis by (auto simp: key_args_def)
qed

lemma sigData_fold_Ok:
  assumes "foldE (\<lambda>args sigdata. bindE (sigdata_arg C E d arg sigdata) (\<lambda>a. returnE (args @ a))) acc sds w
             = (Ok args, w')"
  shows "extends_fs w w' \<and> (\<exists>as. args = acc @ concat as \<and> list_all2 (key_args C E w') (map (Pair arg) sds) as)"
  using assms
proof (induction sds arbitrary: acc w)
  case Nil
  then show ?case by (auto simp: io_ok extends_fs_def)
next
  case (Cons sd sds)
  from Cons.prems obtain a v where a: "sigdata_arg C E d arg sd w = (Ok a, v)"
    and rest: "foldE (\<lambda>args sigdata. bindE (sigdata_arg C E d arg sigdata) (\<lambda>a. returnE (args @ a)))
                 (acc @ a) sds v = (Ok args, w')"
    by (auto simp: bindE_Ok returnE_Ok)
  from Cons.IH [OF rest] obtain as where v: "extends_fs v w'" and as: "args = (acc @ a) @ concat as"
    "list_all2 (key_args C E w') (map (Pair arg) sds) as" by blast
  from sigdata_arg_Ok [OF a] v have "extends_fs w w'" "key_args C E w' (arg, sd) a"
    using extends_fs_trans key_args_mono by blast+
  with as show ?case by (intro conjI exI [of _ "a # as"]) auto
qed

lemma sigDataArgs_Ok:
  "sigDataArgs C E d arg sds w = (Ok args, w') \<Longrightarrow>
     extends_fs w w' \<and> (\<exists>as. args = concat as \<and> list_all2 (key_args C E w') (map (Pair arg) sds) as)"
  unfolding sigDataArgs_def by (drule sigData_fold_Ok) simp

lemma groups_fold_Ok:
  assumes "foldE (\<lambda>args (arg, sdl).
            bindE (wrapE (g arg) (sigDataArgs C E d arg sdl)) (\<lambda>nArgs. returnE (args @ nArgs)))
          acc groups w = (Ok args, w')"
  shows "extends_fs w w' \<and> (\<exists>as. args = acc @ concat as \<and>
    list_all2 (key_args C E w') (concat (map (\<lambda>(arg, sdl). map (Pair arg) sdl) groups)) as)"
  using assms
proof (induction groups arbitrary: acc w)
  case Nil
  then show ?case by (auto simp: io_ok extends_fs_def)
next
  case (Cons gr groups)
  obtain arg sdl where gr: "gr = (arg, sdl)" by (cases gr)
  from Cons.prems gr obtain a v where a: "sigDataArgs C E d arg sdl w = (Ok a, v)"
    and rest: "foldE (\<lambda>args (arg, sdl).
            bindE (wrapE (g arg) (sigDataArgs C E d arg sdl)) (\<lambda>nArgs. returnE (args @ nArgs)))
          (acc @ a) groups v = (Ok args, w')"
    by (auto simp: bindE_Ok returnE_Ok wrapE_Ok)
  from Cons.IH [OF rest] obtain as where v: "extends_fs v w'" and as: "args = (acc @ a) @ concat as"
    "list_all2 (key_args C E w') (concat (map (\<lambda>(arg, sdl). map (Pair arg) sdl) groups)) as" by blast
  from sigDataArgs_Ok [OF a] obtain bs where bs: "extends_fs w v" "a = concat bs"
    "list_all2 (key_args C E v) (map (Pair arg) sdl) bs" by blast
  from bs(3) v have "list_all2 (key_args C E w') (map (Pair arg) sdl) bs" by (rule keys_args_mono [rotated])
  with as bs(1,2) v gr show ?case
    by (intro conjI exI [of _ "bs @ as"]) (auto intro: extends_fs_trans list_all2_appendI)
qed

text \<open>
  C24: When OVMFPopulateSecureBoot returns nil, virt-fw-vars has run and succeeded with a command
  line that starts from the input file, writes the output file, enables secure boot without the
  Microsoft keys, and passes every key exactly once and in order under its own option, each
  with its owner and a file that held the certificate as PEM when the program ran.
\<close>

theorem OVMFPopulate_passes_every_key:
  assumes "OVMFPopulateSecureBoot P C E vin vout pk kek db mok w = (Ok (), w')"
  shows "\<exists>v v' as.
    ran_ok P [] ([''virt-fw-vars'', ''--input='' @ vin, ''--output='' @ vout, ''--secure-boot'',
      ''--no-microsoft''] @ concat as) v v' \<and>
    list_all2 (key_args C E v)
      ((''--set-pk'', pk) # map (Pair ''--add-kek'') kek @ map (Pair ''--add-db'') db @
       map (Pair ''--add-mok'') mok) as"
proof -
  from assms obtain d u args v v' where
    f: "foldE (\<lambda>args (arg, sdl).
            bindE (wrapE (\<lambda>err. WrapError (''Failed to get sigData for '' @ arg @ '': '' @ error_text err) err)
                     (sigDataArgs C E d arg sdl)) (\<lambda>nArgs. returnE (args @ nArgs)))
          (virt_fw_base vin vout)
          [(''--set-pk'', [pk]), (''--add-kek'', kek), (''--add-db'', db), (''--add-mok'', mok)] u = (Ok args, v)"
    and ran: "Capture_Error P args v = (Ok (), v')"
    by (auto simp only: OVMFPopulateSecureBoot_def bindE_Ok deferE_Ok)
  from groups_fold_Ok [OF f] obtain as where "args = virt_fw_base vin vout @ concat as"
    "list_all2 (key_args C E v) ((''--set-pk'', pk) # map (Pair ''--add-kek'') kek @
       map (Pair ''--add-db'') db @ map (Pair ''--add-mok'') mok) as"
    by auto
  with ran show ?thesis unfolding Capture_Error_Ok virt_fw_base_def by blast
qed

theorem OVMFPopulate_passes_every_key_witness:
  "\<exists>v v' as.
    ran_ok idle_programs [] ([''virt-fw-vars'', ''--input='' @ ''/a'', ''--output='' @ ''/o'', ''--secure-boot'',
      ''--no-microsoft''] @ concat as) v v' \<and>
    list_all2 (key_args sample_crypto sample_efi v)
      ((''--set-pk'', \<lparr>Owner = zero_guid, Data = [5]\<rparr>) # map (Pair ''--add-kek'') [] @
       map (Pair ''--add-db'') [\<lparr>Owner = zero_guid, Data = [6]\<rparr>] @ map (Pair ''--add-mok'') []) as"
proof (rule OVMFPopulate_passes_every_key)
  show "OVMFPopulateSecureBoot idle_programs sample_crypto sample_efi ''/a'' ''/o''
      \<lparr>Owner = zero_guid, Data = [5]\<rparr> [] [\<lparr>Owner = zero_guid, Data = [6]\<rparr>] [] (sample_world sample_fs) =
    (Ok (), snd (OVMFPopulateSecureBoot idle_programs sample_crypto sample_efi ''/a'' ''/o''
      \<lparr>Owner = zero_guid, Data = [5]\<rparr> [] [\<lparr>Owner = zero_guid, Data = [6]\<rparr>] [] (sample_world sample_fs)))"
    by (rule run_pair, code_simp)
qed

text \<open>
  The directory with the PEM files of OVMFPopulateSecureBoot is removed on every path out
  of it, and the function never ends the process.
\<close>

lemma cleans_up_OVMFPopulate: "cleans_up (OVMFPopulateSecureBoot P C E vin vout pk kek db mok)"
  by (intro cleans_upI calm_OVMFPopulateSecureBoot noexit_OVMFPopulateSecureBoot)

end
