(* ===== verification/Cli.thy ===== *)
theory Cli
  imports OS_Facts
begin

text \<open>
  What the programs use of urfave/cli: the context a command's Action gets, as its accessors (the
  positional arguments and the values of the flags by name), and the declarations of flags,
  commands and applications. The library itself is a parameter; conforms and dispatches state
  what its documentation promises.
\<close>

record cli_ctx =
  ctx_Args :: "string list"
  ctx_String :: "string \<Rightarrow> string"
  ctx_StringSlice :: "string \<Rightarrow> string list"
  ctx_Bool :: "string \<Rightarrow> bool"
  ctx_IsSet :: "string \<Rightarrow> bool"

text \<open>A context in which no flag was given, with every value the accessors' zero value.\<close>

definition plain_ctx :: "string list \<Rightarrow> cli_ctx" where
  "plain_ctx args =
     \<lparr>ctx_Args = args, ctx_String = (\<lambda>_. []), ctx_StringSlice = (\<lambda>_. []),
      ctx_Bool = (\<lambda>_. False), ctx_IsSet = (\<lambda>_. False)\<rparr>"

section \<open>Declarations\<close>

datatype flag =
    BoolFlag (fl_Name: string) (fl_Aliases: "string list")
  | StringFlag (fl_Name: string) (fl_Aliases: "string list") string
  | StringSliceFlag (fl_Name: string) (fl_Aliases: "string list")

datatype command =
  Command (cm_Name: string) (cm_Flags: "flag list") (cm_Subcommands: "command list")
    (cm_Action: "(cli_ctx \<Rightarrow> unit io) option")

record app =
  app_Name :: string
  app_Flags :: "flag list"
  app_Commands :: "command list"
  app_Action :: "(cli_ctx \<Rightarrow> unit io) option"

text \<open>The actions of a command and of its subcommands, each with the flags declared for it.\<close>

definition own_action :: "flag list \<Rightarrow> (cli_ctx \<Rightarrow> unit io) option \<Rightarrow>
    (flag list \<times> (cli_ctx \<Rightarrow> unit io)) list" where
  "own_action fls a = (case a of None \<Rightarrow> [] | Some f \<Rightarrow> [(fls, f)])"

fun command_actions :: "command \<Rightarrow> (flag list \<times> (cli_ctx \<Rightarrow> unit io)) list" where
  "command_actions (Command n fls subs a) =
     own_action fls a @ concat (map command_actions subs)"

definition app_actions :: "app \<Rightarrow> (flag list \<times> (cli_ctx \<Rightarrow> unit io)) list" where
  "app_actions a = own_action (app_Flags a) (app_Action a) @ concat (map command_actions (app_Commands a))"

section \<open>What the library promises\<close>

text \<open>
  A name that no declared name or alias begins with has no value: the accessors return the zero
  value of their type.
\<close>

definition undeclared :: "flag list \<Rightarrow> string \<Rightarrow> bool" where
  "undeclared fls n = list_all (\<lambda>f. list_all (\<lambda>m. \<not> HasPrefix m n) (fl_Name f # fl_Aliases f)) fls"

definition conforms :: "flag list \<Rightarrow> cli_ctx \<Rightarrow> bool" where
  "conforms fls ctx \<longleftrightarrow> (\<forall>n. undeclared fls n \<longrightarrow>
     ctx_String ctx n = [] \<and> ctx_StringSlice ctx n = [] \<and> \<not> ctx_Bool ctx n \<and> \<not> ctx_IsSet ctx n)"

text \<open>
  Run returns an error, or nil for a help text, with nothing done but some output, or it calls
  one action of the application with a context of that action's flags and returns its error.
\<close>

type_synonym cli_lib = "app \<Rightarrow> unit io"

definition dispatches :: "cli_lib \<Rightarrow> bool" where
  "dispatches run \<longleftrightarrow> (\<forall>a w.
     (\<exists>r s. run a w = (r, log_event (EvStdout s) w) \<and> returned r) \<or>
     (\<exists>fls act ctx. (fls, act) \<in> set (app_actions a) \<and> conforms fls ctx \<and> run a w = act ctx w))"

lemma conforms_plain: "conforms fls (plain_ctx args)"
  by (simp add: conforms_def plain_ctx_def)

text \<open>\<open>app.Run(os.Args)\<close> and the fatal log message, which both programs end with.\<close>

definition run_app :: "cli_lib \<Rightarrow> app \<Rightarrow> unit io" where
  "run_app run a = catchE (run a) (\<lambda>err. exitE 1)"

lemma run_app_cases:
  assumes "dispatches run" and "run_app run a w = (r, w')"
  obtains s where "w' = log_event (EvStdout s) w" and "r \<in> {Ok (), Exit 1}"
  | fls act ctx q where "(fls, act) \<in> set (app_actions a)" and "conforms fls ctx" and "act ctx w = (q, w')"
    and "r = (case q of Err e \<Rightarrow> Exit 1 | _ \<Rightarrow> q)"
proof -
  obtain q v where q: "run a w = (q, v)" by (cases "run a w")
  have r: "v = w' \<and> r = (case q of Err e \<Rightarrow> Exit 1 | _ \<Rightarrow> q)"
    using assms(2) q by (auto simp: run_app_def catchE_def exitE_def split: outcome.splits)
  from assms(1) consider r' s where "run a w = (r', log_event (EvStdout s) w)" "returned r'"
    | fls act ctx where "(fls, act) \<in> set (app_actions a)" "conforms fls ctx" "run a w = act ctx w"
    unfolding dispatches_def by metis
  then show thesis
  proof cases
    case 1
    with q r that(1) show ?thesis by (cases q) auto
  next
    case 2
    with q r that(2) show ?thesis by metis
  qed
qed

lemma run_app_ends_clean:
  assumes "dispatches run"
    and "\<And>fls act ctx. (fls, act) \<in> set (app_actions a) \<Longrightarrow> cleans_up (act ctx)"
    and "\<And>fls act ctx. (fls, act) \<in> set (app_actions a) \<Longrightarrow> returns (act ctx)"
    and "run_app run a w = (r, w')"
  shows "r \<in> {Ok (), Exit 1} \<and> (\<exists>t. trace w' = trace w @ t \<and> uncleaned t = [])"
  using assms(1,4)
proof (rule run_app_cases)
  fix fls act ctx q
  assume a: "(fls, act) \<in> set (app_actions a)" "act ctx w = (q, w')" "r = (case q of Err e \<Rightarrow> Exit 1 | _ \<Rightarrow> q)"
  have "returned q" by (rule returnsD [OF assms(3) [OF a(1)] a(2)])
  then have "r \<in> {Ok (), Exit 1}" using a(3) by (cases q) auto
  moreover have "\<exists>t. trace w' = trace w @ t \<and> uncleaned t = []"
    using assms(2) [OF a(1), of ctx] a(2) unfolding cleans_up_def by (metis snd_conv)
  ultimately show ?thesis ..
qed (auto simp: log_event_def)

end
