(* ===== verification/Bkcust.thy ===== *)
theory Bkcust
  imports Shim Stubby Firmware Util Cli
begin

text \<open>
  The commands of bkcust: shim set-db (go/cmd/bkcust/shim.go), virtfw secure-boot
  (virtfw.go), sign-efi (signefi.go) and stubby smoosh (stubby.go).
\<close>

section \<open>The guid:cert arguments\<close>

definition guidCert_dir_error :: "string \<Rightarrow> goerror \<Rightarrow> goerror" where
  "guidCert_dir_error p err = ErrorString (''guidCert arg '' @ p @ '' is a dir: '' @ error_text err)"

definition guidCert_form_error :: "string \<Rightarrow> goerror" where
  "guidCert_form_error p = ErrorString (''guidCert arg '' @ p @ '' was not uuid:path'')"

definition guidCert_uuid_error :: "string \<Rightarrow> goerror \<Rightarrow> goerror" where
  "guidCert_uuid_error tok err =
     ErrorString (''first token in guidCert '' @ [CHR 0x27] @ tok @ [CHR 0x27] @
       '' not a valild uuid: '' @ error_text err)"

definition guidCert_read_error :: "string \<Rightarrow> goerror \<Rightarrow> goerror" where
  "guidCert_read_error p err = ErrorString (''Failed reading cert from '' @ p @ '': '' @ error_text err)"

text \<open>
  One turn of the loop over the arguments, which doSetDB and readGuidCertString share word
  for word. certPath is the variable both functions set to the empty string before the loop.
\<close>

definition guidCert_arg :: "crypto_lib \<Rightarrow> efi_lib \<Rightarrow> string \<Rightarrow> string \<Rightarrow> SignatureData io" where
  "guidCert_arg C E certPath p =
     bindE (IsDir p) (\<lambda>isdir.
       if isdir then wrapE (guidCert_dir_error p) (LoadSignatureDataDir C p)
       else let toks = split_on CHR '':'' p in
         if length toks < 2 then throwE (guidCert_form_error p)
         else bindE (wrapE (guidCert_uuid_error (toks ! 0))
                       (fromSum (DecodeGUIDString E (toks ! 0)))) (\<lambda>guid.
              bindE (wrapE (guidCert_read_error p) (CertFromPemFile C certPath)) (\<lambda>cert.
                returnE \<lparr>Owner = guid, Data = Raw cert\<rparr>)))"

definition guidCert_loop :: "crypto_lib \<Rightarrow> efi_lib \<Rightarrow> string list \<Rightarrow> SignatureData list io" where
  "guidCert_loop C E guidCerts =
     foldE (\<lambda>sigDatas p. bindE (guidCert_arg C E [] p) (\<lambda>sd. returnE (sigDatas @ [sd])))
       [] guidCerts"

definition readGuidCertString :: "crypto_lib \<Rightarrow> efi_lib \<Rightarrow> string list \<Rightarrow> SignatureData list io" where
  "readGuidCertString C E guidCerts = guidCert_loop C E guidCerts"

section \<open>shim set-db\<close>

definition quoted :: "string \<Rightarrow> string" where
  "quoted s = [CHR 0x27] @ s @ [CHR 0x27]"

definition doSetDB :: "programs \<Rightarrow> crypto_lib \<Rightarrow> efi_lib \<Rightarrow> ByteOrder \<Rightarrow> cli_ctx \<Rightarrow> unit io" where
  "doSetDB P C E nativeEndian ctx =
     (let args = ctx_Args ctx in
      if length args < 1 then
        throwE (ErrorString (''Got '' @ dec (length args) @ '' args, require 1 or more''))
      else let shimEfi = args ! 0; guidCerts = drop 1 args; out = ctx_String ctx ''output'' in
        bindE (PathExists shimEfi) (\<lambda>ex.
        if \<not> ex then throwE (ErrorString (''shim '' @ quoted shimEfi @ '' does not exist''))
        else
          bindE (if out \<noteq> [] then
                   bindE (wrapE (\<lambda>err. ErrorString (''Failed to copy '' @ shimEfi @ '' -> '' @ out @
                                          '': '' @ error_text err))
                            (CopyFileContents shimEfi out)) (\<lambda>_. returnE out)
                 else returnE shimEfi) (\<lambda>shimEfi'.
          bindE (guidCert_loop C E guidCerts) (\<lambda>sigDatas.
          SetVendorDB P E nativeEndian shimEfi'
            (NewEFISignatureDatabase E sigDatas) (NewEFISignatureDatabase E [])))))"

section \<open>virtfw secure-boot\<close>

text \<open>A flag with several keys: read only when it was given.\<close>

definition read_keys :: "crypto_lib \<Rightarrow> efi_lib \<Rightarrow> string \<Rightarrow> string list \<Rightarrow> SignatureData list io" where
  "read_keys C E what strs =
     (if length strs \<noteq> 0 then
        wrapE (\<lambda>err. ErrorString (''Failed to read '' @ what @ '' key: '' @ error_text err))
          (readGuidCertString C E strs)
      else returnE [])"

definition read_platform :: "crypto_lib \<Rightarrow> efi_lib \<Rightarrow> string \<Rightarrow> SignatureData io" where
  "read_platform C E pkstr =
     (if pkstr \<noteq> [] then
        bindE (wrapE (\<lambda>err. ErrorString (''Failed to read platform key: '' @ error_text err))
                 (readGuidCertString C E [pkstr])) (\<lambda>sigdlist.
          case sigdlist of
            [] \<Rightarrow> panicE ''index out of range [0] with length 0''
          | sd # _ \<Rightarrow> returnE sd)
      else returnE \<lparr>Owner = zero_guid, Data = []\<rparr>)"

definition virtfw_body :: "programs \<Rightarrow> crypto_lib \<Rightarrow> efi_lib \<Rightarrow> cli_ctx \<Rightarrow> string \<Rightarrow> string \<Rightarrow> unit io" where
  "virtfw_body P C E ctx ovmfVarsIn ovmfVarsOut =
     bindE (read_platform C E (ctx_String ctx ''platform'')) (\<lambda>platformKey.
     bindE (read_keys C E ''kek'' (ctx_StringSlice ctx ''kek'')) (\<lambda>kekData.
     bindE (read_keys C E ''db'' (ctx_StringSlice ctx ''db'')) (\<lambda>dbData.
     bindE (read_keys C E ''mok'' (ctx_StringSlice ctx ''mok'')) (\<lambda>mokData.
     bindE (wrapE (\<lambda>err. ErrorString (''Failed to populate '' @ ovmfVarsIn @ '' from '' @
                              ovmfVarsOut @ '': '' @ error_text err))
              (OVMFPopulateSecureBoot P C E ovmfVarsIn ovmfVarsOut platformKey kekData dbData mokData))
           (\<lambda>_.
     bindE (if ctx_String ctx ''output'' = [] then
              wrapE (\<lambda>err. ErrorString (''Failed to copy tmp file '' @ ovmfVarsOut @ '' -> '' @
                              ovmfVarsIn @ '': '' @ error_text err))
                (CopyFileContents ovmfVarsOut ovmfVarsIn)
            else returnE ()) (\<lambda>_.
     os_Stderr (''Wrote to '' @ ovmfVarsOut @ nl)))))))"

definition doVirtFW :: "programs \<Rightarrow> crypto_lib \<Rightarrow> efi_lib \<Rightarrow> cli_ctx \<Rightarrow> unit io" where
  "doVirtFW P C E ctx =
     (let args = ctx_Args ctx in
      if length args \<noteq> 1 then
        throwE (ErrorString (''Got '' @ dec (length args) @ '' args, require 1''))
      else let ovmfVarsIn = args ! 0; ovmfVarsOut = ctx_String ctx ''output'' in
        if ovmfVarsOut = [] then
          bindE (wrapE (\<lambda>err. ErrorString (''Failed to create tmpfile: '' @ error_text err @ nl))
                   (os_CreateTemp [] ''doVirtFW-'')) (\<lambda>tmpf.
          deferE (os_Remove (f_name tmpf))
            (bindE (attemptE (f_Close tmpf)) (\<lambda>_.
             virtfw_body P C E ctx ovmfVarsIn (f_name tmpf))))
        else virtfw_body P C E ctx ovmfVarsIn ovmfVarsOut)"

section \<open>sign-efi\<close>

text \<open>The signing functions of go-uefi's package pecoff.\<close>

record ('c, 'g) pecoff_lib =
  PECOFFChecksum :: "bytes \<Rightarrow> 'c"
  CreateSignature :: "'c \<Rightarrow> certificate \<Rightarrow> bytes \<Rightarrow> goerror + 'g"
  AppendToBinary :: "'c \<Rightarrow> 'g \<Rightarrow> goerror + bytes"

text \<open>
  The mode argument is the code's literal 0x755, hexadecimal; os.WriteFile passes only its
  nine permission bits on.
\<close>

definition sign_mode :: filemode where
  "sign_mode = 0x755"

definition perm_bits :: "filemode \<Rightarrow> filemode" where
  "perm_bits m = m AND 0x1FF"

definition doSignEfi :: "('c, 'g) pecoff_lib \<Rightarrow> crypto_lib \<Rightarrow> cli_ctx \<Rightarrow> unit io" where
  "doSignEfi L C ctx =
     (let args = ctx_Args ctx in
      if length args \<noteq> 3 then
        throwE (ErrorString (''Got '' @ dec (length args) @ '' args, expected 3''))
      else
        let efiFile = args ! 0; certFile = args ! 1; keyFile = args ! 2;
            out = (if ctx_String ctx ''output'' = [] then efiFile else ctx_String ctx ''output'') in
        bindE (wrapE (\<lambda>err. ErrorString (''failed reading private key from '' @ keyFile @ '': '' @
                                error_text err)) (KeyFromPemFile C keyFile)) (\<lambda>signPKey.
        bindE (wrapE (\<lambda>err. ErrorString (''failed reading cert from '' @ certFile @ '': '' @
                                error_text err)) (CertFromPemFile C certFile)) (\<lambda>signCert.
        bindE (wrapE (\<lambda>err. ErrorString (''Failed reading efi '' @ quoted efiFile @ '': '' @
                                error_text err)) (os_ReadFile efiFile)) (\<lambda>peFile.
        let pctx = PECOFFChecksum L peFile in
        bindE (wrapE (\<lambda>err. ErrorString (''Failed createsig:'' @ error_text err))
                 (fromSum (CreateSignature L pctx signCert signPKey))) (\<lambda>sig.
        bindE (wrapE (\<lambda>err. ErrorString (''Failed append :'' @ error_text err))
                 (fromSum (AppendToBinary L pctx sig))) (\<lambda>signedBin.
        os_WriteFile out signedBin (perm_bits sign_mode)))))))"

section \<open>stubby smoosh\<close>

definition sbatBuiltIn :: string where
  "sbatBuiltIn =
     ''sbat,1,SBAT Version,sbat,1,https://github.com/rhboot/shim/blob/main/SBAT.md'' @ nl @
     ''stubby.puzzleos,2,PuzzleOS,stubby,1,https://github.com/puzzleos/stubby'' @ nl @
     ''linux.puzzleos,1,PuzzleOS,linux,1,NOURL''"

definition doStubbySmoosh :: "programs \<Rightarrow> cli_ctx \<Rightarrow> unit io" where
  "doStubbySmoosh P ctx =
     (let args = ctx_Args ctx in
      if length args \<noteq> 4 then
        throwE (ErrorString (''Got '' @ dec (length args) @ '' args, require 4''))
      else
        let out = args ! 0; stubEfi = args ! 1; krn = args ! 2; initrd = args ! 3 in
        bindE (if ctx_String ctx ''sbat'' \<noteq> [] then
                 bindE (os_ReadFile (ctx_String ctx ''sbat'')) (\<lambda>content. returnE (string_of_bytes content))
               else returnE sbatBuiltIn) (\<lambda>sbat.
        bindE (Smoosh P stubEfi out (ctx_String ctx ''cmdline'') sbat krn initrd) (\<lambda>_.
        os_Stderr (''Wrote to '' @ out @ nl))))"

section \<open>Effects\<close>

lemma quiet_guidCert_arg [respects_intros]: "io_respects quiet_rel (guidCert_arg C E cp p)"
  unfolding guidCert_arg_def Let_def by (intro respects_intros)

lemma quiet_guidCert_loop [respects_intros]: "io_respects quiet_rel (guidCert_loop C E ps)"
  unfolding guidCert_loop_def by (intro respects_intros)

lemma quiet_read_keys [respects_intros]: "io_respects quiet_rel (read_keys C E what strs)"
  unfolding read_keys_def readGuidCertString_def by (intro respects_intros)

lemma quiet_read_platform [respects_intros]: "io_respects quiet_rel (read_platform C E pk)"
  unfolding read_platform_def readGuidCertString_def by (intro respects_intros)

lemmas quiet_bkcust =
  quiet_guidCert_arg quiet_guidCert_loop quiet_read_keys quiet_read_platform

lemmas calm_bkcust [respects_intros] = quiet_bkcust [THEN quiet_imp_calm]

lemmas noexit_bkcust [respects_intros] = quiet_bkcust [THEN quiet_imp_noexit]

lemma calm_doSetDB: "io_respects (calm_rel D) (doSetDB P C E ord ctx)"
  unfolding doSetDB_def Let_def by (intro respects_intros)

lemma noexit_doSetDB: "io_respects noexit_rel (doSetDB P C E ord ctx)"
  unfolding doSetDB_def Let_def by (intro respects_intros)

lemma calm_virtfw_body [respects_intros]:
  "io_respects (calm_rel D) (virtfw_body P C E ctx vin vout)"
  unfolding virtfw_body_def by (intro respects_intros)

lemma noexit_virtfw_body [respects_intros]:
  "io_respects noexit_rel (virtfw_body P C E ctx vin vout)"
  unfolding virtfw_body_def by (intro respects_intros)

section \<open>The guid:cert arguments\<close>

lemma reads_guidCert_arg [respects_intros]: "io_respects reads_rel (guidCert_arg C E cp p)"
  unfolding guidCert_arg_def Let_def by (intro respects_intros)

definition is_directory :: "world \<Rightarrow> string \<Rightarrow> bool" where
  "is_directory w p = (case find_node w p of Inr (Dir m) \<Rightarrow> True | _ \<Rightarrow> False)"

lemma find_node_moved: "moved w v (fs w) \<Longrightarrow> find_node v p = find_node w p"
  by (simp add: find_node_def moved_fs moved_key)

lemma IsDir_True: "IsDir p w = (Ok True, w') \<Longrightarrow> is_directory w p"
proof -
  assume "IsDir p w = (Ok True, w')"
  then obtain r v where "attemptE (os_Stat p) w = (Ok r, v)"
    and "case r of Inl e \<Rightarrow> False | Inr i \<Rightarrow> fi_dir i"
    by (auto simp: IsDir_def bindE_Ok returnE_Ok)
  then obtain i where "os_Stat p w = (Ok i, v)" "fi_dir i"
    by (cases r) (auto simp: attemptE_Ok)
  then obtain n where "find_node w p = Inr n" "i = node_info n" "fi_dir i"
    by (auto simp: os_Stat_def sys_Ok split: sum.splits)
  then show ?thesis by (cases n) (auto simp: is_directory_def)
qed

lemma guidCert_arg_Ok:
  assumes "guidCert_arg C E [] p w = (Ok sd, w')"
  shows "is_directory w p \<and> (\<exists>v crt. moved w v (fs w) \<and>
    CertFromPemFile C (path_Join [p, ''cert.pem'']) v = (Ok crt, w') \<and>
    sd = \<lparr>Owner = zero_guid, Data = Raw crt\<rparr>)"
proof -
  from assms obtain b v where d: "IsDir p w = (Ok b, v)"
    and rest: "(if b then wrapE (guidCert_dir_error p) (LoadSignatureDataDir C p)
       else let toks = split_on CHR '':'' p in
         if length toks < 2 then throwE (guidCert_form_error p)
         else bindE (wrapE (guidCert_uuid_error (toks ! 0)) (fromSum (DecodeGUIDString E (toks ! 0)))) (\<lambda>guid.
              bindE (wrapE (guidCert_read_error p) (CertFromPemFile C [])) (\<lambda>cert.
                returnE \<lparr>Owner = guid, Data = Raw cert\<rparr>))) v = (Ok sd, w')"
    by (auto simp: guidCert_arg_def bindE_Ok)
  show ?thesis
  proof (cases b)
    case True
    with rest have "LoadSignatureDataDir C p v = (Ok sd, w')" by (simp add: wrapE_Ok)
    from LoadSignatureDataDir_Ok [OF this] obtain crt where
      "CertFromPemFile C (path_Join [p, ''cert.pem'']) v = (Ok crt, w')"
      "sd = \<lparr>Owner = zero_guid, Data = Raw crt\<rparr>" by blast
    moreover have "moved w v (fs w)" by (rule reads_moved [OF reads_IsDir d])
    moreover have "is_directory w p" using d True by (auto intro: IsDir_True)
    ultimately show ?thesis by blast
  next
    case False
    with rest obtain u crt where "CertFromPemFile C [] u = (Ok crt, w')"
      by (auto simp: Let_def io_ok split: if_splits)
    with CertFromPemFile_empty [of C u] show ?thesis by auto
  qed
qed

lemma guidCert_fold_Ok:
  assumes "foldE (\<lambda>sds p. bindE (guidCert_arg C E [] p) (\<lambda>sd. returnE (sds @ [sd]))) acc ps w = (Ok sds, w')"
  shows "\<exists>new. sds = acc @ new \<and> moved w w' (fs w) \<and>
    list_all2 (\<lambda>p sd. is_directory w p \<and> Owner sd = zero_guid) ps new"
  using assms
proof (induction ps arbitrary: acc w)
  case Nil
  then show ?case by (auto simp: io_ok moved_def)
next
  case (Cons p ps)
  from Cons.prems obtain sd v where a: "guidCert_arg C E [] p w = (Ok sd, v)"
    and rest: "foldE (\<lambda>sds p. bindE (guidCert_arg C E [] p) (\<lambda>sd. returnE (sds @ [sd]))) (acc @ [sd]) ps v
                 = (Ok sds, w')"
    by (auto simp: io_ok)
  have v: "moved w v (fs w)" by (rule reads_moved [OF reads_guidCert_arg a])
  from Cons.IH [OF rest] obtain new where "sds = (acc @ [sd]) @ new" "moved v w' (fs v)"
    "list_all2 (\<lambda>p sd. is_directory v p \<and> Owner sd = zero_guid) ps new" by blast
  moreover from guidCert_arg_Ok [OF a] have "is_directory w p" "Owner sd = zero_guid" by auto
  moreover have "is_directory v q = is_directory w q" for q
    by (simp add: is_directory_def find_node_moved [OF v])
  ultimately show ?case
    by (intro exI [of _ "sd # new"]) (auto simp: moved_fs [OF v] intro: moved_trans [OF v])
qed



section \<open>shim set-db\<close>



section \<open>virtfw secure-boot\<close>

text \<open>
  The flag --platform is not optional: without it the platform key is a signature with no
  data, which OVMFPopulateSecureBoot parses as a certificate first, so \<open>virtfw secure-boot\<close>
  fails whatever the other keys are, as long as the empty string is no certificate.
\<close>

lemma doVirtFW_needs_platform_key:
  assumes "ctx_String ctx ''platform'' = []" and "x509_ParseCertificate C [] = Inl err"
  shows "fst (doVirtFW P C E ctx w) \<noteq> Ok ()"
proof -
  have pk: "fst (sigDataArgs C E d arg [\<lparr>Owner = zero_guid, Data = []\<rparr>] v) \<noteq> Ok args" for d arg v args
    by (simp add: sigDataArgs_def sigdata_arg_def assms(2) io_run)
  have ovmf: "OVMFPopulateSecureBoot P C E vin vout \<lparr>Owner = zero_guid, Data = []\<rparr> kek db mok v \<noteq> (Ok (), v')"
    for vin vout kek db mok v v'
  proof
    assume "OVMFPopulateSecureBoot P C E vin vout \<lparr>Owner = zero_guid, Data = []\<rparr> kek db mok v = (Ok (), v')"
    then obtain d u args u' where
      "sigDataArgs C E d ''--set-pk'' [\<lparr>Owner = zero_guid, Data = []\<rparr>] u = (Ok args, u')"
      by (auto simp: OVMFPopulateSecureBoot_def bindE_Ok deferE_Ok wrapE_Ok)
    with pk [of d "''--set-pk''" u args] show False by simp
  qed
  have "virtfw_body P C E ctx vin vout v \<noteq> (Ok (), v')" for vin vout v v'
    using ovmf assms(1) by (auto simp: virtfw_body_def read_platform_def bindE_Ok wrapE_Ok returnE_Ok)
  then have "doVirtFW P C E ctx w \<noteq> (Ok (), w')" for w'
    by (auto simp: doVirtFW_def Let_def bindE_Ok deferE_Ok wrapE_Ok throwE_Ok split: if_splits)
  then show ?thesis by (metis prod.collapse)
qed

lemma doVirtFW_needs_platform_key_witness:
  "fst (doVirtFW idle_programs sample_crypto sample_efi (plain_ctx [''/a'']) (sample_world keys_fs)) \<noteq> Ok ()"
  by (rule doVirtFW_needs_platform_key) code_simp+

text \<open>
  \<open>virtfw secure-boot\<close> leaves no temporary file or directory behind, whichever calls and
  programs fail, and never ends the process by itself.
\<close>

lemma cleans_up_doVirtFW: "cleans_up (doVirtFW P C E ctx)"
proof -
  have tmp: "io_respects (calm_rel (\<lambda>_. False))
      (bindE (wrapE g (os_CreateTemp [] ''doVirtFW-'')) (\<lambda>tmpf.
        deferE (os_Remove (f_name tmpf)) (bindE (attemptE (f_Close tmpf)) (\<lambda>_.
          virtfw_body P C E ctx vin (f_name tmpf)))))" for g vin
    by (rule respects_bind_wrap) (intro respects_intros)
  have "io_respects (calm_rel (\<lambda>_. False)) (doVirtFW P C E ctx)"
    unfolding doVirtFW_def Let_def
    by (intro calm.respects_if calm.respects_throw tmp calm_virtfw_body)
  moreover have "io_respects noexit_rel (doVirtFW P C E ctx)"
    unfolding doVirtFW_def Let_def by (intro respects_intros)
  ultimately show ?thesis by (rule cleans_upI)
qed

section \<open>sign-efi\<close>

lemma file_content_moved: "moved w v (fs w) \<Longrightarrow> file_content v p = file_content w p"
  by (simp add: file_content_def moved_fs moved_key)

definition sign_output :: "cli_ctx \<Rightarrow> string" where
  "sign_output ctx = (if ctx_String ctx ''output'' = [] then ctx_Args ctx ! 0 else ctx_String ctx ''output'')"

lemma doSignEfi_steps:
  assumes "doSignEfi L C ctx w = (r, w')"
  shows "fs w' = fs w \<and> \<not> is_Ok r \<or>
    (\<exists>key crt pe sig signed u1 u2 v.
       KeyFromPemFile C (ctx_Args ctx ! 2) w = (Ok key, u1) \<and>
       CertFromPemFile C (ctx_Args ctx ! 1) u1 = (Ok crt, u2) \<and>
       os_ReadFile (ctx_Args ctx ! 0) u2 = (Ok pe, v) \<and> fs v = fs w \<and>
       CreateSignature L (PECOFFChecksum L pe) crt key = Inr sig \<and>
       AppendToBinary L (PECOFFChecksum L pe) sig = Inr signed \<and>
       os_WriteFile (sign_output ctx) signed (perm_bits sign_mode) v = (r, w'))"
proof -
  obtain rk u1 where k: "KeyFromPemFile C (ctx_Args ctx ! 2) w = (rk, u1)" by fastforce
  obtain rc u2 where c: "CertFromPemFile C (ctx_Args ctx ! 1) u1 = (rc, u2)" by fastforce
  obtain rp v where p: "os_ReadFile (ctx_Args ctx ! 0) u2 = (rp, v)" by fastforce
  have "fs u1 = fs w" by (rule moved_fs [OF reads_moved [OF reads_KeyFromPemFile k]])
  moreover have "fs u2 = fs u1" by (rule moved_fs [OF reads_moved [OF reads_CertFromPemFile c]])
  moreover have "fs v = fs u2" by (rule moved_fs [OF reads_moved [OF reads_ReadFile p]])
  ultimately show ?thesis
    using assms [unfolded doSignEfi_def Let_def] k c p
    by (cases "length (ctx_Args ctx) = 3"; cases rk; cases rc; cases rp)
      (auto simp: bindE_def wrapE_def catchE_def io_run fromSum_def sign_output_def split: sum.splits)
qed

text \<open>
  \<open>sign-efi\<close> writes nothing before it has the signed image: either every file is as it was
  and the command failed, or both signing steps succeeded on the files read and the rest of the
  run is writing the signed image to the output.
\<close>

lemma doSignEfi_writes_only_signed:
  "fs (snd (doSignEfi L C ctx w)) = fs w \<and> fst (doSignEfi L C ctx w) \<noteq> Ok () \<or>
   (\<exists>key crt pe sig signed v. fs v = fs w \<and>
      CreateSignature L (PECOFFChecksum L pe) crt key = Inr sig \<and>
      AppendToBinary L (PECOFFChecksum L pe) sig = Inr signed \<and>
      doSignEfi L C ctx w = os_WriteFile (sign_output ctx) signed (perm_bits sign_mode) v)"
proof -
  obtain r w' where run: "doSignEfi L C ctx w = (r, w')" by fastforce
  from doSignEfi_steps [OF run] show ?thesis
    unfolding run fst_conv snd_conv by (elim disjE) (force, metis)
qed

text \<open>
  C28: When \<open>sign-efi\<close> returns nil, the output file holds the executable signed with the RSA key and
  the certificate of the two files, and nothing else changed. A new output file gets the mode
  0525 less the umask: the literal 0x755 in the source is hexadecimal.
\<close>

theorem doSignEfi_signs:
  assumes "doSignEfi L C ctx w = (Ok (), w')" and "ctx_Args ctx = [efi, crtf, keyf]"
    and "file_content w efi = Some pe" and "file_content w crtf = Some cb" and "file_content w keyf = Some kb"
    and "\<not> is_special w (sign_output ctx)"
  shows "\<exists>key crt sig signed. KeyFromPem C kb = Inr key \<and> CertFromPem C cb = Inr crt \<and>
    CreateSignature L (PECOFFChecksum L pe) crt key = Inr sig \<and>
    AppendToBinary L (PECOFFChecksum L pe) sig = Inr signed \<and>
    file_content w' (sign_output ctx) = Some signed \<and>
    (\<forall>k. k \<noteq> path_key w (sign_output ctx) \<longrightarrow> node_at (fs w') k = node_at (fs w) k) \<and>
    (node_at (fs w) (path_key w (sign_output ctx)) = None \<longrightarrow>
       node_at (fs w') (path_key w (sign_output ctx)) = Some (File (0x155 AND NOT (umask w)) signed))"
proof -
  from doSignEfi_steps [OF assms(1)] assms(2) obtain key crt pe' sig signed u1 u2 v where
    k: "KeyFromPemFile C keyf w = (Ok key, u1)" and c: "CertFromPemFile C crtf u1 = (Ok crt, u2)"
    and p: "os_ReadFile efi u2 = (Ok pe', v)"
    and s: "CreateSignature L (PECOFFChecksum L pe') crt key = Inr sig"
      "AppendToBinary L (PECOFFChecksum L pe') sig = Inr signed"
    and wr: "os_WriteFile (sign_output ctx) signed (perm_bits sign_mode) v = (Ok (), w')"
    by auto
  have m1: "moved w u1 (fs w)" by (rule reads_moved [OF reads_KeyFromPemFile k])
  have m2: "moved w u2 (fs w)"
    using moved_trans [OF m1 reads_moved [OF reads_CertFromPemFile c]] by (simp add: moved_fs [OF m1])
  have m3: "moved w v (fs w)"
    using moved_trans [OF m2 reads_moved [OF reads_ReadFile p]] by (simp add: moved_fs [OF m2])
  have "KeyFromPem C kb = Inr key"
    using k assms(5) by (auto simp: KeyFromPemFile_def bindE_Ok fromSum_Ok dest: ReadFile_OkD(1))
  moreover have "CertFromPem C cb = Inr crt"
    using c assms(4) file_content_moved [OF m1, of crtf]
    by (auto simp: CertFromPemFile_def bindE_Ok fromSum_Ok dest: ReadFile_OkD(1))
  moreover have "pe' = pe"
    using ReadFile_OkD(1) [OF p] assms(3) file_content_moved [OF m2] by simp
  moreover have ns: "\<not> is_special v (sign_output ctx)"
    using assms(6) by (simp add: is_special_def moved_fs [OF m3] moved_key [OF m3])
  moreover have "umask v = umask w" using m3 by (simp add: moved_def same_env_def)
  moreover have "perm_bits sign_mode = 0x155" by (simp add: perm_bits_def sign_mode_def)
  moreover note WriteFile_OkD [OF wr ns, unfolded moved_fs [OF m3] moved_key [OF m3]]
  ultimately show ?thesis using s by auto
qed

definition sample_signer :: "(bytes, bytes) pecoff_lib" where
  "sample_signer = \<lparr>PECOFFChecksum = (\<lambda>b. b), CreateSignature = (\<lambda>c crt k. Inr (Raw crt @ k)),
     AppendToBinary = (\<lambda>c s. Inr (c @ s))\<rparr>"

definition sign_ctx :: cli_ctx where
  "sign_ctx = (plain_ctx [''/e'', ''/k/cert.pem'', ''/k/key.pem''])\<lparr>ctx_String := (\<lambda>n. if n = ''output'' then ''/n'' else [])\<rparr>"

theorem doSignEfi_signs_witness:
  "\<exists>key crt sig signed. KeyFromPem sample_crypto (pem_of [1, 2]) = Inr key \<and>
    CertFromPem sample_crypto (pem_of [9, 8]) = Inr crt \<and>
    CreateSignature sample_signer (PECOFFChecksum sample_signer [1, 2]) crt key = Inr sig \<and>
    AppendToBinary sample_signer (PECOFFChecksum sample_signer [1, 2]) sig = Inr signed \<and>
    file_content (snd (doSignEfi sample_signer sample_crypto sign_ctx (sample_world keys_fs))) (sign_output sign_ctx)
      = Some signed \<and>
    (\<forall>k. k \<noteq> path_key (sample_world keys_fs) (sign_output sign_ctx) \<longrightarrow>
       node_at (fs (snd (doSignEfi sample_signer sample_crypto sign_ctx (sample_world keys_fs)))) k =
       node_at (fs (sample_world keys_fs)) k) \<and>
    (node_at (fs (sample_world keys_fs)) (path_key (sample_world keys_fs) (sign_output sign_ctx)) = None \<longrightarrow>
       node_at (fs (snd (doSignEfi sample_signer sample_crypto sign_ctx (sample_world keys_fs))))
         (path_key (sample_world keys_fs) (sign_output sign_ctx)) =
       Some (File (0x155 AND NOT (umask (sample_world keys_fs))) signed))"
proof (rule doSignEfi_signs)
  show "doSignEfi sample_signer sample_crypto sign_ctx (sample_world keys_fs) =
    (Ok (), snd (doSignEfi sample_signer sample_crypto sign_ctx (sample_world keys_fs)))"
    by (rule run_pair, code_simp)
  show "ctx_Args sign_ctx = [''/e'', ''/k/cert.pem'', ''/k/key.pem'']" by (simp add: sign_ctx_def plain_ctx_def)
qed code_simp+

end
