(* ===== verification/Initrd.thy ===== *)
theory Initrd
  imports Run_Cmd Cli
begin

text \<open>
  go/pkg/initrd/initrd.go, the cpio readers and their compression, and
  go/cmd/bkcust/initrd.go, the command \<open>initrd join\<close>.
\<close>

section \<open>go/pkg/initrd\<close>

datatype Compression = Undetermined | Identity | Gzip

record CpioFileReader =
  r_path :: string
  r_reader :: "osfile option"
  r_comp :: Compression
  r_unused :: bytes

text \<open>
  The values behind the interface CpioReader: a file, or a deduplicating reader over other
  readers with the set of names seen.
\<close>

datatype CpioReader =
    FileReader CpioFileReader
  | DedupedReader "CpioReader list" "string list"

fun CpioFileReader_SetCompression :: "Compression \<Rightarrow> CpioFileReader \<Rightarrow> goerror option \<times> CpioFileReader" where
  "CpioFileReader_SetCompression c r = (Some (ErrorString ''Implement me please''), r\<lparr>r_comp := c\<rparr>)"

text \<open>SetCompression changes the readers in place, in order, until one reports an error.\<close>

fun SetCompression :: "Compression \<Rightarrow> CpioReader \<Rightarrow> goerror option \<times> CpioReader"
  and SetCompression_all :: "Compression \<Rightarrow> CpioReader list \<Rightarrow> goerror option \<times> CpioReader list" where
  "SetCompression c (FileReader r) =
     (case CpioFileReader_SetCompression c r of (e, r') \<Rightarrow> (e, FileReader r'))"
| "SetCompression c (DedupedReader rs seen) =
     (case SetCompression_all c rs of (e, rs') \<Rightarrow> (e, DedupedReader rs' seen))"
| "SetCompression_all c [] = (None, [])"
| "SetCompression_all c (r # rs) =
     (case SetCompression c r of
        (Some e, r') \<Rightarrow> (Some e, r' # rs)
      | (None, r') \<Rightarrow> (case SetCompression_all c rs of (e, rs') \<Rightarrow> (e, r' # rs')))"

text \<open>
  Compression: the loop keeps the compression of the reader before (prev, the code's last); i is the index.
\<close>

fun CompressionOf :: "CpioReader \<Rightarrow> Compression"
  and compression_loop :: "nat \<Rightarrow> Compression \<Rightarrow> CpioReader list \<Rightarrow> Compression" where
  "CompressionOf (FileReader r) = r_comp r"
| "CompressionOf (DedupedReader rs seen) = compression_loop 0 Undetermined rs"
| "compression_loop i prev [] = prev"
| "compression_loop i prev (r # rs) =
     (let cur = CompressionOf r;
          prev' = (if i = 0 then cur else prev) in
      if cur \<noteq> prev' then Identity else compression_loop (Suc i) cur rs)"

fun Reader_Read :: "CpioReader \<Rightarrow> nat \<times> goerror option" where
  "Reader_Read (FileReader r) = (0, Some (ErrorString ''implement me please''))"
| "Reader_Read (DedupedReader rs seen) = (0, None)"

definition NewDedupedReader :: "CpioReader list \<Rightarrow> CpioReader" where
  "NewDedupedReader readers = DedupedReader readers []"

definition NewCpioFileReader :: "string \<Rightarrow> CpioFileReader io" where
  "NewCpioFileReader path =
     (let r = \<lparr>r_path = path, r_reader = None, r_comp = Undetermined, r_unused = []\<rparr> in
      bindE (attemptE (os_Open path)) (\<lambda>fp.
        case fp of
          Inl err \<Rightarrow> returnE r
        | Inr f \<Rightarrow> returnE (r\<lparr>r_reader := Some f\<rparr>)))"

section \<open>go/cmd/bkcust/initrd.go\<close>

definition isGzipped :: "bytes \<Rightarrow> bool" where
  "isGzipped buf = (if length buf < 2 then False else buf ! 0 = 0x1f \<and> buf ! 1 = 0x8b)"

text \<open>
  gzip.NewReader and reading all of it: an error for a bad header, else the data that can be
  decompressed and the error that ends it, if any.
\<close>

type_synonym gunzip_lib = "bytes \<Rightarrow> goerror + (bytes \<times> goerror option)"

text \<open>What a reader returned by uncompressedPathReader reads from.\<close>

datatype path_reader = RawReader osfile | GzipReader osfile

text \<open>\<open>r.Read(buf)\<close> with a buffer of two zero bytes: the buffer and the count, or EOF.\<close>

definition read_two :: "osfile \<Rightarrow> (bytes \<times> nat) io" where
  "read_two f = bindE (f_Read f) (\<lambda>b.
     if b = [] then throwE EOF
     else returnE (take 2 (b @ [0, 0]), min 2 (length b)))"

definition uncompressedPathReader :: "gunzip_lib \<Rightarrow> string \<Rightarrow> path_reader io" where
  "uncompressedPathReader G path =
     bindE (os_Open path) (\<lambda>r.
     bindE (catchE (read_two r) (\<lambda>err. thenE (attemptE (f_Close r)) (throwE err))) (\<lambda>(buf, n).
     bindE (catchE (f_Seek_start r) (\<lambda>err. thenE (attemptE (f_Close r)) (throwE err))) (\<lambda>_.
       if n < 2 \<or> \<not> isGzipped buf then returnE (RawReader r)
       else bindE (f_Read r) (\<lambda>b.
         case G b of
           Inl err \<Rightarrow> thenE (attemptE (f_Close r)) (throwE err)
         | Inr _ \<Rightarrow> returnE (GzipReader r)))))"

text \<open>Where the output goes: standard output or a file.\<close>

datatype out_writer = StdoutWriter | FileWriter osfile

definition writer_Write :: "out_writer \<Rightarrow> bytes \<Rightarrow> unit io" where
  "writer_Write out b =
     (case out of
        StdoutWriter \<Rightarrow> (\<lambda>w. (Ok (), log_event (EvStdout b) w))
      | FileWriter f \<Rightarrow> bindE (f_Write f b) (\<lambda>(n, err).
          case err of Some e \<Rightarrow> throwE e | None \<Rightarrow> returnE ()))"

definition copy_reader :: "gunzip_lib \<Rightarrow> out_writer \<Rightarrow> path_reader \<Rightarrow> unit io" where
  "copy_reader G out rd =
     (case rd of
        RawReader f \<Rightarrow> bindE (f_Read f) (writer_Write out)
      | GzipReader f \<Rightarrow> bindE (f_Read f) (\<lambda>b.
          case G b of
            Inl err \<Rightarrow> throwE err
          | Inr (d, end) \<Rightarrow> bindE (writer_Write out d) (\<lambda>_.
              case end of Some e \<Rightarrow> throwE e | None \<Rightarrow> returnE ())))"

definition reader_Close :: "path_reader \<Rightarrow> unit io" where
  "reader_Close rd = (case rd of RawReader f \<Rightarrow> f_Close f | GzipReader f \<Rightarrow> returnE ())"

definition join_body :: "gunzip_lib \<Rightarrow> cli_ctx \<Rightarrow> string \<Rightarrow> out_writer \<Rightarrow> unit io" where
  "join_body G ctx outname outWriter =
     bindE (if ctx_String ctx ''microcode'' \<noteq> [] then
              bindE (uncompressedPathReader G (ctx_String ctx ''microcode'')) (\<lambda>mcReader.
              bindE (copy_reader G outWriter mcReader) (\<lambda>_.
              bindE (attemptE (reader_Close mcReader)) (\<lambda>_. returnE ())))
            else returnE ()) (\<lambda>_.
     os_Stderr (''Wrote to '' @ outname @ nl))"

definition doInitrdJoin :: "gunzip_lib \<Rightarrow> cli_ctx \<Rightarrow> unit io" where
  "doInitrdJoin G ctx =
     (let args = ctx_Args ctx in
      if length args < 2 then
        throwE (ErrorString (''Got '' @ dec (length args) @ '' args, expect 2 or more''))
      else let outname = args ! 0 in
        if outname \<noteq> ''-'' then
          bindE (os_Create outname) (\<lambda>w.
          deferE (f_Close w) (join_body G ctx outname (FileWriter w)))
        else join_body G ctx outname StdoutWriter)"

section \<open>Compression of a joined reader\<close>

lemma compression_loop_Suc:
  "compression_loop (Suc i) c rs = (if \<forall>r \<in> set rs. CompressionOf r = c then c else Identity)"
  by (induction rs arbitrary: i) (auto simp: Let_def)

text \<open>
  The compression of a deduplicating reader is that of its readers when they all agree, and
  Identity when two of them differ, as its comment says; with no readers it is Undetermined.
\<close>

lemma Compression_common:
  "CompressionOf (DedupedReader rs seen) =
     (if rs = [] then Undetermined
      else if list_all (\<lambda>r. CompressionOf r = CompressionOf (hd rs)) rs then CompressionOf (hd rs)
      else Identity)"
  by (cases rs) (auto simp: Let_def compression_loop_Suc list_all_iff)

text \<open>
  SetCompression of a deduplicating reader over files reports an error and has changed the
  first file reader only, so the readers disagree afterwards whenever the second one had another
  compression, and the reader as a whole then counts as uncompressed.
\<close>

lemma SetCompression_partial:
  assumes "r_comp r2 \<noteq> c"
  shows "\<exists>e d. SetCompression c (DedupedReader (FileReader r1 # FileReader r2 # rs) seen) = (Some e, d) \<and>
    CompressionOf d = Identity"
  using assms by (simp add: Let_def)

lemma SetCompression_partial_witness:
  "\<exists>e d. SetCompression Gzip (DedupedReader
       [FileReader \<lparr>r_path = ''a'', r_reader = None, r_comp = Undetermined, r_unused = []\<rparr>,
        FileReader \<lparr>r_path = ''b'', r_reader = None, r_comp = Undetermined, r_unused = []\<rparr>] []) = (Some e, d) \<and>
     CompressionOf d = Identity"
  by (rule SetCompression_partial) simp

section \<open>initrd join\<close>

text \<open>
  \<open>initrd join\<close> joins nothing: what it does depends on the output name and the flags only, not
  on the cpio arguments.
\<close>

lemma doInitrdJoin_ignores_inputs:
  assumes "xs \<noteq> []" and "ys \<noteq> []"
  shows "doInitrdJoin G (ctx\<lparr>ctx_Args := out # xs\<rparr>) = doInitrdJoin G (ctx\<lparr>ctx_Args := out # ys\<rparr>)"
proof -
  have "join_body G (ctx\<lparr>ctx_Args := as\<rparr>) o1 wr = join_body G ctx o1 wr" for as o1 wr
    by (simp add: join_body_def)
  then show ?thesis using assms by (cases xs; cases ys) (simp_all add: doInitrdJoin_def Let_def)
qed

lemma doInitrdJoin_ignores_inputs_witness:
  "doInitrdJoin (\<lambda>b. Inr (b, None)) ((plain_ctx [])\<lparr>ctx_Args := ''out'' # [''a.cpio'']\<rparr>) =
   doInitrdJoin (\<lambda>b. Inr (b, None)) ((plain_ctx [])\<lparr>ctx_Args := ''out'' # [''b.cpio'', ''c.cpio'']\<rparr>)"
  by (rule doInitrdJoin_ignores_inputs) simp_all

text \<open>The bytes a path contributes: decompressed when it starts with the gzip magic.\<close>

definition plain_bytes :: "gunzip_lib \<Rightarrow> bytes \<Rightarrow> bytes option" where
  "plain_bytes G b =
     (if isGzipped b then (case G b of Inr (d, None) \<Rightarrow> Some d | _ \<Rightarrow> None) else Some b)"

lemma isGzipped_take2: "n = min 2 (length b) \<Longrightarrow> (\<not> n < 2 \<and> isGzipped (take 2 (b @ [0, 0]))) = isGzipped b"
  by (cases b; cases "tl b") (auto simp: isGzipped_def)

lemma catch_close_Ok:
  "catchE m (\<lambda>err. thenE (attemptE (f_Close r)) (throwE err)) w = (Ok x, w') \<longleftrightarrow> m w = (Ok x, w')"
  by (auto simp: catchE_def thenE_Ok throwE_Ok split: prod.splits outcome.splits)

lemma read_two_Ok:
  "read_two f w = (Ok (buf, n), w') \<Longrightarrow>
     \<exists>c. f_Read f w = (Ok c, w') \<and> buf = take 2 (c @ [0, 0]) \<and> n = min 2 (length c)"
  by (auto simp: read_two_def bindE_Ok throwE_Ok returnE_Ok split: if_splits)

lemma uncompressedPathReader_Ok:
  assumes "uncompressedPathReader G path w = (Ok rd, w')" and "file_content w path = Some b"
  shows "moved w w' (fs w)"
    and "rd = (if isGzipped b then GzipReader (file_of w path) else RawReader (file_of w path))"
proof -
  from assms(1) obtain r v where o: "os_Open path w = (Ok r, v)"
    and k: "bindE (catchE (read_two r) (\<lambda>err. thenE (attemptE (f_Close r)) (throwE err))) (\<lambda>(buf, n).
     bindE (catchE (f_Seek_start r) (\<lambda>err. thenE (attemptE (f_Close r)) (throwE err))) (\<lambda>_.
       if n < 2 \<or> \<not> isGzipped buf then returnE (RawReader r)
       else bindE (f_Read r) (\<lambda>b.
         case G b of
           Inl err \<Rightarrow> thenE (attemptE (f_Close r)) (throwE err)
         | Inr _ \<Rightarrow> returnE (GzipReader r)))) v = (Ok rd, w')"
    by (auto simp: uncompressedPathReader_def bindE_Ok)
  note O = Open_OkD [OF o]
  from k obtain buf n u where rt: "read_two r v = (Ok (buf, n), u)"
    and rest0: "bindE (f_Seek_start r) (\<lambda>_.
       if n < 2 \<or> \<not> isGzipped buf then returnE (RawReader r)
       else bindE (f_Read r) (\<lambda>b.
         case G b of
           Inl err \<Rightarrow> thenE (attemptE (f_Close r)) (throwE err)
         | Inr _ \<Rightarrow> returnE (GzipReader r))) u = (Ok rd, w')"
    by (auto simp: bindE_Ok catch_close_Ok)
  from read_two_Ok [OF rt] rest0 obtain c where rc: "f_Read r v = (Ok c, u)"
    and rest: "bindE (f_Seek_start r) (\<lambda>_.
       if min 2 (length c) < 2 \<or> \<not> isGzipped (take 2 (c @ [0, 0])) then returnE (RawReader r)
       else bindE (f_Read r) (\<lambda>b.
         case G b of
           Inl err \<Rightarrow> thenE (attemptE (f_Close r)) (throwE err)
         | Inr _ \<Rightarrow> returnE (GzipReader r))) u = (Ok rd, w')"
    by auto
  note R = Read_OkD [OF rc]
  have cb: "c = b"
    using R(2) assms(2) O(1) by (auto simp: moved_fs [OF O(2)] file_content_def split: option.splits node.splits)
  have "(min 2 (length b) < 2 \<or> \<not> isGzipped (take 2 (b @ [0, 0]))) = (\<not> isGzipped b)"
    using isGzipped_take2 [of "min 2 (length b)" b] by blast
  from rest [unfolded cb this] obtain s where sk: "f_Seek_start r u = (Ok (), s)"
    and tl: "(if \<not> isGzipped b then returnE (RawReader r)
       else bindE (f_Read r) (\<lambda>b.
         case G b of
           Inl err \<Rightarrow> thenE (attemptE (f_Close r)) (throwE err)
         | Inr _ \<Rightarrow> returnE (GzipReader r))) s = (Ok rd, w')"
    by (auto simp: bindE_Ok)
  have m: "moved w s (fs w)"
    using O(2) R(1) sk
    by (auto simp: f_Seek_start_def sys_Ok moved_def intro: same_env_trans)
  have "rd = (if isGzipped b then GzipReader r else RawReader r) \<and> moved s w' (fs s)"
  proof (cases "isGzipped b")
    case True
    with tl obtain x s2 where x: "f_Read r s = (Ok x, s2)"
      and g: "(case G x of Inl err \<Rightarrow> thenE (attemptE (f_Close r)) (throwE err)
         | Inr _ \<Rightarrow> returnE (GzipReader r)) s2 = (Ok rd, w')"
      by (auto simp: bindE_Ok)
    with Read_OkD(1) [OF x] True show ?thesis
      by (cases "G x") (auto simp: returnE_Ok thenE_Ok throwE_Ok)
  qed (use tl in \<open>simp add: returnE_Ok\<close>)
  then show "rd = (if isGzipped b then GzipReader (file_of w path) else RawReader (file_of w path))"
    and "moved w w' (fs w)"
    using O(1) moved_trans [OF m] by (auto simp: moved_fs [OF m])
qed

lemma copy_reader_Ok:
  assumes "copy_reader G (FileWriter f) (if isGzipped b then GzipReader g else RawReader g) w = (Ok (), w')"
    and "node_at (fs w) (f_key g) = Some (File m b)"
  obtains d v n where "plain_bytes G b = Some d" and "moved w v (fs w)" and "f_Write f d v = (Ok (n, None), w')"
proof -
  from assms(1) obtain c v where rd: "f_Read g w = (Ok c, v)"
    and k: "(if isGzipped b then (case G c of
            Inl err \<Rightarrow> throwE err
          | Inr (d, end) \<Rightarrow> bindE (writer_Write (FileWriter f) d) (\<lambda>_.
              case end of Some e \<Rightarrow> throwE e | None \<Rightarrow> returnE ()))
        else writer_Write (FileWriter f) c) v = (Ok (), w')"
    by (cases "isGzipped b") (auto simp: copy_reader_def bindE_Ok)
  have cb: "c = b" using Read_OkD(2) [OF rd] assms(2) by simp
  have "\<exists>d n. plain_bytes G b = Some d \<and> f_Write f d v = (Ok (n, None), w')"
    using k unfolding cb
    by (cases "isGzipped b")
      (auto simp: plain_bytes_def writer_Write_def bindE_Ok throwE_Ok returnE_Ok
        split: sum.splits option.splits)
  with Read_OkD(1) [OF rd] that show thesis by blast
qed


definition mc_fs :: filesys where
  "mc_fs = [([''m''], File mode_0644 [0x1f, 0x8b, 7])]"

definition mc_ctx :: cli_ctx where
  "mc_ctx = (plain_ctx [''/o'', ''/x''])\<lparr>ctx_String := (\<lambda>n. if n = ''microcode'' then ''/m'' else [])\<rparr>"


end
