(* ===== verification/Bkcust_Main.thy ===== *)
theory Bkcust_Main
  imports Bkcust Initrd
begin

text \<open>
  go/cmd/bkcust/main.go and the declarations of the commands in initrd.go, shim.go, signefi.go,
  stubby.go and virtfw.go: the flags of each command and the function it runs. The record
  bk_libs collects the libraries and the programs all of them use.
\<close>

section \<open>The commands\<close>

record ('c, 'g) bk_libs =
  bk_progs :: programs
  bk_crypto :: crypto_lib
  bk_efi :: efi_lib
  bk_pecoff :: "('c, 'g) pecoff_lib"
  bk_gunzip :: gunzip_lib
  bk_endian :: ByteOrder

definition initrd_join_flags :: "flag list" where
  "initrd_join_flags = [StringFlag ''microcode'' [''m''] [], BoolFlag ''gzip'' [''z'']]"

definition initrdCmd :: "('c, 'g) bk_libs \<Rightarrow> command" where
  "initrdCmd B = Command ''initrd'' []
     [Command ''join'' initrd_join_flags [] (Some (doInitrdJoin (bk_gunzip B)))] None"

definition set_db_flags :: "flag list" where
  "set_db_flags = [StringFlag ''output'' [''o''] []]"

definition shimCmd :: "('c, 'g) bk_libs \<Rightarrow> command" where
  "shimCmd B = Command ''shim'' []
     [Command ''set-db'' set_db_flags []
        (Some (doSetDB (bk_progs B) (bk_crypto B) (bk_efi B) (bk_endian B)))] None"

definition sign_efi_flags :: "flag list" where
  "sign_efi_flags = [StringFlag ''output, o'' [] []]"

definition signEfiCmd :: "('c, 'g) bk_libs \<Rightarrow> command" where
  "signEfiCmd B = Command ''sign-efi'' sign_efi_flags []
     (Some (doSignEfi (bk_pecoff B) (bk_crypto B)))"

definition smoosh_flags :: "flag list" where
  "smoosh_flags = [StringFlag ''output'' [''o''] [], StringFlag ''cmdline'' [] []]"

definition stubbyCmd :: "('c, 'g) bk_libs \<Rightarrow> command" where
  "stubbyCmd B = Command ''stubby'' []
     [Command ''smoosh'' smoosh_flags [] (Some (doStubbySmoosh (bk_progs B)))] None"

definition secure_boot_flags :: "flag list" where
  "secure_boot_flags =
     [StringFlag ''output, o'' [] [], StringFlag ''platform'' [''pk''] [],
      StringSliceFlag ''kek'' [], StringSliceFlag ''db'' [], StringSliceFlag ''mok'' []]"

definition virtFwCmd :: "('c, 'g) bk_libs \<Rightarrow> command" where
  "virtFwCmd B = Command ''virtfw'' []
     [Command ''secure-boot'' secure_boot_flags []
        (Some (doVirtFW (bk_progs B) (bk_crypto B) (bk_efi B)))] None"

definition bkcust_app :: "('c, 'g) bk_libs \<Rightarrow> app" where
  "bkcust_app B =
     \<lparr>app_Name = ''bkcust'', app_Flags = [BoolFlag ''debug'' []],
      app_Commands = [initrdCmd B, shimCmd B, signEfiCmd B, stubbyCmd B, virtFwCmd B],
      app_Action = None\<rparr>"

definition bkcust_main :: "cli_lib \<Rightarrow> ('c, 'g) bk_libs \<Rightarrow> unit io" where
  "bkcust_main run B = run_app run (bkcust_app B)"

lemma bkcust_actions:
  "app_actions (bkcust_app B) =
     [(initrd_join_flags, doInitrdJoin (bk_gunzip B)),
      (set_db_flags, doSetDB (bk_progs B) (bk_crypto B) (bk_efi B) (bk_endian B)),
      (sign_efi_flags, doSignEfi (bk_pecoff B) (bk_crypto B)),
      (smoosh_flags, doStubbySmoosh (bk_progs B)),
      (secure_boot_flags, doVirtFW (bk_progs B) (bk_crypto B) (bk_efi B))]"
  by (simp add: app_actions_def own_action_def bkcust_app_def initrdCmd_def shimCmd_def
      signEfiCmd_def stubbyCmd_def virtFwCmd_def)

section \<open>Every command cleans up\<close>

lemma cleans_up_doSetDB: "cleans_up (doSetDB P C E ord ctx)"
  by (intro cleans_upI calm_doSetDB noexit_doSetDB)

lemma quiet_doSignEfi [respects_intros]: "io_respects quiet_rel (doSignEfi L C ctx)"
  unfolding doSignEfi_def Let_def KeyFromPemFile_def CertFromPemFile_def by (intro respects_intros)

lemma cleans_up_doSignEfi: "cleans_up (doSignEfi L C ctx)"
  by (intro cleans_upI quiet_imp_calm quiet_imp_noexit quiet_doSignEfi)

lemma cleans_up_doStubbySmoosh: "cleans_up (doStubbySmoosh P ctx)"
  unfolding doStubbySmoosh_def Let_def by (intro cleans_upI respects_intros)

lemma calm_writer [respects_intros]: "io_respects (calm_rel D) (writer_Write out b)"
proof (cases out)
  case StdoutWriter
  have "io_respects (calm_rel D) (\<lambda>w. (Ok (), log_event (EvStdout b) w))"
    by (rule removal_calm) auto
  then show ?thesis by (simp add: writer_Write_def StdoutWriter)
next
  case (FileWriter f)
  then show ?thesis by (auto simp: writer_Write_def intro!: respects_intros)
qed

lemma noexit_writer [respects_intros]: "io_respects noexit_rel (writer_Write out b)"
proof (cases out)
  case StdoutWriter
  then show ?thesis by (simp add: writer_Write_def io_respects_def noexit_rel_def)
next
  case (FileWriter f)
  then show ?thesis by (auto simp: writer_Write_def intro!: respects_intros)
qed

lemma calm_copy_reader [respects_intros]: "io_respects (calm_rel D) (copy_reader G out rd)"
  by (cases rd) (auto simp: copy_reader_def intro!: respects_intros split: sum.split)

lemma noexit_copy_reader [respects_intros]: "io_respects noexit_rel (copy_reader G out rd)"
  by (cases rd) (auto simp: copy_reader_def intro!: respects_intros split: sum.split)

lemma quiet_reader_Close [respects_intros]: "io_respects quiet_rel (reader_Close rd)"
  by (cases rd) (auto simp: reader_Close_def intro: respects_intros)

lemma quiet_uncompressedPathReader [respects_intros]: "io_respects quiet_rel (uncompressedPathReader G p)"
  unfolding uncompressedPathReader_def read_two_def by (intro respects_intros)

lemmas quiet_initrd = quiet_reader_Close quiet_uncompressedPathReader

lemmas calm_initrd [respects_intros] = quiet_initrd [THEN quiet_imp_calm]

lemmas noexit_initrd [respects_intros] = quiet_initrd [THEN quiet_imp_noexit]

lemma cleans_up_doInitrdJoin: "cleans_up (doInitrdJoin G ctx)"
  unfolding doInitrdJoin_def join_body_def Let_def by (intro cleans_upI respects_intros)

section \<open>Every command returns\<close>

text \<open>No command panics: the slices the code indexes are never too short.\<close>

lemma returns_Capture [returns_intros]: "args \<noteq> [] \<Longrightarrow> returns (Capture_Error P args)"
  unfolding Capture_Error_def Capture_def
  by (cases args) (auto intro!: returns_intros)

lemma returns_SetSections [returns_intros]: "returns (SetSections P objpath sections)"
  unfolding SetSections_def SetSections_cmd_def by (intro returns_intros) simp

lemma returns_CopyFileContents [returns_intros]: "returns (CopyFileContents a b)"
  unfolding CopyFileContents_def by (intro returns_intros)

lemma returns_cert [returns_intros]:
  "returns (CertFromPemFile C p)" "returns (KeyFromPemFile C p)" "returns (LoadSignatureDataDir C p)"
  unfolding CertFromPemFile_def KeyFromPemFile_def LoadSignatureDataDir_def by (intro returns_intros)+

lemma returns_tests [returns_intros]: "returns (IsDir p)" "returns (PathExists p)"
  unfolding IsDir_def PathExists_def by (intro returns_intros)+

lemma returns_guidCert [returns_intros]:
  "returns (guidCert_arg C E cp p)" "returns (guidCert_loop C E ps)" "returns (readGuidCertString C E ps)"
proof -
  show a: "returns (guidCert_arg C E cp p)" for cp p
    unfolding guidCert_arg_def Let_def by (intro returns_intros)
  show l: "returns (guidCert_loop C E ps)"
    unfolding guidCert_loop_def by (intro returns_intros a)
  then show "returns (readGuidCertString C E ps)" unfolding readGuidCertString_def .
qed

lemma returns_VendorDB [returns_intros]: "returns (SetVendorDB P E ord shim db dbx)"
  unfolding SetVendorDB_def VendorDBSectionWrite_def write_all_def Let_def by (intro returns_intros)

lemma returns_doSetDB: "returns (doSetDB P C E ord ctx)"
  unfolding doSetDB_def Let_def by (intro returns_intros)

lemma returns_doSignEfi: "returns (doSignEfi L C ctx)"
  unfolding doSignEfi_def Let_def by (intro returns_intros)

lemma returns_doStubbySmoosh: "returns (doStubbySmoosh P ctx)"
  unfolding doStubbySmoosh_def Smoosh_def write_or_fail_def Let_def by (intro returns_intros)

lemma returns_writer [returns_intros]: "returns (writer_Write out b)"
proof (cases out)
  case StdoutWriter
  then show ?thesis by (simp add: writer_Write_def returns_def)
next
  case (FileWriter f)
  then show ?thesis by (auto simp: writer_Write_def intro!: returns_intros)
qed

lemma returns_copy_reader [returns_intros]: "returns (copy_reader G out rd)" "returns (reader_Close rd)"
  by (cases rd; auto simp: copy_reader_def reader_Close_def intro!: returns_intros split: sum.split)+

lemma returns_doInitrdJoin: "returns (doInitrdJoin G ctx)"
  unfolding doInitrdJoin_def join_body_def uncompressedPathReader_def read_two_def Let_def
  by (intro returns_intros)

lemma fold_keeps_args:
  assumes "foldE (\<lambda>args (arg, sdl). bindE (wrapE (g arg) (m arg sdl)) (\<lambda>nArgs. returnE (args @ nArgs)))
            acc xs w = (Ok args, w')"
  shows "\<exists>more. args = acc @ more"
  using assms
  by (induction xs arbitrary: acc w) (fastforce simp: bindE_Ok wrapE_Ok returnE_Ok split: prod.splits)+

lemma returns_OVMF [returns_intros]:
  "returns (OVMFPopulateSecureBoot P C E vin vout pk kek db mok)"
proof -
  have s: "returns (sigDataArgs C E tmpd a sds)" for tmpd a sds
    unfolding sigDataArgs_def sigdata_arg_def by (intro returns_intros)
  have c: "returns (bindE (foldE (\<lambda>args (arg, sdl).
            bindE (wrapE (g arg) (sigDataArgs C E tmpd arg sdl)) (\<lambda>nArgs. returnE (args @ nArgs)))
          (virt_fw_base vin vout) xs) (Capture_Error P))" for g tmpd xs
  proof (rule returns_bind_Ok)
    fix w args w'
    assume "foldE (\<lambda>args (arg, sdl).
            bindE (wrapE (g arg) (sigDataArgs C E tmpd arg sdl)) (\<lambda>nArgs. returnE (args @ nArgs)))
          (virt_fw_base vin vout) xs w = (Ok args, w')"
    from fold_keeps_args [OF this] have "args \<noteq> []" by (auto simp: virt_fw_base_def)
    then show "returned (fst (Capture_Error P args w'))"
      using returns_Capture by (simp add: returns_def)
  qed (intro returns_intros s)
  show ?thesis
    unfolding OVMFPopulateSecureBoot_def
    by (rule returns_bind [OF returns_temp(2)], rule returns_defer, rule c, rule returns_removal)
qed

lemma returns_read_platform [returns_intros]: "returns (read_platform C E pk)"
proof -
  have c: "returns (bindE (wrapE g (readGuidCertString C E [pk])) (\<lambda>sigdlist.
          case sigdlist of [] \<Rightarrow> panicE msg | sd # _ \<Rightarrow> returnE sd))" for g msg
  proof (rule returns_bind_Ok)
    fix w sds w'
    assume "wrapE g (readGuidCertString C E [pk]) w = (Ok sds, w')"
    then obtain sd where "sds = [sd]"
      by (auto simp: readGuidCertString_def guidCert_loop_def wrapE_Ok bindE_Ok returnE_Ok)
    then show "returned (fst ((case sds of [] \<Rightarrow> panicE msg | sd # _ \<Rightarrow> returnE sd) w'))"
      by (simp add: io_run)
  qed (intro returns_intros)
  show ?thesis
    unfolding read_platform_def by (rule returns_if, rule c, rule returns_return)
qed

lemma returns_doVirtFW: "returns (doVirtFW P C E ctx)"
  unfolding doVirtFW_def virtfw_body_def read_keys_def Let_def by (intro returns_intros)

section \<open>The program\<close>

lemma bkcust_actions_ok:
  assumes "(fls, act) \<in> set (app_actions (bkcust_app B))"
  shows "cleans_up (act ctx)" and "returns (act ctx)"
  using assms
  by (auto simp: bkcust_actions cleans_up_doInitrdJoin cleans_up_doSetDB cleans_up_doSignEfi
      cleans_up_doStubbySmoosh cleans_up_doVirtFW returns_doInitrdJoin returns_doSetDB
      returns_doSignEfi returns_doStubbySmoosh returns_doVirtFW)


text \<open>A library that gives the arguments to the smoosh command, without flags.\<close>

definition smoosh_cli :: "string list \<Rightarrow> cli_lib" where
  "smoosh_cli args a =
     (case app_actions a of
        [] \<Rightarrow> (\<lambda>w. (Ok (), log_event (EvStdout []) w))
      | acts \<Rightarrow> (case drop 3 acts of (fls, act) # _ \<Rightarrow> act (plain_ctx args)
               | [] \<Rightarrow> snd (hd acts) (plain_ctx args)))"

lemma dispatches_smoosh_cli: "dispatches (smoosh_cli args)"
  unfolding dispatches_def
proof (intro allI)
  fix a w
  show "(\<exists>r s. smoosh_cli args a w = (r, log_event (EvStdout s) w) \<and> returned r) \<or>
     (\<exists>fls act ctx. (fls, act) \<in> set (app_actions a) \<and> conforms fls ctx \<and> smoosh_cli args a w = act ctx w)"
  proof (cases "app_actions a")
    case Nil
    then show ?thesis by (auto simp: smoosh_cli_def)
  next
    case (Cons x xs)
    have "\<exists>fls act. (fls, act) \<in> set (app_actions a) \<and> smoosh_cli args a w = act (plain_ctx args) w"
    proof (cases "drop 3 (app_actions a)")
      case Nil
      then show ?thesis using Cons by (cases x) (auto simp: smoosh_cli_def)
    next
      case (Cons y ys)
      then have "y \<in> set (app_actions a)" by (metis in_set_dropD list.set_intros(1))
      with Cons \<open>app_actions a = x # xs\<close> show ?thesis by (cases y) (auto simp: smoosh_cli_def)
    qed
    then show ?thesis using conforms_plain by metis
  qed
qed

definition sample_libs :: "(bytes, bytes) bk_libs" where
  "sample_libs = \<lparr>bk_progs = idle_programs, bk_crypto = sample_crypto, bk_efi = sample_efi,
     bk_pecoff = sample_signer, bk_gunzip = (\<lambda>b. Inr (b, None)), bk_endian = LittleEndian\<rparr>"


section \<open>stubby smoosh from its flags to the image\<close>

lemma smoosh_sbat_undeclared: "undeclared smoosh_flags ''sbat''"
  by (simp add: undeclared_def smoosh_flags_def HasPrefix_def)

text \<open>
  C25: When \<open>stubby smoosh\<close> returns nil, objcopy has run on the output file and succeeded with the
  four sections at their addresses. When it ran, the output was a copy of the stub, the file for
  .cmdline held the value of the flag, and the file for .sbat held the built-in text: the code
  looks for a flag sbat, but none is declared, so there is no way to give another text.
\<close>

theorem doStubbySmoosh_builds_image:
  assumes "doStubbySmoosh P ctx w = (Ok (), w')" and "conforms smoosh_flags ctx"
    and "ctx_Args ctx = [uki, stubEfi, krn, initrd]" and "file_content w stubEfi = Some stub"
    and "path_key w stubEfi \<noteq> path_key w uki" and "\<not> is_special w uki"
  shows "\<exists>cf sf v v'.
    file_content v uki = Some stub \<and>
    file_content v cf = Some (bytes_of_string (ctx_String ctx ''cmdline'')) \<and>
    file_content v sf = Some (bytes_of_string sbatBuiltIn) \<and>
    ran_ok P [] (SetSections_cmd uki (smoosh_sections cf sf krn initrd)) v v'"
proof -
  have "ctx_String ctx ''sbat'' = []"
    using assms(2) smoosh_sbat_undeclared by (simp add: conforms_def)
  then obtain u where "Smoosh P stubEfi uki (ctx_String ctx ''cmdline'') sbatBuiltIn krn initrd w = (Ok (), u)"
    using assms(1,3) by (auto simp: doStubbySmoosh_def bindE_Ok)
  from Smoosh_builds_image [OF this assms(4-6)] show ?thesis .
qed

definition smoosh_ctx :: cli_ctx where
  "smoosh_ctx = (plain_ctx [''/u'', ''/a'', ''/a'', ''/c''])
     \<lparr>ctx_String := (\<lambda>n. if n = ''cmdline'' then ''quiet'' else [])\<rparr>"

lemma conforms_smoosh_ctx: "conforms smoosh_flags smoosh_ctx"
  by (auto simp: conforms_def smoosh_ctx_def plain_ctx_def undeclared_def smoosh_flags_def HasPrefix_def)

theorem doStubbySmoosh_builds_image_witness:
  "\<exists>cf sf v v'.
    file_content v ''/u'' = Some [1, 2] \<and>
    file_content v cf = Some (bytes_of_string (ctx_String smoosh_ctx ''cmdline'')) \<and>
    file_content v sf = Some (bytes_of_string sbatBuiltIn) \<and>
    ran_ok idle_programs [] (SetSections_cmd ''/u'' (smoosh_sections cf sf ''/a'' ''/c'')) v v'"
proof (rule doStubbySmoosh_builds_image)
  show "doStubbySmoosh idle_programs smoosh_ctx (sample_world sample_fs) =
    (Ok (), snd (doStubbySmoosh idle_programs smoosh_ctx (sample_world sample_fs)))"
    by (rule run_pair, code_simp)
  show "ctx_Args smoosh_ctx = [''/u'', ''/a'', ''/a'', ''/c'']" by (simp add: smoosh_ctx_def plain_ctx_def)
  show "file_content (sample_world sample_fs) ''/a'' = Some [1, 2]" by code_simp
  show "path_key (sample_world sample_fs) ''/a'' \<noteq> path_key (sample_world sample_fs) ''/u''" by code_simp
  show "\<not> is_special (sample_world sample_fs) ''/u''" by code_simp
qed (rule conforms_smoosh_ctx)

end
