(* ===== verification/Oci_Path.thy ===== *)
theory Oci_Path
  imports Util
begin

text \<open>
  References to images in OCI directories, \<open>oci:dir:[name:]tag\<close>: the type ociPath, its
  parser newOciPath and its accessors, and the functions adjustOCIRef and getImageName of
  go/cmd/oci-boot/main.go.
\<close>

section \<open>Definitions\<close>

definition layoutTree :: string where "layoutTree = ''tree''"
definition layoutFlat :: string where "layoutFlat = ''flat''"
definition layoutNone :: string where "layoutNone = []"

record ociPath =
  Repo :: string
  oci_Name :: string
  Tag :: string
  layout :: string

abbreviation colon :: char where
  "colon \<equiv> CHR '':''"

definition OciDir :: "ociPath \<Rightarrow> string" where
  "OciDir o1 = (if layout o1 = layoutTree then path_Join [Repo o1, oci_Name o1] else Repo o1)"

definition RefName :: "ociPath \<Rightarrow> string" where
  "RefName o1 =
     (if layout o1 = layoutTree then Tag o1
      else if oci_Name o1 = [] then Tag o1
      else oci_Name o1 @ '':'' @ Tag o1)"

definition NameAndTag :: "ociPath \<Rightarrow> string" where
  "NameAndTag o1 = (if oci_Name o1 = [] then Tag o1 else oci_Name o1 @ '':'' @ Tag o1)"

definition ociPath_String :: "ociPath \<Rightarrow> string" where
  "ociPath_String o1 = ''oci:'' @ OciDir o1 @ '':'' @ RefName o1"

definition colon_error :: "string \<Rightarrow> string \<Rightarrow> nat \<Rightarrow> goerror" where
  "colon_error what ref num =
     ErrorString (what @ '' '' @ [CHR 0x27, colon, CHR 0x27] @ '' in '' @ [CHR 0x27] @ ref @ [CHR 0x27] @
       ''. Need 2 or 3, found '' @ dec (num - 1))"

definition newOciPath :: "string \<Rightarrow> string \<Rightarrow> ociPath io" where
  "newOciPath ref lay =
     (let toks = split_on colon ref; num = length toks in
      if num \<le> 2 then throwE (colon_error ''Not enough'' ref num)
      else if num > 4 then throwE (colon_error ''Too many'' ref num)
      else
        bindE (if lay = layoutTree \<or> lay = layoutFlat then returnE lay
               else if lay = layoutNone then
                 bindE (oci_PathExists (path_Join [toks ! 1, ''index.json''])) (\<lambda>ex.
                   returnE (if ex then layoutFlat else layoutTree))
               else throwE (ErrorString (''unknown layout '' @ lay))) (\<lambda>lay'.
        if num = 3 then
          returnE \<lparr>Repo = toks ! 1, oci_Name = [], Tag = toks ! 2, layout = lay'\<rparr>
        else
          returnE \<lparr>Repo = toks ! 1, oci_Name = toks ! 2, Tag = toks ! 3, layout = lay'\<rparr>))"

definition getImageName :: "string \<Rightarrow> string outcome" where
  "getImageName ref =
     (let toks = split_on_n 3 colon ref in
      if length toks > 2 then Ok (toks ! 2)
      else Panic ''index out of range'')"

definition adjustOCIRef :: "string \<Rightarrow> string io" where
  "adjustOCIRef ref =
     (if HasPrefix ref ''ocit:'' then
        let toks = split_on colon ref; num = length toks in
        if num = 4 then
          returnE (''oci:'' @ toks ! 1 @ ''/'' @ toks ! 2 @ '':'' @ toks ! 3)
        else throwE (ErrorString (''ocit ref '' @ ref @ '' has '' @ dec num @ '' toks''))
      else if \<not> HasPrefix ref ''oci:'' then returnE ref
      else
        let toks = split_on colon ref; num = length toks in
        if num \<le> 2 then throwE (colon_error ''Not enough'' ref num)
        else if num > 4 then throwE (colon_error ''Too many'' ref num)
        else
          let dirPath = toks ! 1; nm = toks ! 2; tag = (if num = 4 then toks ! 3 else []) in
          bindE (oci_PathExists (path_Join [dirPath, ''index.json''])) (\<lambda>dirHasIndex.
            if dirHasIndex then
              (if num = 3 then returnE (''oci:'' @ dirPath @ '':'' @ nm)
               else returnE (''oci:'' @ dirPath @ '':'' @ nm @ '':'' @ tag))
            else returnE (''oci:'' @ dirPath @ ''/'' @ nm @ '':'' @ tag)))"

section \<open>Facts\<close>

lemma quiet_newOciPath [respects_intros]: "io_respects quiet_rel (newOciPath ref lay)"
  unfolding newOciPath_def Let_def by (intro respects_intros)

lemmas calm_newOciPath [respects_intros] = quiet_newOciPath [THEN quiet_imp_calm]

lemmas noexit_newOciPath [respects_intros] = quiet_newOciPath [THEN quiet_imp_noexit]

text \<open>The tokens of a reference with two or three colons.\<close>

lemma split_ref3:
  "colon \<notin> set s \<Longrightarrow> colon \<notin> set d \<Longrightarrow> colon \<notin> set t \<Longrightarrow>
     split_on colon (s @ '':'' @ d @ '':'' @ t) = [s, d, t]"
  by (simp add: split_on_append_sep split_on_single)

lemma split_ref4:
  "colon \<notin> set s \<Longrightarrow> colon \<notin> set d \<Longrightarrow> colon \<notin> set n \<Longrightarrow> colon \<notin> set t \<Longrightarrow>
     split_on colon (s @ '':'' @ d @ '':'' @ n @ '':'' @ t) = [s, d, n, t]"
  by (simp add: split_on_append_sep split_on_single)

section \<open>Parsing and printing\<close>

lemma oci_PathExists_total: "\<exists>b v. oci_PathExists p w = (Ok b, v)"
  by (auto simp: oci_PathExists_def os_Stat_def attemptE_def bindE_def catchE_def io_run sys_def
      sysp_def Let_def split: option.splits sum.splits)

text \<open>
  newOciPath accepts a reference exactly when it has two or three colons and the layout is one
  of the known ones (the empty layout, to be detected, included); the scheme is not looked at.
\<close>

lemma newOciPath_accepts_iff:
  "is_Ok (fst (newOciPath ref lay w)) \<longleftrightarrow>
     count_list ref colon \<in> {2, 3} \<and> lay \<in> {layoutTree, layoutFlat, layoutNone}"
proof -
  obtain b v where "oci_PathExists (path_Join [split_on colon ref ! 1, ''index.json'']) w = (Ok b, v)"
    using oci_PathExists_total by blast
  then show ?thesis
    by (auto simp: newOciPath_def Let_def length_split_on bindE_def io_run)
qed

lemma newOciPath_parts:
  assumes "lay = layoutTree \<or> lay = layoutFlat" and "colon \<notin> set s" and "colon \<notin> set d"
    and "colon \<notin> set n" and "colon \<notin> set t"
  shows "newOciPath (s @ '':'' @ d @ '':'' @ t) lay w =
      (Ok \<lparr>Repo = d, oci_Name = [], Tag = t, layout = lay\<rparr>, w)"
    and "newOciPath (s @ '':'' @ d @ '':'' @ n @ '':'' @ t) lay w =
      (Ok \<lparr>Repo = d, oci_Name = n, Tag = t, layout = lay\<rparr>, w)"
  using assms(1) split_ref3 [OF assms(2,3,5)] split_ref4 [OF assms(2-5)]
  by (auto simp: newOciPath_def Let_def io_run bindE_def)





end
