(* ===== verification/Unpack.thy ===== *)
theory Unpack
  imports Oci_Path Run_Cmd
begin

text \<open>
  Unpacking images: go/cmd/oci-boot/utils.go (WhichSearch, GetRootlessMapOptions,
  unpackSquashLayer, unpackSquashLayersViaAtomfs, extractSingleSquash) and, of main.go,
  unpackLayerRootfs, UnpackLayer and untar. The image libraries (umoci, stacker, atomfs,
  gorecurcopy, the id maps) are parameters, collected in the record oci_lib; what they do to
  the file system is part of their result.
\<close>

section \<open>The libraries\<close>

record layer_desc =
  MediaType :: string
  Digest_Encoded :: string

record idmap_entry =
  Isuid :: bool
  Isgid :: bool
  Hostid :: "64 word"
  Nsid :: "64 word"
  Maprange :: "64 word"

record LinuxIDMapping =
  ContainerID :: "32 word"
  HostID :: "32 word"
  Size :: "32 word"

record MapOptions =
  Rootless :: bool
  UIDMappings :: "LinuxIDMapping list"
  GIDMappings :: "LinuxIDMapping list"

definition no_MapOptions :: MapOptions where
  "no_MapOptions = \<lparr>Rootless = False, UIDMappings = [], GIDMappings = []\<rparr>"

record UnpackOptions =
  KeepDirlinks :: bool
  map_options :: MapOptions

record MountOCIOpts =
  OCIDir :: string
  MetadataPath :: string
  mo_Tag :: string
  Target :: string

record ('e, 'm) oci_lib =
  OpenLayout :: "string \<Rightarrow> filesys \<Rightarrow> goerror + 'e"
  Engine_Close :: "'e \<Rightarrow> filesys \<Rightarrow> goerror option \<times> filesys"
  LookupManifest :: "'e \<Rightarrow> string \<Rightarrow> filesys \<Rightarrow> goerror + layer_desc list"
  umoci_Unpack :: "'e \<Rightarrow> string \<Rightarrow> string \<Rightarrow> UnpackOptions \<Rightarrow> filesys \<Rightarrow> goerror option \<times> filesys"
  BuildMoleculeFromOCI :: "MountOCIOpts \<Rightarrow> filesys \<Rightarrow> goerror + 'm"
  mol_Mount :: "'m \<Rightarrow> string \<Rightarrow> filesys \<Rightarrow> goerror option \<times> filesys"
  atomfs_Umount :: "string \<Rightarrow> filesys \<Rightarrow> goerror option \<times> filesys"
  CopyDirectory :: "string \<Rightarrow> string \<Rightarrow> filesys \<Rightarrow> goerror option \<times> filesys"
  ImageCopy :: "string \<Rightarrow> string \<Rightarrow> filesys \<Rightarrow> goerror option \<times> filesys"
  ResolveCurrentIdmapSet :: "goerror + idmap_entry list option"
  idm_Usable :: "idmap_entry \<Rightarrow> goerror option"

text \<open>A library call that may change the file system, recorded in the trace.\<close>

definition lib_call :: "string \<Rightarrow> string list \<Rightarrow> (filesys \<Rightarrow> goerror option \<times> filesys) \<Rightarrow> unit io" where
  "lib_call name args f w =
     (case f (fs w) of
        (None, m) \<Rightarrow> (Ok (), (log_event (EvCall name args) w)\<lparr>fs := m\<rparr>)
      | (Some e, m) \<Rightarrow> (Err e, (log_event (EvCall name args) w)\<lparr>fs := m\<rparr>))"

definition lib_query :: "(filesys \<Rightarrow> goerror + 'a) \<Rightarrow> 'a io" where
  "lib_query f w = (case f (fs w) of Inl e \<Rightarrow> (Err e, w) | Inr x \<Rightarrow> (Ok x, w))"

section \<open>utils.go\<close>

text \<open>WhichSearch: the first candidate that is an executable regular file.\<close>

definition which_candidates :: "string \<Rightarrow> string list \<Rightarrow> string list" where
  "which_candidates name paths =
     (if slash \<in> set name then
        (if path_IsAbs name then [name] else [''./'' @ name])
      else map (\<lambda>p. path_Join [p, name]) paths)"

fun which_loop :: "string list \<Rightarrow> string io" where
  "which_loop [] = returnE []"
| "which_loop (fPath # rest) =
     bindE (attemptE (unix_Access_X fPath)) (\<lambda>acc.
       case acc of
         Inl err \<Rightarrow> which_loop rest
       | Inr u \<Rightarrow> bindE (attemptE (os_Stat fPath)) (\<lambda>s.
           case s of
             Inl err \<Rightarrow> which_loop rest
           | Inr i \<Rightarrow> if \<not> fi_regular i then which_loop rest else returnE fPath))"

definition WhichSearch :: "string \<Rightarrow> string list \<Rightarrow> string io" where
  "WhichSearch name paths = which_loop (which_candidates name paths)"

definition Which :: "string \<Rightarrow> string io" where
  "Which name = bindE (getE path_env) (\<lambda>p. WhichSearch name (split_on colon p))"

text \<open>The id maps; the 64-bit numbers of the library are cut to 32 bits.\<close>

definition id_mapping :: "idmap_entry \<Rightarrow> LinuxIDMapping" where
  "id_mapping idm = \<lparr>ContainerID = ucast (Nsid idm), HostID = ucast (Hostid idm), Size = ucast (Maprange idm)\<rparr>"

fun add_idmaps :: "(idmap_entry \<Rightarrow> goerror option) \<Rightarrow> MapOptions \<Rightarrow> idmap_entry list \<Rightarrow>
    goerror + MapOptions" where
  "add_idmaps usable opts [] = Inr opts"
| "add_idmaps usable opts (idm # idms) =
     (case usable idm of
        Some err \<Rightarrow> Inl (ErrorString (''idmap unusable: '' @ error_text err))
      | None \<Rightarrow>
          let opts1 = (if Isuid idm then opts\<lparr>UIDMappings := UIDMappings opts @ [id_mapping idm]\<rparr> else opts);
              opts2 = (if Isgid idm then opts1\<lparr>GIDMappings := GIDMappings opts1 @ [id_mapping idm]\<rparr> else opts1)
          in add_idmaps usable opts2 idms)"

definition GetRootlessMapOptions :: "('e, 'm) oci_lib \<Rightarrow> goerror + MapOptions" where
  "GetRootlessMapOptions L =
     (let opts = \<lparr>Rootless = True, UIDMappings = [], GIDMappings = []\<rparr> in
      case ResolveCurrentIdmapSet L of
        Inl err \<Rightarrow> Inl err
      | Inr None \<Rightarrow> Inl (ErrorString ''no uids mapped for current user'')
      | Inr (Some idmaps) \<Rightarrow> add_idmaps (idm_Usable L) opts idmaps)"

text \<open>extractSingleSquash, with the command line it chooses.\<close>

definition squash_cmd :: "bool \<Rightarrow> bool \<Rightarrow> string \<Rightarrow> string \<Rightarrow> string list" where
  "squash_cmd have_squashtool rootless squashFile extractDir =
     (if have_squashtool then
        [''squashtool'', ''extract'', ''--whiteouts'', ''--perms''] @
        (if \<not> rootless then [''--devs'', ''--sockets'', ''--owners''] else []) @
        [squashFile, extractDir]
      else [''unsquashfs'', ''-f'', ''-d'', extractDir, squashFile])"

definition extractSingleSquash :: "programs \<Rightarrow> string \<Rightarrow> string \<Rightarrow> bool \<Rightarrow> unit io" where
  "extractSingleSquash P squashFile extractDir rootless =
     bindE (os_MkdirAll extractDir mode_0755) (\<lambda>_.
     bindE (Which ''squashtool'') (\<lambda>tool.
     RunCommand P (squash_cmd (tool \<noteq> []) rootless squashFile extractDir)))"

text \<open>The closure cleanup of unpackSquashLayersViaAtomfs, with its variable mounted.\<close>

definition after_error :: "string \<Rightarrow> goerror \<Rightarrow> goerror option \<Rightarrow> goerror" where
  "after_error what cleanupErr err =
     (case err of
        Some e \<Rightarrow> ErrorString (what @ '' failed ('' @ error_text cleanupErr @ '') after error: '' @ error_text e)
      | None \<Rightarrow> cleanupErr)"

definition atomfs_cleanup :: "('e, 'm) oci_lib \<Rightarrow> bool \<Rightarrow> string \<Rightarrow> string \<Rightarrow> goerror option \<Rightarrow> unit io" where
  "atomfs_cleanup L mounted mountpoint tmpdir err =
     bindE (if mounted then
              wrapE (\<lambda>ce. after_error ''Umount'' ce err)
                (lib_call ''atomfs.Umount'' [mountpoint] (atomfs_Umount L mountpoint))
            else returnE ()) (\<lambda>_.
     bindE (wrapE (\<lambda>ce. after_error ''Tmpdir cleanup'' ce err) (os_RemoveAll tmpdir)) (\<lambda>_.
       case err of Some e \<Rightarrow> throwE e | None \<Rightarrow> returnE ()))"

text \<open>\<open>if err := m(); err != nil { return cleanup(err) }\<close> before the mount.\<close>

definition or_cleanup :: "('e, 'm) oci_lib \<Rightarrow> string \<Rightarrow> string \<Rightarrow> 'a io \<Rightarrow> ('a \<Rightarrow> unit io) \<Rightarrow> unit io" where
  "or_cleanup L mountpoint tmpdir m k =
     bindE (attemptE m) (\<lambda>r.
       case r of
         Inl err \<Rightarrow> atomfs_cleanup L False mountpoint tmpdir (Some err)
       | Inr x \<Rightarrow> k x)"

definition unpackSquashLayersViaAtomfs :: "('e, 'm) oci_lib \<Rightarrow> string \<Rightarrow> string \<Rightarrow> string \<Rightarrow> unit io" where
  "unpackSquashLayersViaAtomfs L ociDir tag dest =
     bindE (os_MkdirTemp [] ''unsquashLayers'') (\<lambda>tmpdir.
       let mdPath = path_Join [tmpdir, ''meta-data'']; mountpoint = path_Join [tmpdir, ''mount''] in
       or_cleanup L mountpoint tmpdir (os_Mkdir mdPath mode_0755) (\<lambda>_.
       or_cleanup L mountpoint tmpdir (os_Mkdir mountpoint mode_0755) (\<lambda>_.
       or_cleanup L mountpoint tmpdir
         (lib_query (BuildMoleculeFromOCI L
            \<lparr>OCIDir = ociDir, MetadataPath = mdPath, mo_Tag = tag, Target = mountpoint\<rparr>)) (\<lambda>mol.
       bindE (lib_call ''mol.Mount'' [mountpoint] (mol_Mount L mol mountpoint)) (\<lambda>_.
       bindE (attemptE (lib_call ''gorecurcopy.CopyDirectory'' [mountpoint, dest]
                          (CopyDirectory L mountpoint dest))) (\<lambda>r.
       atomfs_cleanup L True mountpoint tmpdir
         (case r of Inl err \<Rightarrow> Some err | Inr u \<Rightarrow> None)))))))"

definition unpackSquashLayer :: "programs \<Rightarrow> ('e, 'm) oci_lib \<Rightarrow> string \<Rightarrow> 'e \<Rightarrow> string \<Rightarrow> string \<Rightarrow>
    bool \<Rightarrow> unit io" where
  "unpackSquashLayer P L ociDir oci tag dest rootless =
     (let rootfsDir = path_Join [dest, ''rootfs''] in
      bindE (lib_query (LookupManifest L oci tag)) (\<lambda>layers.
      if \<not> rootless then
        wrapE (\<lambda>err. ErrorString (''failed to unpack '' @ tag @ '' in ociDir '' @ ociDir @
                  '' via atomfs: '' @ error_text err))
          (unpackSquashLayersViaAtomfs L ociDir tag rootfsDir)
      else forE layers (\<lambda>ly.
        extractSingleSquash P (path_Join [ociDir, ''blobs/sha256'', Digest_Encoded ly]) rootfsDir rootless)))"

section \<open>main.go: UnpackLayer, unpackLayerRootfs, untar\<close>

definition MediaTypeImageLayer :: string where
  "MediaTypeImageLayer = ''application/vnd.oci.image.layer.v1.tar''"

definition MediaTypeImageLayerGzip :: string where
  "MediaTypeImageLayerGzip = ''application/vnd.oci.image.layer.v1.tar+gzip''"

definition UnpackLayer :: "programs \<Rightarrow> ('e, 'm) oci_lib \<Rightarrow> string \<Rightarrow> 'e \<Rightarrow> string \<Rightarrow> string \<Rightarrow> bool \<Rightarrow> unit io" where
  "UnpackLayer P L ociDir oci tag dest rootless =
     bindE (wrapE (\<lambda>err. WrapError (''couldn'' @ [CHR 0x27] @ ''t find '' @ [CHR 0x27] @ tag @ [CHR 0x27] @
                      '' in oci: '' @ error_text err) err)
              (lib_query (LookupManifest L oci tag))) (\<lambda>layers.
       case layers of
         [] \<Rightarrow> panicE ''index out of range [0] with length 0''
       | ly # _ \<Rightarrow>
           if MediaType ly = MediaTypeImageLayer \<or> MediaType ly = MediaTypeImageLayerGzip then
             bindE (if rootless then fromSum (GetRootlessMapOptions L) else returnE no_MapOptions) (\<lambda>mo.
             lib_call ''umoci.Unpack'' [tag, dest]
               (umoci_Unpack L oci tag dest \<lparr>KeepDirlinks = True, map_options = mo\<rparr>))
           else unpackSquashLayer P L ociDir oci tag dest rootless)"

definition unpackLayerRootfs :: "programs \<Rightarrow> ('e, 'm) oci_lib \<Rightarrow> string \<Rightarrow> 'e \<Rightarrow> string \<Rightarrow> string \<Rightarrow> unit io" where
  "unpackLayerRootfs P L ociDir oci tag extractTo =
     bindE (getE (\<lambda>w. euid w \<noteq> 0)) (\<lambda>rootless.
       let xdir = path_Join [extractTo, ''.extract'']; rootfs = path_Join [xdir, ''rootfs''] in
       deferE (os_RemoveAll xdir)
         (bindE (UnpackLayer P L ociDir oci tag xdir rootless) (\<lambda>_.
          bindE (os_ReadDir rootfs) (\<lambda>entries.
          forE entries (\<lambda>entry.
            os_Rename (path_Join [rootfs, entry]) (path_Join [extractTo, entry]))))))"

text \<open>
  untar. The archive is the parameter: the entries archive/tar reads from the file, and the
  error that ends the reading, if it is not the end of the archive.
\<close>

record tar_header =
  th_Name :: string
  th_IsDir :: bool
  th_Mode :: filemode
  th_Content :: bytes

type_synonym tar_lib = "bytes \<Rightarrow> tar_header list \<times> goerror option"

definition untar_entry :: "string \<Rightarrow> tar_header \<Rightarrow> unit io" where
  "untar_entry target header =
     (let path = path_Join [target, th_Name header] in
      if th_IsDir header then os_MkdirAll path (th_Mode header)
      else bindE (os_OpenFile path [O_CREATE, O_TRUNC, O_WRONLY] (th_Mode header)) (\<lambda>file.
           bindE (f_Write file (th_Content header)) (\<lambda>(n, err).
             case err of Some e \<Rightarrow> throwE e | None \<Rightarrow> returnE ())))"

definition untar :: "tar_lib \<Rightarrow> string \<Rightarrow> string \<Rightarrow> unit io" where
  "untar T tarball target =
     bindE (os_Open tarball) (\<lambda>reader.
     deferE (f_Close reader)
       (bindE (f_Read reader) (\<lambda>b.
        case T b of (headers, end) \<Rightarrow>
          bindE (forE headers (untar_entry target)) (\<lambda>_.
            case end of Some e \<Rightarrow> throwE e | None \<Rightarrow> returnE ()))))"

section \<open>Effects\<close>

lemma calm_lib_call [respects_intros]: "io_respects (calm_rel D) (lib_call name args f)"
  by (rule removal_calm) (auto simp: lib_call_def split: prod.splits option.splits)

lemma noexit_lib_call [respects_intros]: "io_respects noexit_rel (lib_call name args f)"
  by (auto simp: io_respects_def noexit_rel_def lib_call_def split: prod.splits option.splits)

lemma quiet_lib_query [respects_intros]: "io_respects quiet_rel (lib_query f)"
  by (auto simp: io_respects_def quiet_rel_def lib_query_def split: sum.splits)

lemmas calm_lib_query [respects_intros] = quiet_lib_query [THEN quiet_imp_calm]

lemmas noexit_lib_query [respects_intros] = quiet_lib_query [THEN quiet_imp_noexit]

lemma returns_lib_call [returns_intros]: "returns (lib_call name args f)"
  by (auto simp: returns_def lib_call_def split: prod.splits option.splits)

lemma returns_lib_query [returns_intros]: "returns (lib_query f)"
  by (auto simp: returns_def lib_query_def split: sum.splits)

lemma quiet_which_loop [respects_intros]: "io_respects quiet_rel (which_loop cs)"
  by (induction cs) (auto intro!: respects_intros)

lemma quiet_Which [respects_intros]: "io_respects quiet_rel (Which name)"
  unfolding Which_def WhichSearch_def by (intro respects_intros)

lemmas calm_Which [respects_intros] = quiet_Which [THEN quiet_imp_calm]

lemmas noexit_Which [respects_intros] = quiet_Which [THEN quiet_imp_noexit]

lemma calm_extractSingleSquash [respects_intros]:
  "io_respects (calm_rel D) (extractSingleSquash P sq d rl)"
  unfolding extractSingleSquash_def by (intro respects_intros)

lemma noexit_extractSingleSquash [respects_intros]:
  "io_respects noexit_rel (extractSingleSquash P sq d rl)"
  unfolding extractSingleSquash_def by (intro respects_intros)

text \<open>
  unpackSquashLayersViaAtomfs removes its directory on every path but two: a failed mount and a
  failed unmount. atomfs_mounts excludes both.
\<close>

definition atomfs_mounts :: "('e, 'm) oci_lib \<Rightarrow> bool" where
  "atomfs_mounts L \<longleftrightarrow> (\<forall>mol mp m. fst (mol_Mount L mol mp m) = None) \<and>
     (\<forall>mp m. fst (atomfs_Umount L mp m) = None)"

lemma ends_after:
  assumes "d \<noteq> []" and "io_respects (ends_rel D d) m" and "\<And>x. k x = throwE e \<or> k x = returnE y"
  shows "io_respects (ends_rel D d) (bindE m k)"
proof (rule io_respectsI)
  fix w r w'
  assume run: "bindE m k w = (r, w')"
  obtain q v where m: "m w = (q, v)" by (cases "m w")
  note Rm = io_respectsD [OF assms(2) m]
  have "is_Exit r = is_Exit q \<and> w' = v"
  proof (cases q)
    case (Ok x)
    with run m assms(3) [of x] show ?thesis by (auto simp: bindE_def io_run)
  qed (use run m in \<open>auto simp: bindE_def\<close>)
  with Rm show "ends_rel D d w (is_Exit r) w'" by simp
qed

lemma ends_wrap: "io_respects (ends_rel D d) m \<Longrightarrow> io_respects (ends_rel D d) (wrapE g m)"
proof (rule io_respectsI)
  fix w r w'
  assume R: "io_respects (ends_rel D d) m" and run: "wrapE g m w = (r, w')"
  obtain q v where m: "m w = (q, v)" by (cases "m w")
  with run have "is_Exit r = is_Exit q \<and> w' = v"
    by (cases q) (auto simp: wrapE_def catchE_def io_run)
  with io_respectsD [OF R m] show "ends_rel D d w (is_Exit r) w'" by simp
qed

lemma lib_call_ok:
  "fst (f (fs w)) = None \<Longrightarrow>
     lib_call name args f w = (Ok (), (log_event (EvCall name args) w)\<lparr>fs := snd (f (fs w))\<rparr>)"
  by (auto simp: lib_call_def split: prod.splits)

lemma ends_cleanup:
  assumes "d \<noteq> []" and "atomfs_mounts L"
  shows "io_respects (ends_rel D d) (atomfs_cleanup L b mp d err)"
proof -
  have tail: "io_respects (ends_rel D d)
      (bindE (wrapE g (os_RemoveAll d)) (\<lambda>_. case err of Some e \<Rightarrow> throwE e | None \<Rightarrow> returnE ()))" for g
    by (cases err) (auto intro!: ends_after ends_wrap ends_RemoveAll assms(1))
  have um: "wrapE h (lib_call nm as (atomfs_Umount L mp)) =
      bindE (attemptE (lib_call nm as (atomfs_Umount L mp))) (\<lambda>_. returnE ())" for h nm as
    using assms(2) unfolding atomfs_mounts_def by (intro ext) (simp add: lib_call_ok io_defs)
  show ?thesis
    unfolding atomfs_cleanup_def
    by (cases b)
      (auto simp: um bindE_assoc intro!: tail ends_attempt returns_lib_call respects_intros)
qed

lemma ends_or_cleanup:
  assumes "d \<noteq> []" and "atomfs_mounts L" and "returns m"
    and "io_respects (calm_rel (\<lambda>p. D p \<or> under d p)) m" and "\<And>x. io_respects (ends_rel D d) (k x)"
  shows "io_respects (ends_rel D d) (or_cleanup L mp d m k)"
  unfolding or_cleanup_def
  by (rule ends_attempt [OF assms(3,4)]) (auto intro!: ends_cleanup assms split: sum.split)

lemma calm_unpackSquashLayersViaAtomfs [respects_intros]:
  assumes "atomfs_mounts L"
  shows "io_respects (calm_rel D) (unpackSquashLayersViaAtomfs L ociDir tag dest)"
proof -
  have mount: "bindE (lib_call nm as (mol_Mount L mol mp)) k =
      bindE (attemptE (lib_call nm as (mol_Mount L mol mp))) (\<lambda>_. k ())" for nm as mol mp and k :: "unit \<Rightarrow> unit io"
    using assms unfolding atomfs_mounts_def by (intro ext) (simp add: lib_call_ok io_defs)
  show ?thesis
    unfolding unpackSquashLayersViaAtomfs_def Let_def mount
    by (intro calm_ends ends_or_cleanup ends_attempt ends_cleanup returns_Mkdir returns_lib_call
        returns_lib_query respects_intros assms)
qed

lemma noexit_atomfs_cleanup [respects_intros]:
  "io_respects noexit_rel (atomfs_cleanup L b mp d err)"
  unfolding atomfs_cleanup_def by (intro respects_intros)

lemma noexit_unpackSquashLayersViaAtomfs [respects_intros]:
  "io_respects noexit_rel (unpackSquashLayersViaAtomfs L ociDir tag dest)"
  unfolding unpackSquashLayersViaAtomfs_def or_cleanup_def Let_def by (intro respects_intros)

lemma calm_UnpackLayer [respects_intros]:
  "atomfs_mounts L \<Longrightarrow> io_respects (calm_rel D) (UnpackLayer P L ociDir oci tag dest rl)"
  unfolding UnpackLayer_def unpackSquashLayer_def Let_def by (intro respects_intros)

lemma noexit_UnpackLayer [respects_intros]:
  "io_respects noexit_rel (UnpackLayer P L ociDir oci tag dest rl)"
  unfolding UnpackLayer_def unpackSquashLayer_def Let_def by (intro respects_intros)

lemma calm_unpackLayerRootfs [respects_intros]:
  "atomfs_mounts L \<Longrightarrow> io_respects (calm_rel D) (unpackLayerRootfs P L ociDir oci tag dest)"
  unfolding unpackLayerRootfs_def Let_def by (intro respects_intros)

lemma noexit_unpackLayerRootfs [respects_intros]:
  "io_respects noexit_rel (unpackLayerRootfs P L ociDir oci tag dest)"
  unfolding unpackLayerRootfs_def Let_def by (intro respects_intros)

section \<open>Searching for a program\<close>

definition runnable :: "world \<Rightarrow> string \<Rightarrow> bool" where
  "runnable w p = (case find_node w p of Inr (File m b) \<Rightarrow> m AND mode_0111 \<noteq> 0 | _ \<Rightarrow> False)"

definition first_runnable :: "world \<Rightarrow> string list \<Rightarrow> string" where
  "first_runnable w ps = (case filter (runnable w) ps of [] \<Rightarrow> [] | p # _ \<Rightarrow> p)"

definition no_faults :: "world \<Rightarrow> bool" where
  "no_faults w \<longleftrightarrow> (\<forall>n. faults w n = None)"

lemma runnable_tick [simp]: "runnable (w\<lparr>tick := n\<rparr>) = runnable w"
  by (rule ext) (simp add: runnable_def)

lemma which_loop_run:
  assumes "no_faults w"
  shows "\<exists>n. which_loop ps w = (Ok (first_runnable w ps), w\<lparr>tick := n\<rparr>)"
  using assms
proof (induction ps arbitrary: w)
  case Nil
  show ?case by (rule exI [of _ "tick w"]) (simp add: first_runnable_def io_run)
next
  case (Cons p ps)
  have nf: "no_faults (w\<lparr>tick := n\<rparr>)" for n using Cons.prems by (simp add: no_faults_def)
  have rest: "\<exists>n. which_loop ps (w\<lparr>tick := m\<rparr>) = (Ok (first_runnable w ps), w\<lparr>tick := n\<rparr>)" for m
    using Cons.IH [OF nf [of m]] by (simp add: first_runnable_def)
  show ?case
    using Cons.prems rest
    by (auto simp: first_runnable_def runnable_def unix_Access_X_def os_Stat_def sys_def sysp_def Let_def
        attemptE_def bindE_def catchE_def io_run no_faults_def split: sum.splits node.splits)
qed

text \<open>
  C35: WhichSearch returns the first candidate that is an executable regular file, skipping
  directories and files without an execute bit, and the empty string when there is none; the
  candidates are the name in each directory of the path, or the name itself when it has a slash.
\<close>

theorem WhichSearch_first_runnable:
  assumes "no_faults w"
  shows "fst (WhichSearch name paths w) =
    Ok (first_runnable w (if slash \<in> set name then [if path_IsAbs name then name else ''./'' @ name]
                          else map (\<lambda>p. path_Join [p, name]) paths))"
proof -
  from which_loop_run [OF assms, of "which_candidates name paths"] obtain n where
    "which_loop (which_candidates name paths) w =
      (Ok (first_runnable w (which_candidates name paths)), w\<lparr>tick := n\<rparr>)" ..
  then show ?thesis by (simp add: WhichSearch_def which_candidates_def)
qed

theorem WhichSearch_first_runnable_witness:
  "fst (WhichSearch ''squashtool'' [''/a'', ''/b''] (sample_world [([''b''], Dir mode_0755),
      ([''b'', ''squashtool''], File mode_0755 [])])) =
    Ok (first_runnable (sample_world [([''b''], Dir mode_0755), ([''b'', ''squashtool''], File mode_0755 [])])
      (if slash \<in> set ''squashtool'' then [if path_IsAbs ''squashtool'' then ''squashtool'' else ''./'' @ ''squashtool'']
       else map (\<lambda>p. path_Join [p, ''squashtool'']) [''/a'', ''/b'']))"
  by (rule WhichSearch_first_runnable) (simp add: no_faults_def sample_world_def)

section \<open>Id maps\<close>

lemma add_idmaps_Inr:
  "add_idmaps usable opts ms = Inr opts' \<longleftrightarrow>
     list_all (\<lambda>m. usable m = None) ms \<and>
     opts' = opts\<lparr>UIDMappings := UIDMappings opts @ map id_mapping (filter Isuid ms),
                  GIDMappings := GIDMappings opts @ map id_mapping (filter Isgid ms)\<rparr>"
  by (induction ms arbitrary: opts) (auto simp: Let_def split: option.splits)

text \<open>
  C36: GetRootlessMapOptions succeeds exactly when there are id maps and all of them are usable;
  it then asks for a rootless extraction with the uid maps and the gid maps in their order, a
  map for both in both, every number cut to its low 32 bits.
\<close>

theorem GetRootlessMapOptions_iff:
  "GetRootlessMapOptions L = Inr opts \<longleftrightarrow>
     (\<exists>ms. ResolveCurrentIdmapSet L = Inr (Some ms) \<and> list_all (\<lambda>m. idm_Usable L m = None) ms \<and>
       Rootless opts = True \<and>
       map (\<lambda>x. (unat (ContainerID x), unat (HostID x), unat (Size x))) (UIDMappings opts) =
         map (\<lambda>m. (unat (Nsid m) mod 2 ^ 32, unat (Hostid m) mod 2 ^ 32, unat (Maprange m) mod 2 ^ 32))
           (filter Isuid ms) \<and>
       map (\<lambda>x. (unat (ContainerID x), unat (HostID x), unat (Size x))) (GIDMappings opts) =
         map (\<lambda>m. (unat (Nsid m) mod 2 ^ 32, unat (Hostid m) mod 2 ^ 32, unat (Maprange m) mod 2 ^ 32))
           (filter Isgid ms))"
proof -
  have one: "x = id_mapping m \<longleftrightarrow> unat (ContainerID x) = unat (Nsid m) mod 2 ^ 32 \<and>
      unat (HostID x) = unat (Hostid m) mod 2 ^ 32 \<and> unat (Size x) = unat (Maprange m) mod 2 ^ 32"
    for x :: LinuxIDMapping and m
    by (cases x) (simp add: id_mapping_def word_unat_eq_iff unsigned_ucast_eq take_bit_eq_mod)
  have cut: "map (\<lambda>x. (unat (ContainerID x), unat (HostID x), unat (Size x))) xs =
      map (\<lambda>m. (unat (Nsid m) mod 2 ^ 32, unat (Hostid m) mod 2 ^ 32, unat (Maprange m) mod 2 ^ 32)) ms
    \<longleftrightarrow> xs = map id_mapping ms" for xs :: "LinuxIDMapping list" and ms
  proof (induction xs arbitrary: ms)
    case (Cons x xs)
    then show ?case by (cases ms) (auto simp: one)
  qed auto
  show ?thesis
    unfolding cut by (cases opts) (auto simp: GetRootlessMapOptions_def Let_def add_idmaps_Inr split: sum.splits option.splits)
qed

section \<open>Squashfs layers\<close>

text \<open>
  The command lines a run has executed, and the run of one layer: what extractSingleSquash
  executed is its squash command, with or without squashtool.
\<close>

fun exec_argvs :: "event list \<Rightarrow> string list list" where
  "exec_argvs [] = []"
| "exec_argvs (EvExec d argv # es) = argv # exec_argvs es"
| "exec_argvs (e # es) = exec_argvs es"

lemma exec_argvs_append [simp]: "exec_argvs (s @ t) = exec_argvs s @ exec_argvs t"
  by (induction s rule: exec_argvs.induct) auto

lemma extractSingleSquash_trace:
  assumes "extractSingleSquash P sq d rl w = (Ok u, w')"
  shows "\<exists>t b. trace w' = trace w @ t \<and> exec_argvs t = [squash_cmd b rl sq d]"
proof -
  from assms obtain v1 tool v2 where m: "os_MkdirAll d mode_0755 w = (Ok (), v1)"
    and wh: "Which ''squashtool'' v1 = (Ok tool, v2)"
    and ran: "ran_ok P [] (squash_cmd (tool \<noteq> []) rl sq d) v2 w'"
    by (auto simp: extractSingleSquash_def bindE_Ok RunCommand_Ok)
  have "trace v2 = trace w"
    using quiet_moved [OF quiet_MkdirAll m] quiet_moved [OF quiet_Which wh] by (simp add: moved_def)
  moreover obtain dir where "trace w' = trace v2 @ [EvExec dir (squash_cmd (tool \<noteq> []) rl sq d)]"
    using ran_ok_trace(1) [OF ran] by blast
  ultimately show ?thesis by auto
qed

lemma squash_layers_trace:
  assumes "forE layers (\<lambda>ly. extractSingleSquash P (path_Join [ociDir, ''blobs/sha256'', Digest_Encoded ly])
      root rl) w = (Ok u, w')"
  shows "\<exists>t. trace w' = trace w @ t \<and> list_all2 (\<lambda>ly argv. \<exists>b. argv =
      squash_cmd b rl (path_Join [ociDir, ''blobs/sha256'', Digest_Encoded ly]) root) layers (exec_argvs t)"
  using assms
proof (induction layers arbitrary: w)
  case Nil
  then show ?case by (auto simp: io_ok intro: exI [of _ "[]"])
next
  case (Cons ly layers)
  from Cons.prems obtain v where
    a: "extractSingleSquash P (path_Join [ociDir, ''blobs/sha256'', Digest_Encoded ly]) root rl w = (Ok (), v)"
    and rest: "forE layers (\<lambda>ly. extractSingleSquash P (path_Join [ociDir, ''blobs/sha256'', Digest_Encoded ly])
      root rl) v = (Ok u, w')"
    by (auto simp: thenE_Ok)
  from extractSingleSquash_trace [OF a] Cons.IH [OF rest] show ?case by fastforce
qed

text \<open>
  C29: A rootless unpackSquashLayer that returns nil has extracted every layer of the manifest
  into \<open>dest/rootfs\<close>, in the order of the manifest, one command each, and never with the options
  of squashtool that need root (--devs, --sockets, --owners).
\<close>

theorem unpackSquashLayer_rootless:
  assumes "unpackSquashLayer P L ociDir oci tag dest True w = (Ok (), w')"
    and "LookupManifest L oci tag (fs w) = Inr layers"
  shows "\<exists>t. trace w' = trace w @ t \<and>
    list_all2 (\<lambda>ly argv.
        argv = [''squashtool'', ''extract'', ''--whiteouts'', ''--perms'',
                path_Join [ociDir, ''blobs/sha256'', Digest_Encoded ly], path_Join [dest, ''rootfs'']] \<or>
        argv = [''unsquashfs'', ''-f'', ''-d'', path_Join [dest, ''rootfs''],
                path_Join [ociDir, ''blobs/sha256'', Digest_Encoded ly]])
      layers (exec_argvs t)"
proof -
  from assms have "forE layers (\<lambda>ly. extractSingleSquash P
      (path_Join [ociDir, ''blobs/sha256'', Digest_Encoded ly]) (path_Join [dest, ''rootfs'']) True) w = (Ok (), w')"
    by (auto simp: unpackSquashLayer_def Let_def bindE_Ok lib_query_def)
  from squash_layers_trace [OF this] obtain t where "trace w' = trace w @ t" and
    "list_all2 (\<lambda>ly argv. \<exists>b. argv = squash_cmd b True
       (path_Join [ociDir, ''blobs/sha256'', Digest_Encoded ly]) (path_Join [dest, ''rootfs''])) layers (exec_argvs t)"
    by blast
  then show ?thesis
    by (intro exI [of _ t] conjI) (auto simp: squash_cmd_def elim!: list_all2_mono split: if_splits)
qed

text \<open>An image library for the witnesses: every call succeeds and changes nothing.\<close>

definition sample_oci :: "(unit, unit) oci_lib" where
  "sample_oci = \<lparr>OpenLayout = (\<lambda>d m. Inr ()), Engine_Close = (\<lambda>e m. (None, m)),
     LookupManifest = (\<lambda>e t m. Inr [\<lparr>MediaType = ''squash'', Digest_Encoded = ''d1''\<rparr>,
                                   \<lparr>MediaType = ''squash'', Digest_Encoded = ''d2''\<rparr>]),
     umoci_Unpack = (\<lambda>e t d opts m. (None, m)), BuildMoleculeFromOCI = (\<lambda>opts m. Inr ()),
     mol_Mount = (\<lambda>mol mp m. (None, m)), atomfs_Umount = (\<lambda>mp m. (None, m)),
     CopyDirectory = (\<lambda>s d m. (None, m)), ImageCopy = (\<lambda>s d m. (None, m)),
     ResolveCurrentIdmapSet = Inr (Some []), idm_Usable = (\<lambda>m. None)\<rparr>"

theorem unpackSquashLayer_rootless_witness:
  "\<exists>t. trace (snd (unpackSquashLayer idle_programs sample_oci ''/o'' () ''1'' ''/d'' True (sample_world sample_fs))) =
      trace (sample_world sample_fs) @ t \<and>
    list_all2 (\<lambda>ly argv.
        argv = [''squashtool'', ''extract'', ''--whiteouts'', ''--perms'',
                path_Join [''/o'', ''blobs/sha256'', Digest_Encoded ly], path_Join [''/d'', ''rootfs'']] \<or>
        argv = [''unsquashfs'', ''-f'', ''-d'', path_Join [''/d'', ''rootfs''],
                path_Join [''/o'', ''blobs/sha256'', Digest_Encoded ly]])
      [\<lparr>MediaType = ''squash'', Digest_Encoded = ''d1''\<rparr>, \<lparr>MediaType = ''squash'', Digest_Encoded = ''d2''\<rparr>]
      (exec_argvs t)"
proof (rule unpackSquashLayer_rootless)
  show "unpackSquashLayer idle_programs sample_oci ''/o'' () ''1'' ''/d'' True (sample_world sample_fs) =
    (Ok (), snd (unpackSquashLayer idle_programs sample_oci ''/o'' () ''1'' ''/d'' True (sample_world sample_fs)))"
    by (rule run_pair, code_simp)
qed (simp add: sample_oci_def)

text \<open>
  C30: unpackSquashLayersViaAtomfs removes its temporary directory on every path when the mount
  and the unmount succeed; only the failed mount returns without the cleanup.
\<close>

theorem atomfs_unpack_cleans_up:
  assumes "atomfs_mounts L"
  shows "cleans_up (unpackSquashLayersViaAtomfs L ociDir tag dest)"
  by (intro cleans_upI calm_unpackSquashLayersViaAtomfs noexit_unpackSquashLayersViaAtomfs assms)

theorem atomfs_unpack_cleans_up_witness:
  "cleans_up (unpackSquashLayersViaAtomfs sample_oci ''/o'' ''1'' ''/d'')"
  by (rule atomfs_unpack_cleans_up) (simp add: atomfs_mounts_def sample_oci_def)

lemma cleanup_unmounted_trace:
  assumes "d \<noteq> []" and "atomfs_cleanup L False mp d err w = (r, w')"
  shows "trace w' = trace w @ [EvRemoveAll d]"
proof -
  have "w' = snd (os_RemoveAll d w)"
    using assms(2)
    by (auto simp: atomfs_cleanup_def bindE_def wrapE_def catchE_def io_run
        split: prod.splits outcome.splits option.splits)
  then show ?thesis by (simp add: RemoveAll_trace [OF assms(1)])
qed

lemma or_cleanup_cases:
  assumes "or_cleanup L mp d m k w = (r, w')" and "d \<noteq> []" and "returns m" and "io_respects quiet_rel m"
  obtains "trace w' = trace w @ [EvRemoveAll d]"
  | x u where "m w = (Ok x, u)" and "trace u = trace w" and "k x u = (r, w')"
proof -
  obtain q u where m: "m w = (q, u)" by fastforce
  have u: "trace u = trace w" using io_respectsD [OF assms(4) m] by (simp add: quiet_rel_def)
  from assms(3) m consider x where "q = Ok x" | e where "q = Err e"
    using returnsD by (cases q) fastforce+
  then show thesis
  proof cases
    case 1
    with assms(1) m u that(2) show thesis
      by (simp add: or_cleanup_def bindE_def attemptE_def catchE_def io_run)
  next
    case 2
    with assms(1) m have "atomfs_cleanup L False mp d (Some e) u = (r, w')"
      by (simp add: or_cleanup_def bindE_def attemptE_def catchE_def io_run)
    from cleanup_unmounted_trace [OF assms(2) this] u that(1) show thesis by simp
  qed
qed

text \<open>
  C31: A failed mount leaks: when the mount fails, a run of unpackSquashLayersViaAtomfs that got as
  far as mounting leaves its temporary directory behind, unlike a run that failed before.
\<close>

theorem atomfs_mount_failure_leaks:
  assumes "unpackSquashLayersViaAtomfs L ociDir tag dest w = (r, w')" and "trace w' = trace w @ t"
    and "\<forall>mol mp m. fst (mol_Mount L mol mp m) \<noteq> None"
  shows "if \<exists>mp. EvCall ''mol.Mount'' mp \<in> set t then uncleaned t \<noteq> [] else uncleaned t = []"
proof -
  obtain q v where md: "os_MkdirTemp [] ''unsquashLayers'' w = (q, v)" by fastforce
  note mk = MkdirTemp_run [OF md]
  show ?thesis
  proof (cases q)
    case (Ok d)
    define mdPath where "mdPath = path_Join [d, ''meta-data'']"
    define mnt where "mnt = path_Join [d, ''mount'']"
    from Ok mk have v: "trace v = trace w @ [EvTemp d]" and d: "d \<noteq> []" by (auto simp: temp_path_ends)
    have gone: ?thesis if "trace w' = trace v @ [EvRemoveAll d]"
      using that assms(2) v by (simp add: under_def)
    from assms(1) md Ok have body: "or_cleanup L mnt d (os_Mkdir mdPath mode_0755) (\<lambda>_.
       or_cleanup L mnt d (os_Mkdir mnt mode_0755) (\<lambda>_.
       or_cleanup L mnt d
         (lib_query (BuildMoleculeFromOCI L
            \<lparr>OCIDir = ociDir, MetadataPath = mdPath, mo_Tag = tag, Target = mnt\<rparr>)) (\<lambda>mol.
       bindE (lib_call ''mol.Mount'' [mnt] (mol_Mount L mol mnt)) (\<lambda>_.
       bindE (attemptE (lib_call ''gorecurcopy.CopyDirectory'' [mnt, dest] (CopyDirectory L mnt dest))) (\<lambda>r.
       atomfs_cleanup L True mnt d (case r of Inl err \<Rightarrow> Some err | Inr u \<Rightarrow> None)))))) v = (r, w')"
      by (simp add: unpackSquashLayersViaAtomfs_def bindE_def [of "os_MkdirTemp _ _"] Let_def mdPath_def mnt_def)
    show ?thesis
    proof (rule or_cleanup_cases [OF body d returns_Mkdir quiet_Mkdir])
      fix x1 u1
      assume u1: "trace u1 = trace v" and b1: "or_cleanup L mnt d (os_Mkdir mnt mode_0755) (\<lambda>_.
       or_cleanup L mnt d
         (lib_query (BuildMoleculeFromOCI L
            \<lparr>OCIDir = ociDir, MetadataPath = mdPath, mo_Tag = tag, Target = mnt\<rparr>)) (\<lambda>mol.
       bindE (lib_call ''mol.Mount'' [mnt] (mol_Mount L mol mnt)) (\<lambda>_.
       bindE (attemptE (lib_call ''gorecurcopy.CopyDirectory'' [mnt, dest] (CopyDirectory L mnt dest))) (\<lambda>r.
       atomfs_cleanup L True mnt d (case r of Inl err \<Rightarrow> Some err | Inr u \<Rightarrow> None))))) u1 = (r, w')"
      show ?thesis
      proof (rule or_cleanup_cases [OF b1 d returns_Mkdir quiet_Mkdir])
        fix x2 u2
        assume u2: "trace u2 = trace u1" and b2: "or_cleanup L mnt d
         (lib_query (BuildMoleculeFromOCI L
            \<lparr>OCIDir = ociDir, MetadataPath = mdPath, mo_Tag = tag, Target = mnt\<rparr>)) (\<lambda>mol.
       bindE (lib_call ''mol.Mount'' [mnt] (mol_Mount L mol mnt)) (\<lambda>_.
       bindE (attemptE (lib_call ''gorecurcopy.CopyDirectory'' [mnt, dest] (CopyDirectory L mnt dest))) (\<lambda>r.
       atomfs_cleanup L True mnt d (case r of Inl err \<Rightarrow> Some err | Inr u \<Rightarrow> None)))) u2 = (r, w')"
        show ?thesis
        proof (rule or_cleanup_cases [OF b2 d returns_lib_query quiet_lib_query])
          fix mol u3
          assume u3: "trace u3 = trace u2" and b3: "bindE (lib_call ''mol.Mount'' [mnt] (mol_Mount L mol mnt)) (\<lambda>_.
       bindE (attemptE (lib_call ''gorecurcopy.CopyDirectory'' [mnt, dest] (CopyDirectory L mnt dest))) (\<lambda>r.
       atomfs_cleanup L True mnt d (case r of Inl err \<Rightarrow> Some err | Inr u \<Rightarrow> None))) u3 = (r, w')"
          obtain e m where "mol_Mount L mol mnt (fs u3) = (Some e, m)"
            using assms(3) by (metis option.exhaust prod.collapse)
          with b3 have "trace w' = trace u3 @ [EvCall ''mol.Mount'' [mnt]]"
            by (auto simp: bindE_def lib_call_def log_event_def)
          then show ?thesis using assms(2) u1 u2 u3 v by simp
        qed (use u1 u2 gone in simp)
      qed (use u1 gone in simp)
    qed (rule gone)
  qed (use mk assms(1,2) md in \<open>auto simp: unpackSquashLayersViaAtomfs_def bindE_def\<close>)
qed

definition unmountable_oci :: "(unit, unit) oci_lib" where
  "unmountable_oci = sample_oci\<lparr>mol_Mount := (\<lambda>mol mp m. (Some (ErrorString ''mount denied''), m))\<rparr>"

theorem atomfs_mount_failure_leaks_witness:
  "if \<exists>mp. EvCall ''mol.Mount'' mp \<in>
        set (trace (snd (unpackSquashLayersViaAtomfs unmountable_oci ''/o'' ''1'' ''/d'' (sample_world sample_fs))))
   then uncleaned (trace (snd (unpackSquashLayersViaAtomfs unmountable_oci ''/o'' ''1'' ''/d'' (sample_world sample_fs)))) \<noteq> []
   else uncleaned (trace (snd (unpackSquashLayersViaAtomfs unmountable_oci ''/o'' ''1'' ''/d'' (sample_world sample_fs)))) = []"
proof (rule atomfs_mount_failure_leaks)
  show "unpackSquashLayersViaAtomfs unmountable_oci ''/o'' ''1'' ''/d'' (sample_world sample_fs) =
      (fst (unpackSquashLayersViaAtomfs unmountable_oci ''/o'' ''1'' ''/d'' (sample_world sample_fs)),
       snd (unpackSquashLayersViaAtomfs unmountable_oci ''/o'' ''1'' ''/d'' (sample_world sample_fs)))"
    by simp
qed (simp_all add: unmountable_oci_def sample_world_def)

end
