(* ===== verification/Disk.thy ===== *)
theory Disk
  imports Unpack "HOL-Library.Signed_Division"
begin

text \<open>
  The disk image of go/cmd/oci-boot/main.go: genGptDisk makes the file and its partition
  table, createAndCopyToFat32Mtools and createAndCopyToFat32DiskFS make the FAT file system
  in the partition and copy a directory into it. The partitioning library (disko) and the
  FAT library (go-diskfs) are parameters, collected in the records disko_lib and fat_lib.
  Offsets and sizes are int64 values; Go's / and % truncate towards zero, as sdiv and smod do.
\<close>

section \<open>The libraries\<close>

record free_space =
  fs_Start :: "64 word"
  fs_Last :: "64 word"

record Partition =
  p_Start :: "64 word"
  p_Last :: "64 word"
  p_Type :: bytes
  p_Name :: string
  p_ID :: bytes
  p_Number :: nat

text \<open>What reading a map at a missing key gives.\<close>

definition zero_Partition :: Partition where
  "zero_Partition = \<lparr>p_Start = 0, p_Last = 0, p_Type = replicate 16 0, p_Name = [],
     p_ID = replicate 16 0, p_Number = 0\<rparr>"

record Disk =
  dk_Name :: string
  dk_Path :: string
  dk_Size :: "64 word"
  dk_SectorSize :: nat
  dk_Partitions :: "nat \<rightharpoonup> Partition"

record disko_lib =
  FreeSpaces :: "Disk \<Rightarrow> free_space list"
  GenGUID :: bytes
  partid_EFI :: bytes
  CreatePartitions :: "Disk \<Rightarrow> (nat \<rightharpoonup> Partition) \<Rightarrow> filesys \<Rightarrow> goerror option \<times> filesys"
  Partition_Size :: "Partition \<Rightarrow> 64 word"

record ('f, 'h) fat_lib =
  fat_Create :: "osfile \<Rightarrow> int \<Rightarrow> int \<Rightarrow> int \<Rightarrow> string \<Rightarrow> filesys \<Rightarrow> (goerror + 'f) \<times> filesys"
  fat_Mkdir :: "'f \<Rightarrow> string \<Rightarrow> filesys \<Rightarrow> goerror option \<times> filesys"
  fat_OpenFile :: "'f \<Rightarrow> string \<Rightarrow> filesys \<Rightarrow> (goerror + 'h) \<times> filesys"
  fat_Write :: "'h \<Rightarrow> bytes \<Rightarrow> filesys \<Rightarrow> goerror option \<times> filesys"
  fat_Close :: "'h \<Rightarrow> filesys \<Rightarrow> goerror option \<times> filesys"

text \<open>A library call that returns a value and may change the file system.\<close>

definition lib_open :: "string \<Rightarrow> string list \<Rightarrow> (filesys \<Rightarrow> (goerror + 'a) \<times> filesys) \<Rightarrow> 'a io" where
  "lib_open name args f w =
     (case f (fs w) of
        (Inr x, m) \<Rightarrow> (Ok x, (log_event (EvCall name args) w)\<lparr>fs := m\<rparr>)
      | (Inl e, m) \<Rightarrow> (Err e, (log_event (EvCall name args) w)\<lparr>fs := m\<rparr>))"

section \<open>genGptDisk\<close>

definition fmt_space :: "free_space \<Rightarrow> string" where
  "fmt_space s = ''{'' @ dec (unat (fs_Start s)) @ '' '' @ dec (unat (fs_Last s)) @ ''}''"

definition gpt_disk :: "string \<Rightarrow> int \<Rightarrow> Disk" where
  "gpt_disk fpath fsize =
     \<lparr>dk_Name = ''disk'', dk_Path = fpath, dk_Size = word_of_int fsize, dk_SectorSize = 512,
      dk_Partitions = Map.empty\<rparr>"

definition esp_partition :: "disko_lib \<Rightarrow> free_space \<Rightarrow> Partition" where
  "esp_partition K s =
     \<lparr>p_Start = fs_Start s, p_Last = fs_Last s, p_Type = partid_EFI K, p_Name = ''EFI'',
      p_ID = GenGUID K, p_Number = 1\<rparr>"

definition genGptDisk :: "disko_lib \<Rightarrow> string \<Rightarrow> int \<Rightarrow> Disk io" where
  "genGptDisk K fpath fsize =
     (let disk = gpt_disk fpath fsize in
      bindE (wrapE (\<lambda>err. ErrorString (''Failed to write to a temp file: '' @ error_text err))
               (os_WriteFile fpath [] mode_0600)) (\<lambda>_.
      bindE (wrapE (\<lambda>err. ErrorString (''Failed create empty file: '' @ error_text err))
               (os_Truncate fpath fsize)) (\<lambda>_.
      let fss = FreeSpaces K disk in
      case fss of
        [s] \<Rightarrow>
          let parts = [1 \<mapsto> esp_partition K s] in
          bindE (lib_call ''CreatePartitions'' [fpath] (CreatePartitions K disk parts)) (\<lambda>_.
          returnE (disk\<lparr>dk_Partitions := parts\<rparr>))
      | _ \<Rightarrow> throwE (ErrorString (''Expected 1 free space, found ['' @
               join_with '' '' (map fmt_space fss) @ '']'')))))"

section \<open>createAndCopyToFat32Mtools\<close>

definition ISOLabel :: string where
  "ISOLabel = ''OCI-BOOT''"

definition mkfs_args :: "string \<Rightarrow> int \<Rightarrow> int \<Rightarrow> string list" where
  "mkfs_args diskFile fsStart fsSize =
     [''mkfs.fat'', ''-F32'', ''-n'' @ ISOLabel, ''--offset='' @ dec_int (fsStart sdiv 512),
      diskFile, dec_int (fsSize sdiv 1024)]"

definition mcopy_args :: "string \<Rightarrow> int \<Rightarrow> string list \<Rightarrow> string list" where
  "mcopy_args fullPath fsStart files =
     [''env'', ''MTOOLS_SKIP_CHECK=1'', ''mcopy'', ''-s'', ''-v'', ''-i'',
      fullPath @ ''@@'' @ dec_int fsStart] @ files @ [''::'']"

definition createAndCopyToFat32Mtools :: "programs \<Rightarrow> string \<Rightarrow> string \<Rightarrow> int \<Rightarrow> int \<Rightarrow> unit io" where
  "createAndCopyToFat32Mtools P srcDir diskFile fsStart fsSize =
     (if fsSize smod 1024 \<noteq> 0 then
        throwE (ErrorString (''Size '' @ [CHR 0x27] @ dec_int fsSize @ [CHR 0x27] @
          '' is not multiple of 1024''))
      else
        bindE (wrapE (\<lambda>err. ErrorString (''Failed to create filesystem with '' @
                   join_with '' '' (mkfs_args diskFile fsStart fsSize) @ '': '' @ error_text err))
                 (RunCommand P (mkfs_args diskFile fsStart fsSize))) (\<lambda>_.
        bindE (wrapE (\<lambda>err. ErrorString (''Could not get full path to '' @ diskFile @ '': '' @ error_text err))
                 (filepath_Abs diskFile)) (\<lambda>fullPath.
        bindE (wrapE (\<lambda>err. ErrorString (''Failed to open directory '' @ [CHR 0x27] @ srcDir @ [CHR 0x27] @
                   '': '' @ error_text err))
                 (os_Open srcDir)) (\<lambda>dirFp.
        bindE (attemptE (f_Readdirnames dirFp)) (\<lambda>r.
        bindE (attemptE (f_Close dirFp)) (\<lambda>_.
          case r of
            Inl err \<Rightarrow> throwE (ErrorString (''Failed to read files in '' @ [CHR 0x27] @ srcDir @ [CHR 0x27] @
                         '': '' @ error_text err))
          | Inr files \<Rightarrow> CombinedOutput_error P srcDir (mcopy_args fullPath fsStart files)))))))"

section \<open>createAndCopyToFat32DiskFS\<close>

definition fat32BlockSize :: int where
  "fat32BlockSize = 512"

definition fmt_Printf :: "string \<Rightarrow> unit io" where
  "fmt_Printf s w = (Ok (), log_event (EvStdout (bytes_of_string s)) w)"

text \<open>The function given to filepath.Walk.\<close>

definition fat_copy_file :: "('f, 'h) fat_lib \<Rightarrow> 'f \<Rightarrow> string \<Rightarrow> string \<Rightarrow> unit io" where
  "fat_copy_file F fatfs fname dest =
     bindE (wrapE (\<lambda>err. ErrorString (''Failed to read file '' @ fname @ '' (dest='' @ dest @ '')''))
              (os_Open fname)) (\<lambda>srcFile.
     deferE (f_Close srcFile)
       (bindE (wrapE (\<lambda>err. ErrorString (''Failed to create '' @ [CHR 0x27] @ path_Dir dest @ [CHR 0x27] @
                  '' for '' @ [CHR 0x27] @ dest @ [CHR 0x27]))
                 (lib_call ''fat.Mkdir'' [path_Dir dest] (fat_Mkdir F fatfs (path_Dir dest)))) (\<lambda>_.
        bindE (wrapE (\<lambda>err. ErrorString (''Failed to open dest '' @ [CHR 0x27] @ dest @ [CHR 0x27] @ '': '' @
                  error_text err))
                 (lib_open ''fat.OpenFile'' [dest] (fat_OpenFile F fatfs dest))) (\<lambda>destFile.
        deferE (lib_call ''fat.Close'' [dest] (fat_Close F destFile))
          (bindE (fmt_Printf (''copying to '' @ dest @ [CHR 0x0A])) (\<lambda>_.
           wrapE (\<lambda>err. ErrorString (''Failed to copy from '' @ fname @ '' -> '' @ dest @ '': '' @ error_text err))
             (bindE (f_Read srcFile) (\<lambda>b.
              lib_call ''fat.Write'' [dest] (fat_Write F destFile b)))))))))"

definition fat_walk_fn :: "('f, 'h) fat_lib \<Rightarrow> 'f \<Rightarrow> string \<Rightarrow> string \<Rightarrow> goerror + fileinfo \<Rightarrow> unit io" where
  "fat_walk_fn F fatfs srcDir fname r =
     (case r of
        Inl err \<Rightarrow> throwE err
      | Inr info \<Rightarrow>
          if fname = srcDir then returnE ()
          else let dest = drop (length srcDir) fname in
            if fi_dir info then
              lib_call ''fat.Mkdir'' [path_Dir dest] (fat_Mkdir F fatfs (path_Dir dest))
            else if fi_regular info then fat_copy_file F fatfs fname dest
            else throwE (ErrorString (fname @ '' is not dir or regular file'' @ [CHR 0x0A])))"

definition createAndCopyToFat32DiskFS :: "('f, 'h) fat_lib \<Rightarrow> string \<Rightarrow> string \<Rightarrow> int \<Rightarrow> int \<Rightarrow> unit io" where
  "createAndCopyToFat32DiskFS F srcDir diskFile fsStart fsSize =
     bindE (os_OpenFile diskFile [O_RDWR, O_EXCL] mode_0644) (\<lambda>fp.
     deferE (f_Close fp)
       (bindE (wrapE (\<lambda>err. ErrorString (''Failed to create fat32 fs in '' @ f_name fp @ '': '' @ error_text err))
                 (lib_open ''fat32.Create'' [diskFile]
                    (fat_Create F fp fsSize fsStart fat32BlockSize ISOLabel))) (\<lambda>fatfs.
        let dir = (if HasSuffix srcDir ''/'' then take (length srcDir - 1) srcDir else srcDir) in
        filepath_Walk dir (fat_walk_fn F fatfs dir))))"

section \<open>Effects\<close>

lemma calm_lib_open [respects_intros]: "io_respects (calm_rel D) (lib_open name args f)"
  by (rule removal_calm) (auto simp: lib_open_def split: prod.splits sum.splits)

lemma noexit_lib_open [respects_intros]: "io_respects noexit_rel (lib_open name args f)"
  by (auto simp: io_respects_def noexit_rel_def lib_open_def split: prod.splits sum.splits)

lemma calm_Printf [respects_intros]: "io_respects (calm_rel D) (fmt_Printf s)"
  by (rule removal_calm) (auto simp: fmt_Printf_def)

lemma noexit_Printf [respects_intros]: "io_respects noexit_rel (fmt_Printf s)"
  by (auto simp: io_respects_def noexit_rel_def fmt_Printf_def)

lemma calm_genGptDisk [respects_intros]: "io_respects (calm_rel D) (genGptDisk K fpath n)"
  unfolding genGptDisk_def Let_def by (intro respects_intros)

lemma noexit_genGptDisk [respects_intros]: "io_respects noexit_rel (genGptDisk K fpath n)"
  unfolding genGptDisk_def Let_def by (intro respects_intros)

lemma calm_CombinedOutput [respects_intros]: "io_respects (calm_rel D) (CombinedOutput_error P dir args)"
  unfolding CombinedOutput_error_def by (intro respects_intros)

lemma noexit_CombinedOutput [respects_intros]: "io_respects noexit_rel (CombinedOutput_error P dir args)"
  unfolding CombinedOutput_error_def by (intro respects_intros)

lemma calm_Mtools [respects_intros]:
  "io_respects (calm_rel D) (createAndCopyToFat32Mtools P src disk st sz)"
  unfolding createAndCopyToFat32Mtools_def by (intro respects_intros)

lemma noexit_Mtools [respects_intros]:
  "io_respects noexit_rel (createAndCopyToFat32Mtools P src disk st sz)"
  unfolding createAndCopyToFat32Mtools_def by (intro respects_intros)

lemma calm_fat_walk_fn [respects_intros]: "io_respects (calm_rel D) (fat_walk_fn F g src p r)"
  unfolding fat_walk_fn_def fat_copy_file_def Let_def by (intro respects_intros)

lemma noexit_fat_walk_fn [respects_intros]: "io_respects noexit_rel (fat_walk_fn F g src p r)"
  unfolding fat_walk_fn_def fat_copy_file_def Let_def by (intro respects_intros)

lemma calm_DiskFS [respects_intros]:
  "io_respects (calm_rel D) (createAndCopyToFat32DiskFS F src disk st sz)"
  unfolding createAndCopyToFat32DiskFS_def Let_def by (intro respects_intros)

lemma noexit_DiskFS [respects_intros]:
  "io_respects noexit_rel (createAndCopyToFat32DiskFS F src disk st sz)"
  unfolding createAndCopyToFat32DiskFS_def Let_def by (intro respects_intros)

end
