(* ===== verification/Esp.thy ===== *)
theory Esp
  imports Disk Cli
begin

text \<open>
  Boot modes and the EFI tree of go/cmd/oci-boot/main.go: the options of the command, the
  type OciBoot, PopulateEFI, getDirSize and the two functions genESP that make the EFI system
  partition image. Go iterates over a map in an order it does not fix: the order is the
  parameter t_iter of the record tools, which collects everything outside the sources.
\<close>

section \<open>Options\<close>

type_synonym BootMode = int

definition EFIAuto :: BootMode where "EFIAuto = 0"
definition EFIShim :: BootMode where "EFIShim = 1"
definition EFIKernel :: BootMode where "EFIKernel = 2"

definition PathESPImage :: string where "PathESPImage = ''loader/images/efi-esp.img''"
definition BootLayerName :: string where "BootLayerName = ''live-boot:latest''"
definition ImplDiskfs :: string where "ImplDiskfs = ''diskfs''"

definition EFIBootModeStrings :: "string \<rightharpoonup> BootMode" where
  "EFIBootModeStrings = [''efi-auto'' \<mapsto> EFIAuto, ''efi-shim'' \<mapsto> EFIShim, ''efi-kernel'' \<mapsto> EFIKernel]"

definition EFIBootModes :: "BootMode \<rightharpoonup> string" where
  "EFIBootModes = [EFIAuto \<mapsto> ''efi-auto'', EFIShim \<mapsto> ''efi-shim'', EFIKernel \<mapsto> ''efi-kernel'']"

record ISOOptions =
  iso_EFIBootMode :: BootMode
  iso_CommandLine :: string

record DiskOptions =
  dsk_EFIBootMode :: BootMode
  dsk_CommandLine :: string
  dsk_Size :: int
  dsk_Impl :: string

definition ISOOptions_Check :: "ISOOptions \<Rightarrow> goerror option" where
  "ISOOptions_Check opts =
     (case EFIBootModes (iso_EFIBootMode opts) of
        None \<Rightarrow> Some (ErrorString (''Invalid boot mode '' @ dec_int (iso_EFIBootMode opts)))
      | Some m \<Rightarrow> None)"

definition MkisofsArgs :: "ISOOptions \<Rightarrow> goerror + string list" where
  "MkisofsArgs opts =
     Inr [''-eltorito-alt-boot'', ''-e'', PathESPImage, ''-no-emul-boot'', ''-isohybrid-gpt-basdat'']"

section \<open>OciBoot\<close>

text \<open>The closures kept in the field cleanups: the one that does nothing, and RemoveAll.\<close>

datatype cleanup = NoCleanup | RemoveDir string

definition run_cleanup :: "cleanup \<Rightarrow> unit io" where
  "run_cleanup c = (case c of NoCleanup \<Rightarrow> returnE () | RemoveDir d \<Rightarrow> os_RemoveAll d)"

record OciBoot =
  BootKit :: string
  BootLayer :: string
  Files :: "(string \<times> string) list"
  Layers :: "string list"
  cleanups :: "cleanup list"
  bootKitDir :: string
  RepoDir :: string

record ('e, 'm, 'f, 'h) tools =
  t_progs :: programs
  t_oci :: "('e, 'm) oci_lib"
  t_disko :: disko_lib
  t_fat :: "('f, 'h) fat_lib"
  t_iter :: "(string \<times> string) list \<Rightarrow> (string \<times> string) list"

section \<open>PopulateEFI\<close>

definition EFIBootDir :: string where "EFIBootDir = ''/efi/boot/''"
definition StartupNSHPath :: string where "StartupNSHPath = ''startup.nsh''"
definition KernelEFI :: string where "KernelEFI = ''kernel.efi''"
definition ShimEFI :: string where "ShimEFI = ''shim.efi''"

definition efi_mode :: "OciBoot \<Rightarrow> BootMode \<Rightarrow> BootMode io" where
  "efi_mode b mode =
     (if mode = EFIAuto then
        bindE (oci_PathExists (path_Join [bootKitDir b, ''bootkit/shim.efi''])) (\<lambda>ex.
          returnE (if ex then EFIShim else EFIKernel))
      else returnE mode)"

definition full_cmdline :: "OciBoot \<Rightarrow> string \<Rightarrow> string" where
  "full_cmdline b cmdline =
     (let fullCmdline = (if BootLayer b \<noteq> [] then
            ''root=soci:name='' @ BootLayerName @ '',dev=LABEL='' @ ISOLabel else []) in
      if cmdline \<noteq> [] then fullCmdline @ '' '' @ cmdline else fullCmdline)"

definition efi_copies :: "OciBoot \<Rightarrow> BootMode \<Rightarrow> (string \<times> string) list" where
  "efi_copies b mode =
     (if mode = EFIShim then
        AList.update (path_Join [bootKitDir b, ''bootkit/kernel.efi'']) (EFIBootDir @ KernelEFI)
          (AList.update (path_Join [bootKitDir b, ''bootkit/shim.efi'']) (EFIBootDir @ ShimEFI) [])
      else if mode = EFIKernel then
        AList.update (path_Join [bootKitDir b, ''bootkit/kernel.efi'']) KernelEFI []
      else [])"

definition startup_nsh :: "BootMode \<Rightarrow> string \<Rightarrow> string list" where
  "startup_nsh mode fullCmdline =
     [''fs0:'', ''cd fs0:'' @ EFIBootDir] @
     (if mode = EFIShim then [ShimEFI @ '' '' @ KernelEFI @ '' '' @ fullCmdline]
      else if mode = EFIKernel then [KernelEFI @ '' '' @ fullCmdline] else []) @
     [[]]"

definition PopulateEFI :: "('e, 'm, 'f, 'h) tools \<Rightarrow> OciBoot \<Rightarrow> BootMode \<Rightarrow> string \<Rightarrow> string \<Rightarrow> unit io" where
  "PopulateEFI T b mode0 cmdline destd =
     bindE (efi_mode b mode0) (\<lambda>mode.
     bindE (os_MkdirAll (path_Join [destd, EFIBootDir]) mode_0755) (\<lambda>_.
     bindE (os_WriteFile (path_Join [path_Join [destd, EFIBootDir], StartupNSHPath])
              (bytes_of_string (join_with [CHR 0x0A] (startup_nsh mode (full_cmdline b cmdline))))
              mode_0644) (\<lambda>_.
     forE (t_iter T (efi_copies b mode)) (\<lambda>(src, dst). copyFile src (path_Join [destd, dst])))))"

section \<open>getDirSize\<close>

text \<open>
  The walk of getDirSize only adds up: its callback is a fold over what filepath.Walk shows
  it, with the total an int64.
\<close>

definition size_fn :: "64 word \<Rightarrow> goerror + fileinfo \<Rightarrow> 64 word io" where
  "size_fn sz r =
     (case r of
        Inl err \<Rightarrow> throwE err
      | Inr info \<Rightarrow> returnE (if \<not> fi_dir info then sz + word_of_nat (fi_size info) else sz))"

definition getDirSize :: "string \<Rightarrow> 64 word io" where
  "getDirSize path =
     bindE (attemptE (os_Stat path)) (\<lambda>root.
     bindE (size_fn 0 root) (\<lambda>sz.
     bindE (getE (\<lambda>w. case root of Inr i \<Rightarrow> if fi_dir i then walk_rels (fs w) (path_key w path) else []
                      | Inl e \<Rightarrow> [])) (\<lambda>rels.
     foldE (\<lambda>sz rel. bindE (attemptE (os_Stat (path_Join [path, join_with ''/'' rel]))) (size_fn sz))
       sz rels)))"

section \<open>genESP\<close>

text \<open>
  float64 arithmetic on non-negative integers scaled by a power of two: rounding to 53
  significant bits, ties to even.
\<close>

fun bit_len :: "nat \<Rightarrow> nat" where
  "bit_len n = (if n = 0 then 0 else Suc (bit_len (n div 2)))"

declare bit_len.simps [simp del]

definition round_shift :: "nat \<Rightarrow> nat \<Rightarrow> nat" where
  "round_shift s x =
     (let q = x div 2 ^ s; r = x mod 2 ^ s in
      if 2 * r < 2 ^ s then q
      else if 2 * r > 2 ^ s then q + 1
      else if even q then q else q + 1)"

definition round53 :: "nat \<Rightarrow> nat" where
  "round53 x = (let s = bit_len x - 53 in round_shift s x * 2 ^ s)"

text \<open>
  \<open>int64(float64(treeSize) * 1.05)\<close>: the float64 nearest to 1.05 is 4728779608739021 / 2^52,
  and the scale 2^52 is taken off after the product has been rounded.
\<close>

definition overhead_num :: nat where
  "overhead_num = 4728779608739021"

definition with_overhead :: "nat \<Rightarrow> nat" where
  "with_overhead n = round53 (round53 n * overhead_num) div 2 ^ 52"

text \<open>The same over the integers, which the evaluation of closed terms is faster on.\<close>

function int_bits :: "int \<Rightarrow> nat" where
  "int_bits x = (if x \<le> 0 then 0 else Suc (int_bits (x div 2)))"
  by auto

termination by (relation "measure nat") auto

declare int_bits.simps [simp del]

lemma int_bits: "int_bits (int n) = bit_len n"
proof (induction n rule: bit_len.induct)
  case (1 n)
  have "int n div 2 = int (n div 2)" by simp
  with 1 show ?case by (subst int_bits.simps, subst bit_len.simps) auto
qed

definition int_round_shift :: "nat \<Rightarrow> int \<Rightarrow> int" where
  "int_round_shift s x =
     (let q = x div 2 ^ s; r = x mod 2 ^ s in
      if 2 * r < 2 ^ s then q
      else if 2 * r > 2 ^ s then q + 1
      else if q mod 2 = 0 then q else q + 1)"

definition int_round53 :: "int \<Rightarrow> int" where
  "int_round53 x = (let s = int_bits x - 53 in int_round_shift s x * 2 ^ s)"

lemma int_round53: "int_round53 (int x) = int (round53 x)"
proof -
  have "int_round_shift s (int x) = int (round_shift s x)" for s
  proof -
    have q: "int x div 2 ^ s = int (x div 2 ^ s)" and r: "int x mod 2 ^ s = int (x mod 2 ^ s)" by (simp_all add: zdiv_int zmod_int)
    have e: "int (x div 2 ^ s) mod 2 = 0 \<longleftrightarrow> even (x div 2 ^ s)" by presburger
    have l: "2 * int (x mod 2 ^ s) < 2 ^ s \<longleftrightarrow> 2 * (x mod 2 ^ s) < 2 ^ s" "2 ^ s < 2 * int (x mod 2 ^ s) \<longleftrightarrow> 2 ^ s < 2 * (x mod 2 ^ s)"
      by (metis of_nat_less_iff of_nat_mult of_nat_numeral of_nat_power)+
    show ?thesis unfolding int_round_shift_def round_shift_def Let_def q r e l by simp
  qed
  then show ?thesis by (simp add: int_round53_def round53_def int_bits Let_def)
qed

lemma with_overhead_code [code]:
  "with_overhead n = nat (int_round53 (int_round53 (int n) * 4728779608739021) div 2 ^ 52)"
proof -
  have "int_round53 (int n) * 4728779608739021 = int (round53 n * overhead_num)"
    by (simp add: int_round53 overhead_num_def)
  then have "int_round53 (int_round53 (int n) * 4728779608739021) = int (round53 (round53 n * overhead_num))"
    by (simp only: int_round53)
  then show ?thesis by (simp add: with_overhead_def nat_div_distrib nat_power_eq)
qed

definition esp_size :: "64 word \<Rightarrow> int" where
  "esp_size treeSize =
     (if sint treeSize < 0 then - int (with_overhead (nat (- sint treeSize)))
      else int (with_overhead (nat (sint treeSize))))"

definition esp_mcopy_args :: "string \<Rightarrow> string \<Rightarrow> string list" where
  "esp_mcopy_args fname baseDir =
     [''env'', ''MTOOLS_SKIP_CHECK=1'', ''mcopy'', ''-s'', ''-v'', ''-i'', fname,
      path_Join [baseDir, ''efi''], ''::efi'']"

text \<open>The failure of Ftruncate is \<open>log.Fatalf\<close>: the process exits with status 1.\<close>

definition genESP :: "programs \<Rightarrow> string \<Rightarrow> string \<Rightarrow> unit io" where
  "genESP P fname baseDir =
     bindE (getDirSize baseDir) (\<lambda>treeSize.
     bindE (wrapE (\<lambda>err. WrapError (''Failed to open '' @ fname @ '' for Create: '' @ error_text err) err)
              (os_OpenFile fname [O_RDWR, O_CREATE, O_EXCL] mode_0644)) (\<lambda>fp.
     bindE (catchE (f_Truncate fp (esp_size treeSize)) (\<lambda>err. exitE 1)) (\<lambda>_.
     bindE (wrapE (\<lambda>err. ErrorString (''Failed to close file '' @ fname)) (f_Close fp)) (\<lambda>_.
     bindE (wrapE (\<lambda>err. WrapError (''mkfs.fat failed: '' @ error_text err) err)
              (RunCommand P [''mkfs.fat'', ''-s'', ''1'', ''-F'', ''32'', ''-n'', ''EFIBOOT'', fname])) (\<lambda>_.
     RunCommand P (esp_mcopy_args fname baseDir))))))"

definition OciBoot_genESP :: "('e, 'm, 'f, 'h) tools \<Rightarrow> OciBoot \<Rightarrow> ISOOptions \<Rightarrow> string \<Rightarrow> unit io" where
  "OciBoot_genESP T b opts fname =
     bindE (os_MkdirTemp [] ''genESP-'') (\<lambda>tmpd.
     deferE (os_RemoveAll tmpd)
       (bindE (PopulateEFI T b (iso_EFIBootMode opts) (iso_CommandLine opts) tmpd) (\<lambda>_.
        genESP (t_progs T) fname tmpd)))"

section \<open>Effects\<close>

lemma quiet_PopulateEFI [respects_intros]: "io_respects quiet_rel (PopulateEFI T b mode cmdline destd)"
  unfolding PopulateEFI_def efi_mode_def by (intro respects_intros)

lemmas calm_PopulateEFI [respects_intros] = quiet_PopulateEFI [THEN quiet_imp_calm]

lemmas noexit_PopulateEFI [respects_intros] = quiet_PopulateEFI [THEN quiet_imp_noexit]

lemma quiet_getDirSize [respects_intros]: "io_respects quiet_rel (getDirSize d)"
  unfolding getDirSize_def size_fn_def by (intro respects_intros)

lemmas calm_getDirSize [respects_intros] = quiet_getDirSize [THEN quiet_imp_calm]

lemmas noexit_getDirSize [respects_intros] = quiet_getDirSize [THEN quiet_imp_noexit]

lemma calm_genESP [respects_intros]: "io_respects (calm_rel D) (genESP P fname baseDir)"
  unfolding genESP_def by (intro respects_intros)

lemma calm_OciBoot_genESP [respects_intros]: "io_respects (calm_rel D) (OciBoot_genESP T b opts fname)"
  unfolding OciBoot_genESP_def by (intro respects_intros)

lemma calm_run_cleanup [respects_intros]: "io_respects (calm_rel D) (run_cleanup c)"
  by (cases c) (auto simp: run_cleanup_def intro: respects_intros)

lemma noexit_run_cleanup [respects_intros]: "io_respects noexit_rel (run_cleanup c)"
  by (cases c) (auto simp: run_cleanup_def intro: respects_intros)

section \<open>The size of the EFI partition\<close>

lemma bit_len_bound: "n < 2 ^ bit_len n"
proof (induction n rule: bit_len.induct)
  case (1 n)
  then show ?case by (cases "n = 0") (subst bit_len.simps, simp, subst bit_len.simps, auto)
qed

lemma bit_len_le: "n \<noteq> 0 \<Longrightarrow> 2 ^ (bit_len n - 1) \<le> n"
proof (induction n rule: bit_len.induct)
  case (1 n)
  show ?case
  proof (cases "n div 2 = 0")
    case True
    with 1 have "n = 1" by linarith
    then show ?thesis by (simp add: bit_len.simps)
  next
    case False
    with 1 have IH: "2 ^ (bit_len (n div 2) - 1) \<le> n div 2" by simp
    have "bit_len (n div 2) \<noteq> 0" using False by (subst bit_len.simps) simp
    then obtain k where k: "bit_len (n div 2) = Suc k" by (cases "bit_len (n div 2)") auto
    have "bit_len n = Suc (Suc k)" using "1.prems" k by (subst bit_len.simps) simp
    with IH k show ?thesis by simp
  qed
qed

text \<open>Rounding to nearest is off by half a unit in the last of 53 places at most.\<close>

lemma half_unit:
  fixes x q r z b :: nat
  assumes "x = q * b + r" and "r < b" and "z = q \<and> 2 * r \<le> b \<or> z = q + 1 \<and> b \<le> 2 * r"
  shows "2 * (z * b) \<le> 2 * x + b \<and> 2 * x \<le> 2 * (z * b) + b"
  using assms by (auto simp: algebra_simps)

lemma round_shift_bounds:
  "2 * (round_shift s x * 2 ^ s) \<le> 2 * x + 2 ^ s \<and> 2 * x \<le> 2 * (round_shift s x * 2 ^ s) + 2 ^ s"
  by (rule half_unit [OF div_mult_mod_eq [symmetric]]) (auto simp: round_shift_def Let_def)

lemma round53_bounds: "round53 x * 2 ^ 53 \<le> x * 2 ^ 53 + x \<and> x * 2 ^ 53 \<le> round53 x * 2 ^ 53 + x"
proof (cases "x = 0")
  case True
  then show ?thesis by (simp add: round53_def round_shift_def bit_len.simps)
next
  case False
  define s where "s = bit_len x - 53"
  have b: "2 * round53 x \<le> 2 * x + 2 ^ s" "2 * x \<le> 2 * round53 x + 2 ^ s"
    using round_shift_bounds [of s x] by (simp_all add: round53_def s_def Let_def)
  show ?thesis
  proof (cases "s = 0")
    case True
    then have "round53 x = x" by (simp add: round53_def s_def Let_def round_shift_def)
    then show ?thesis by simp
  next
    case s: False
    have "bit_len x - 1 = s + 52" using s by (simp add: s_def)
    with bit_len_le [OF False] have "2 ^ s * 2 ^ 52 \<le> x" by (simp add: power_add)
    then show ?thesis using b by (auto simp: algebra_simps)
  qed
qed

lemma round53_small: "x < 2 ^ 53 \<Longrightarrow> round53 x = x"
proof -
  assume x: "x < 2 ^ 53"
  have "bit_len x \<le> 53"
  proof (cases "x = 0")
    case True
    then show ?thesis by (simp add: bit_len.simps)
  next
    case False
    from bit_len_le [OF this] x have "(2::nat) ^ (bit_len x - 1) < 2 ^ 53" by (rule le_less_trans)
    then have "bit_len x - 1 < 53" by (rule power_less_imp_less_exp [rotated]) simp
    then show ?thesis by simp
  qed
  then show ?thesis by (simp add: round53_def Let_def round_shift_def)
qed

lemma overhead_lower:
  fixes n r :: nat
  assumes "n * 4728779608739021 * 9007199254740992 \<le> r * 9007199254740992 + n * 4728779608739021"
  shows "n * 4503599627370496 \<le> r"
  using assms by linarith

lemma overhead_upper:
  fixes n r :: nat
  assumes "r * 9007199254740992 \<le> n * 4728779608739021 * 9007199254740992 + n * 4728779608739021"
    and "n < 4503599627370496"
  shows "20 * r \<le> 21 * (n * 4503599627370496) + 90071992547409919"
  using assms by linarith

text \<open>
  The file for the EFI partition is made at least as large as the tree that goes into it and
  at most 5 percent (rounded up) larger, for every tree below 2^52 bytes: the rounding of the
  floating-point product \<open>float64(treeSize) * 1.05\<close> never makes it too small.
\<close>

lemma esp_size_bounds:
  assumes "unat treeSize < 2 ^ 52"
  shows "int (unat treeSize) \<le> esp_size treeSize \<and>
    20 * esp_size treeSize \<le> 21 * int (unat treeSize) + 20"
proof -
  let ?n = "unat treeSize"
  define p where "p = ?n * overhead_num"
  define r where "r = round53 p"
  have r: "r * 2 ^ 53 \<le> p * 2 ^ 53 + p" "p * 2 ^ 53 \<le> r * 2 ^ 53 + p"
    using round53_bounds [of p] by (simp_all add: r_def)
  have w: "with_overhead ?n = r div 2 ^ 52"
    using assms by (simp add: with_overhead_def r_def p_def round53_small)
  have lo: "?n * 2 ^ 52 \<le> r"
    using overhead_lower [of ?n r] r(2) by (simp add: p_def overhead_num_def)
  have hi: "20 * r \<le> 21 * (?n * 2 ^ 52) + (20 * 2 ^ 52 - 1)"
    using overhead_upper [of r ?n] r(1) assms by (simp add: p_def overhead_num_def)
  have "?n \<le> r div 2 ^ 52" using lo by (simp add: less_eq_div_iff_mult_less_eq)
  moreover have "20 * (r div 2 ^ 52) \<le> 21 * ?n + 20"
  proof -
    have "20 * (r div 2 ^ 52) * 2 ^ 52 \<le> 20 * r" by (simp add: div_times_less_eq_dividend)
    with hi have "20 * (r div 2 ^ 52) * 2 ^ 52 \<le> (21 * ?n + 20) * 2 ^ 52" by (simp add: algebra_simps)
    then show ?thesis by simp
  qed
  moreover have "esp_size treeSize = int (with_overhead ?n)"
  proof -
    have "sint treeSize = int ?n"
    proof -
      have "signed_take_bit 63 (int n) = int n" if "n < 4503599627370496" for n :: nat
        using that by (intro signed_take_bit_int_eq_self) simp_all
      from this [of ?n] assms show ?thesis by (simp add: sint_uint)
    qed
    then show ?thesis by (simp add: esp_size_def)
  qed
  ultimately show ?thesis unfolding w by linarith
qed

end
