(* ===== verification/Oci_Boot.thy ===== *)
theory Oci_Boot
  imports Esp
begin

text \<open>
  The command oci-boot (go/cmd/oci-boot/main.go): copying images (doCopy, ociExtractRef),
  finding the bootkit (getBootKit), filling the medium (Populate), and the two products, the
  disk (CreateDisk) and the iso (Create), with doMain above them. The methods that change
  their receiver run on a pair of the world and the OciBoot value.
\<close>

section \<open>Copying and extracting images\<close>

definition doCopy :: "('e, 'm) oci_lib \<Rightarrow> string \<Rightarrow> string \<Rightarrow> unit io" where
  "doCopy L src dest =
     bindE (newOciPath src layoutNone) (\<lambda>dpSrc.
     bindE (newOciPath dest layoutTree) (\<lambda>dpDest.
     bindE (wrapE (\<lambda>err. ErrorString (''Failed to create directory '' @ OciDir dpDest @ '' for '' @
                ociPath_String dpDest))
              (os_MkdirAll (OciDir dpDest) mode_0755)) (\<lambda>_.
     wrapE (\<lambda>err. ErrorString (''Failed copy '' @ ociPath_String dpSrc @ '' -> '' @
              ociPath_String dpDest @ nl))
       (lib_call ''lib.ImageCopy'' [ociPath_String dpSrc, ociPath_String dpDest]
          (ImageCopy L (ociPath_String dpSrc) (ociPath_String dpDest))))))"

definition ociExtractRef :: "programs \<Rightarrow> ('e, 'm) oci_lib \<Rightarrow> string \<Rightarrow> string \<Rightarrow> unit io" where
  "ociExtractRef P L img dest =
     bindE (os_MkdirTemp [] ''extractRef-'') (\<lambda>tmpOciDir.
     deferE (os_RemoveAll tmpOciDir)
       (bindE (newOciPath (''oci:'' @ tmpOciDir @ '':'' @ ''xxextract'') layoutTree) (\<lambda>dp.
        bindE (wrapE (\<lambda>err. WrapError (''copy '' @ img @ '' -> '' @ ociPath_String dp @ '' failed: '' @
                   error_text err) err)
                 (doCopy L img (ociPath_String dp))) (\<lambda>_.
        bindE (lib_query (OpenLayout L (OciDir dp))) (\<lambda>oci.
        deferE (lib_call ''oci.Close'' [] (Engine_Close L oci))
          (unpackLayerRootfs P L (OciDir dp) oci (RefName dp) dest))))))"

section \<open>The bootkit\<close>

definition is_oci_ref :: "string \<Rightarrow> bool" where
  "is_oci_ref ref \<longleftrightarrow> HasPrefix ref ''oci:'' \<or> HasPrefix ref ''docker:''"

text \<open>
  getBootKit returns its cleanup function and the path together with the error. The loop
  over what is required looks at the directory and records nothing, so errmsgs stays empty.
\<close>

definition getBootKit_tail :: "cleanup \<Rightarrow> string \<Rightarrow> (cleanup \<times> string \<times> goerror option) io" where
  "getBootKit_tail cl path0 =
     bindE (oci_PathExists (path_Join [path0, ''export''])) (\<lambda>ex.
     let path = (if ex then path_Join [path0, ''export''] else path0) in
     bindE (forE [''bootkit''] (\<lambda>r.
              bindE (oci_isDir (path_Join [path, r])) (\<lambda>d. returnE ()))) (\<lambda>_.
     returnE (cl, path, None)))"

definition getBootKit :: "programs \<Rightarrow> ('e, 'm) oci_lib \<Rightarrow> string \<Rightarrow>
    (cleanup \<times> string \<times> goerror option) io" where
  "getBootKit P L ref =
     (if is_oci_ref ref then
        bindE (attemptE (os_MkdirTemp [] ''getBootKit-'')) (\<lambda>r.
          case r of
            Inl err \<Rightarrow> returnE (NoCleanup, [], Some err)
          | Inr tmpd \<Rightarrow>
              bindE (attemptE (ociExtractRef P L ref tmpd)) (\<lambda>r.
                case r of
                  Inl err \<Rightarrow> returnE (RemoveDir tmpd, tmpd, Some err)
                | Inr u \<Rightarrow> getBootKit_tail (RemoveDir tmpd) tmpd))
      else
        bindE (attemptE (filepath_Abs ref)) (\<lambda>r.
          getBootKit_tail NoCleanup (case r of Inl err \<Rightarrow> [] | Inr p \<Rightarrow> p)))"

section \<open>The medium\<close>

definition populate_layer :: "('e, 'm) oci_lib \<Rightarrow> string \<Rightarrow> string \<Rightarrow> unit io" where
  "populate_layer L ociDest src =
     bindE (newOciPath src layoutNone) (\<lambda>dSrc.
       let dest = ociDest @ NameAndTag dSrc in
       wrapE (\<lambda>err. WrapError (''Failed to copy '' @ src @ '' -> '' @ dest @ '': '' @ error_text err) err)
         (doCopy L src dest))"

definition Populate :: "('e, 'm, 'f, 'h) tools \<Rightarrow> OciBoot \<Rightarrow> string \<Rightarrow> unit io" where
  "Populate T b target =
     (let ociDir = path_Join [target, ''oci'']; repoDir = path_Join [target, ''zot-cache''];
          modSquashDest = path_Join [target, ''krd'', ''modules.squashfs''] in
      bindE (if BootLayer b \<noteq> [] then
               wrapE (\<lambda>err. WrapError (''Failed to copy image from BootLayer '' @ [CHR 0x27] @ BootLayer b @
                        [CHR 0x27] @ '': '' @ error_text err) err)
                 (doCopy (t_oci T) (BootLayer b) (''oci:'' @ ociDir @ '':'' @ BootLayerName))
             else returnE ()) (\<lambda>_.
      bindE (if RepoDir b \<noteq> [] then
               wrapE (\<lambda>err. WrapError (''Failed syncing '' @ RepoDir b @ ''/'' @ ''/ -> '' @ repoDir @ ''/'' @
                        '': '' @ error_text err) err)
                 (RunCommand (t_progs T) [''rsync'', ''-va'', RepoDir b @ ''/'', repoDir @ ''/''])
             else returnE ()) (\<lambda>_.
      bindE (if length (Layers b) \<noteq> 0 then
               forE (Layers b) (populate_layer (t_oci T) (''oci:'' @ ociDir @ '':''))
             else returnE ()) (\<lambda>_.
      bindE (wrapE (\<lambda>err. ErrorString (''Failed to create directory for modules.squashfs: '' @ error_text err))
               (os_MkdirAll (path_Dir modSquashDest) mode_0755)) (\<lambda>_.
      bindE (wrapE (\<lambda>err. ErrorString (''Failed to copy modules.squashfs to media: '' @ error_text err))
               (copyFile (path_Join [bootKitDir b, ''bootkit/modules.squashfs'']) modSquashDest)) (\<lambda>_.
      forE (t_iter T (Files b)) (\<lambda>(src, dest).
        wrapE (\<lambda>err. WrapError (''Failed to copy file '' @ [CHR 0x27] @ src @ [CHR 0x27] @
                 '' to iso path '' @ [CHR 0x27] @ dest @ [CHR 0x27] @ '': '' @ error_text err) err)
          (copyFile src (path_Join [target, dest])))))))))"

definition writeTemp :: "bytes \<Rightarrow> string io" where
  "writeTemp content =
     bindE (os_CreateTemp [] ''writeTemp'') (\<lambda>fh.
     bindE (f_Write fh content) (\<lambda>(n, err).
       case err of
         Some e \<Rightarrow> bindE (attemptE (os_Remove (f_name fh))) (\<lambda>_. throwE e)
       | None \<Rightarrow> bindE (catchE (f_Close fh) (\<lambda>e.
             bindE (attemptE (os_Remove (f_name fh))) (\<lambda>_. throwE e))) (\<lambda>_.
           returnE (f_name fh))))"

section \<open>Methods that change the receiver\<close>

type_synonym 'a ob = "(world \<times> OciBoot, 'a) gofun"

definition liftW :: "'a io \<Rightarrow> 'a ob" where
  "liftW m s = (case m (fst s) of (r, w) \<Rightarrow> (r, (w, snd s)))"

definition modifyO :: "(OciBoot \<Rightarrow> OciBoot) \<Rightarrow> unit ob" where
  "modifyO f s = (Ok (), (fst s, f (snd s)))"

definition OciBoot_getBootKit :: "('e, 'm, 'f, 'h) tools \<Rightarrow> unit ob" where
  "OciBoot_getBootKit T =
     bindE (getE snd) (\<lambda>b.
       if bootKitDir b \<noteq> [] then returnE ()
       else bindE (liftW (getBootKit (t_progs T) (t_oci T) (BootKit b))) (\<lambda>(cl, path, err).
            bindE (modifyO (\<lambda>b. b\<lparr>cleanups := cleanups b @ [cl]\<rparr>)) (\<lambda>_.
              case err of
                Some e \<Rightarrow> throwE e
              | None \<Rightarrow> modifyO (\<lambda>b. b\<lparr>bootKitDir := path\<rparr>))))"

fun run_cleanups :: "cleanup list \<Rightarrow> unit io" where
  "run_cleanups [] = returnE ()"
| "run_cleanups (c # cs) = bindE (run_cleanup c) (\<lambda>_. run_cleanups cs)"

definition OciBoot_Cleanup :: "unit ob" where
  "OciBoot_Cleanup = bindE (getE snd) (\<lambda>b. liftW (run_cleanups (cleanups b)))"

definition default_size :: int where
  "default_size = 1 * 1024 * 1024 * 1024"

text \<open>CreateDisk after getBootKit; the receiver is only read from here on.\<close>

definition disk_body :: "('e, 'm, 'f, 'h) tools \<Rightarrow> string \<Rightarrow> DiskOptions \<Rightarrow> OciBoot \<Rightarrow> unit io" where
  "disk_body T diskFile opts b =
     bindE (os_MkdirTemp [] ''OciBootCreate-'') (\<lambda>tmpd.
     deferE (os_RemoveAll tmpd)
       (bindE (Populate T b tmpd) (\<lambda>_.
        bindE (PopulateEFI T b (dsk_EFIBootMode opts) (dsk_CommandLine opts) tmpd) (\<lambda>_.
        bindE (genGptDisk (t_disko T) diskFile
                 (if dsk_Size opts = 0 then default_size else dsk_Size opts)) (\<lambda>disk.
          let p = (case dk_Partitions disk 1 of None \<Rightarrow> zero_Partition | Some p \<Rightarrow> p);
              fsSize = sint (Partition_Size (t_disko T) p); fsStart = sint (p_Start p) in
          if dsk_Impl opts = ImplDiskfs then
            createAndCopyToFat32DiskFS (t_fat T) tmpd diskFile fsStart fsSize
          else createAndCopyToFat32Mtools (t_progs T) tmpd diskFile fsStart fsSize)))))"

definition CreateDisk :: "('e, 'm, 'f, 'h) tools \<Rightarrow> string \<Rightarrow> DiskOptions \<Rightarrow> unit ob" where
  "CreateDisk T diskFile opts =
     bindE (OciBoot_getBootKit T) (\<lambda>_.
     bindE (getE snd) (\<lambda>b. liftW (disk_body T diskFile opts b)))"

definition xorriso_args :: "string \<Rightarrow> string list \<Rightarrow> string \<Rightarrow> string list" where
  "xorriso_args isoFile mkopts tmpd =
     [''xorriso'', ''-compliance'', ''iso_9660_level=3'', ''-as'', ''mkisofs'', ''-o'', isoFile,
      ''-V'', ISOLabel] @ mkopts @ [tmpd]"

definition iso_body :: "('e, 'm, 'f, 'h) tools \<Rightarrow> string \<Rightarrow> ISOOptions \<Rightarrow> OciBoot \<Rightarrow> unit io" where
  "iso_body T isoFile opts b =
     bindE (os_MkdirTemp [] ''OciBootCreate-'') (\<lambda>tmpd.
     deferE (os_RemoveAll tmpd)
       (let imgPath = path_Join [tmpd, PathESPImage] in
        bindE (wrapE (\<lambda>err. ErrorString (''Could not make dir for '' @ PathESPImage @ '' in tmpdir: '' @
                   error_text err))
                 (os_MkdirAll (path_Dir imgPath) mode_0755)) (\<lambda>_.
        bindE (OciBoot_genESP T b opts imgPath) (\<lambda>_.
        bindE (Populate T b tmpd) (\<lambda>_.
        bindE (fromSum (MkisofsArgs opts)) (\<lambda>mkopts.
        RunCommand (t_progs T) (xorriso_args isoFile mkopts tmpd)))))))"

definition Create :: "('e, 'm, 'f, 'h) tools \<Rightarrow> string \<Rightarrow> ISOOptions \<Rightarrow> unit ob" where
  "Create T isoFile opts =
     (case ISOOptions_Check opts of
        Some err \<Rightarrow> throwE err
      | None \<Rightarrow>
          bindE (OciBoot_getBootKit T) (\<lambda>_.
          bindE (getE snd) (\<lambda>b. liftW (iso_body T isoFile opts b))))"

section \<open>doMain\<close>

text \<open>The files of the flag insert, as the map \<open>ociBoot.Files\<close> they are stored in.\<close>

fun insert_files :: "(string \<times> string) list \<Rightarrow> string list \<Rightarrow> goerror + (string \<times> string) list" where
  "insert_files m [] = Inr m"
| "insert_files m (p # ps) =
     (let toks = split_on_n 2 colon p in
      if length toks \<noteq> 2 then
        Inl (ErrorString (''--insert arg had no '' @ [CHR 0x27] @ ''dest'' @ [CHR 0x27] @ '' (src:dest): '' @ p))
      else insert_files (AList.update (toks ! 0) (toks ! 1) m) ps)"

definition boot_flag_error :: "string \<Rightarrow> goerror" where
  "boot_flag_error mode =
     ErrorString (''Unexpected --boot='' @ mode @ ''. Expect one of: map[efi-auto:0 efi-kernel:2 efi-shim:1]'')"

text \<open>What doMain makes of its arguments and flags before anything is done.\<close>

definition parse_args :: "cli_ctx \<Rightarrow> goerror + (OciBoot \<times> BootMode)" where
  "parse_args ctx =
     (let args = ctx_Args ctx in
      if length args < 2 then
        Inl (ErrorString ''Need at very least 2 args: output, bootkit-source'')
      else
        case insert_files [] (ctx_StringSlice ctx ''insert'') of
          Inl err \<Rightarrow> Inl err
        | Inr files \<Rightarrow>
            (case EFIBootModeStrings (ctx_String ctx ''boot'') of
               None \<Rightarrow> Inl (boot_flag_error (ctx_String ctx ''boot''))
             | Some n \<Rightarrow>
                 Inr (\<lparr>BootKit = args ! 1,
                       BootLayer = (if length args > 2 then args ! 2 else []),
                       Files = files,
                       Layers = (if length args > 3 then drop 3 args else []),
                       cleanups = [], bootKitDir = [],
                       RepoDir = (if ctx_IsSet ctx ''sync-repodir'' then ctx_String ctx ''sync-repodir'' else [])\<rparr>,
                      n)))"

definition doMain_body :: "('e, 'm, 'f, 'h) tools \<Rightarrow> cli_ctx \<Rightarrow> BootMode \<Rightarrow> unit ob" where
  "doMain_body T ctx efiMode =
     deferE OciBoot_Cleanup
       (if ctx_Bool ctx ''cdrom'' then
          Create T (ctx_Args ctx ! 0)
            \<lparr>iso_EFIBootMode = efiMode, iso_CommandLine = ctx_String ctx ''cmdline''\<rparr>
        else
          CreateDisk T (ctx_Args ctx ! 0)
            \<lparr>dsk_EFIBootMode = efiMode, dsk_CommandLine = ctx_String ctx ''cmdline'', dsk_Size = 0,
             dsk_Impl = (if ctx_Bool ctx ''use-diskfs'' then ImplDiskfs else [])\<rparr>)"

definition doMain :: "('e, 'm, 'f, 'h) tools \<Rightarrow> cli_ctx \<Rightarrow> unit io" where
  "doMain T ctx w =
     (case parse_args ctx of
        Inl err \<Rightarrow> (Err err, w)
      | Inr (b, efiMode) \<Rightarrow>
          (case doMain_body T ctx efiMode (w, b) of (r, (w', b')) \<Rightarrow> (r, w')))"

section \<open>Effects\<close>

lemma calm_doCopy [respects_intros]: "io_respects (calm_rel D) (doCopy L src dest)"
  unfolding doCopy_def by (intro respects_intros)

lemma noexit_doCopy [respects_intros]: "io_respects noexit_rel (doCopy L src dest)"
  unfolding doCopy_def by (intro respects_intros)

lemma calm_ociExtractRef [respects_intros]:
  "atomfs_mounts L \<Longrightarrow> io_respects (calm_rel D) (ociExtractRef P L img dest)"
  unfolding ociExtractRef_def by (intro respects_intros)

lemma noexit_ociExtractRef [respects_intros]: "io_respects noexit_rel (ociExtractRef P L img dest)"
  unfolding ociExtractRef_def by (intro respects_intros)

lemma quiet_getBootKit_tail [respects_intros]: "io_respects quiet_rel (getBootKit_tail cl p)"
  unfolding getBootKit_tail_def Let_def by (intro respects_intros)

lemmas calm_getBootKit_tail [respects_intros] = quiet_getBootKit_tail [THEN quiet_imp_calm]

lemmas noexit_getBootKit_tail [respects_intros] = quiet_getBootKit_tail [THEN quiet_imp_noexit]

lemma noexit_getBootKit [respects_intros]: "io_respects noexit_rel (getBootKit P L ref)"
  unfolding getBootKit_def by (intro respects_intros)

lemma calm_Populate [respects_intros]: "io_respects (calm_rel D) (Populate T b target)"
  unfolding Populate_def populate_layer_def Let_def by (intro respects_intros)

lemma noexit_Populate [respects_intros]: "io_respects noexit_rel (Populate T b target)"
  unfolding Populate_def populate_layer_def Let_def by (intro respects_intros)

lemma calm_disk_body [respects_intros]: "io_respects (calm_rel D) (disk_body T diskFile opts b)"
  unfolding disk_body_def Let_def by (intro respects_intros)

lemma noexit_disk_body [respects_intros]: "io_respects noexit_rel (disk_body T diskFile opts b)"
  unfolding disk_body_def Let_def by (intro respects_intros)

lemma calm_iso_body [respects_intros]: "io_respects (calm_rel D) (iso_body T isoFile opts b)"
  unfolding iso_body_def Let_def by (intro respects_intros)

section \<open>Cleaning up\<close>

text \<open>
  getBootKit always hands back a cleanup function, with the error as a value: it panics or
  returns, and what it left uncleaned is below the directory its cleanup removes.
\<close>

definition noerr :: "('s, 'a) gofun \<Rightarrow> bool" where
  "noerr m \<longleftrightarrow> (\<forall>s e s'. m s \<noteq> (Err e, s'))"

lemma noerr_return: "noerr (returnE x)"
  by (simp add: noerr_def io_run)

lemma noerr_attempt: "noerr (attemptE m)"
  by (auto simp: noerr_def attemptE_def catchE_def bindE_def io_run split: prod.splits outcome.splits)

lemma noerr_bind: "noerr m \<Longrightarrow> (\<And>x. noerr (k x)) \<Longrightarrow> noerr (bindE m k)"
  unfolding noerr_def bindE_def by (auto split: prod.splits outcome.splits)

lemma noerr_PathExists: "noerr (oci_PathExists p)"
  unfolding oci_PathExists_def by (intro noerr_bind noerr_attempt noerr_return)

lemma noerr_isDir: "noerr (oci_isDir p)"
  unfolding oci_isDir_def
  by (intro noerr_bind noerr_attempt) (auto split: sum.split intro!: noerr_bind noerr_attempt noerr_return)

lemma noerr_tail: "noerr (getBootKit_tail cl p)"
  unfolding getBootKit_tail_def Let_def
  by (auto simp: thenE_def intro!: noerr_bind noerr_PathExists noerr_isDir noerr_return)

lemma noerr_getBootKit: "noerr (getBootKit P L ref)"
  unfolding getBootKit_def
  by (auto intro!: noerr_bind noerr_attempt noerr_return noerr_tail split: sum.split)

definition covered :: "cleanup \<Rightarrow> string \<Rightarrow> bool" where
  "covered cl p \<longleftrightarrow> (\<exists>d. cl = RemoveDir d \<and> d \<noteq> [] \<and> under d p)"

lemma getBootKit_tail_cl:
  "getBootKit_tail cl p w = (Ok (cl', path, err), w') \<Longrightarrow> cl' = cl"
  by (auto simp: getBootKit_tail_def Let_def bindE_Ok returnE_Ok)

lemma getBootKit_covered:
  assumes "atomfs_mounts L" and "getBootKit P L ref w = (Ok (cl, path, err), w')"
  shows "calm_rel (covered cl) w False w'"
proof (cases "is_oci_ref ref")
  case False
  then have "io_respects (calm_rel (covered cl)) (getBootKit P L ref)"
    unfolding getBootKit_def by (auto intro!: respects_intros)
  from io_respectsD [OF this assms(2)] show ?thesis by simp
next
  case True
  with assms(2) obtain r v where md: "attemptE (os_MkdirTemp [] ''getBootKit-'') w = (Ok r, v)"
    and k: "(case r of
          Inl err \<Rightarrow> returnE (NoCleanup, [], Some err)
        | Inr tmpd \<Rightarrow>
              bindE (attemptE (ociExtractRef P L ref tmpd)) (\<lambda>r.
                case r of
                  Inl err \<Rightarrow> returnE (RemoveDir tmpd, tmpd, Some err)
                | Inr u \<Rightarrow> getBootKit_tail (RemoveDir tmpd) tmpd)) v = (Ok (cl, path, err), w')"
    by (auto simp: getBootKit_def bindE_Ok)
  show ?thesis
  proof (cases r)
    case (Inl e)
    with md obtain e where "os_MkdirTemp [] ''getBootKit-'' w = (Err e, v)" by (auto simp: attemptE_Ok)
    from MkdirTemp_run [OF this] Inl k show ?thesis by (auto simp: calm_rel_def returnE_Ok)
  next
    case (Inr d)
    with md have "os_MkdirTemp [] ''getBootKit-'' w = (Ok d, v)" by (auto simp: attemptE_Ok)
    from MkdirTemp_run [OF this] have v: "same_env w v" "trace v = trace w @ [EvTemp d]" "d \<noteq> []"
      by (auto simp: temp_path_ends)
    from Inr k obtain q u where a: "attemptE (ociExtractRef P L ref d) v = (Ok q, u)"
      and k': "(case q of Inl err \<Rightarrow> returnE (RemoveDir d, d, Some err)
                | Inr u \<Rightarrow> getBootKit_tail (RemoveDir d) d) u = (Ok (cl, path, err), w')"
      by (auto simp: bindE_Ok)
    have cl: "cl = RemoveDir d"
      using k' by (cases q) (auto simp: returnE_Ok dest: getBootKit_tail_cl)
    have c1: "calm_rel (covered cl) w False v"
      using v by (auto simp: calm_rel_def covered_def cl under_def)
    have e: "io_respects (calm_rel (covered cl)) (attemptE (ociExtractRef P L ref d))"
      using assms(1) by (intro respects_intros)
    have c2: "calm_rel (covered cl) v False u" using io_respectsD [OF e a] by simp
    have f: "io_respects (calm_rel (covered cl)) (case q of Inl err \<Rightarrow> returnE (RemoveDir d, d, Some err)
                | Inr u \<Rightarrow> getBootKit_tail (RemoveDir d) d)"
      by (intro respects_intros)
    have c3: "calm_rel (covered cl) u False w'" using io_respectsD [OF f k'] by simp
    show ?thesis by (rule calm_rel_trans [OF calm_rel_trans [OF c1 c2] c3])
  qed
qed

text \<open>
  The state of a run of Create or CreateDisk that began without cleanups: at most one cleanup
  is registered, and it covers whatever is left uncleaned.
\<close>

definition tracked :: "world \<Rightarrow> world \<times> OciBoot \<Rightarrow> bool" where
  "tracked w s \<longleftrightarrow> same_env w (fst s) \<and>
     (cleanups (snd s) = [] \<and> calm_rel (\<lambda>_. False) w False (fst s) \<or>
      (\<exists>cl. cleanups (snd s) = [cl] \<and> calm_rel (covered cl) w False (fst s)))"

lemma tracked_calm:
  assumes "tracked w (v, b)" and "calm_rel (\<lambda>_. False) v False v'"
  shows "tracked w (v', b)"
proof -
  have weak: "calm_rel D v False v'" for D using assms(2) by (auto simp: calm_rel_def)
  have "same_env w v'" using assms by (auto simp: tracked_def calm_rel_def intro: same_env_trans)
  with assms(1) weak show ?thesis unfolding tracked_def by (auto intro: calm_rel_trans)
qed

lemma getBootKit_tracked:
  assumes "atomfs_mounts (t_oci T)" and "cleanups b = []" and "bootKitDir b = []"
    and "OciBoot_getBootKit T (w, b) = (r, s)" and "is_Ok r \<or> (\<exists>e. r = Err e)"
  shows "tracked w s"
proof -
  obtain q v where g: "getBootKit (t_progs T) (t_oci T) (BootKit b) w = (q, v)" by fastforce
  show ?thesis
  proof (cases q)
    case (Ok x)
    obtain cl path err where x: "x = (cl, path, err)" by (cases x)
    from getBootKit_covered [OF assms(1) g [unfolded Ok x]] have c: "calm_rel (covered cl) w False v" .
    from assms(2-4) g Ok x have "fst s = v \<and> cleanups (snd s) = [cl]"
      by (auto simp: OciBoot_getBootKit_def bindE_def io_run liftW_def modifyO_def split: option.splits)
    with c show ?thesis by (simp add: tracked_def calm_rel_def)
  next
    case (Err e)
    with g noerr_getBootKit [of "t_progs T" "t_oci T" "BootKit b"] show ?thesis
      by (auto simp: noerr_def)
  qed (use assms g in \<open>auto simp: OciBoot_getBootKit_def bindE_def io_run liftW_def\<close>)
qed

lemma tracked_after_body:
  assumes "tracked w s" and "io_respects (calm_rel (\<lambda>_. False)) m" and "m (fst s) = (r, v)"
    and "\<not> is_Exit r"
  shows "tracked w (v, snd s)"
  using tracked_calm [of w "fst s" "snd s" v] io_respectsD [OF assms(2,3)] assms(1,4) by simp

lemma tracked_cleanup:
  assumes "tracked w s" and "OciBoot_Cleanup s = (r, s')"
  shows "\<exists>t. trace (fst s') = trace w @ t \<and> uncleaned t = []"
proof -
  obtain v b where s: "s = (v, b)" by (cases s)
  have calm_nil: "\<exists>t. trace u = trace w @ t \<and> uncleaned t = []" if "calm_rel (\<lambda>_. False) w False u" for u
    using that unfolding calm_rel_def by (metis list.set_intros(1) neq_Nil_conv)
  from assms(1) s consider "cleanups b = []" "calm_rel (\<lambda>_. False) w False v"
    | cl where "cleanups b = [cl]" "calm_rel (covered cl) w False v"
    by (auto simp: tracked_def)
  then show ?thesis
  proof cases
    case 1
    with assms(2) s calm_nil show ?thesis
      by (auto simp: OciBoot_Cleanup_def bindE_def io_run liftW_def)
  next
    case (2 cl)
    show ?thesis
    proof (cases cl)
      case NoCleanup
      with 2 have "calm_rel (\<lambda>_. False) w False v" by (simp add: covered_def calm_rel_def)
      with 2 NoCleanup assms(2) s calm_nil show ?thesis
        by (auto simp: OciBoot_Cleanup_def bindE_def io_run liftW_def run_cleanup_def)
    next
      case (RemoveDir d)
      have v': "fst s' = snd (os_RemoveAll d v)"
        using assms(2) s 2 RemoveDir
        by (auto simp: OciBoot_Cleanup_def bindE_def io_run liftW_def run_cleanup_def
            split: prod.splits outcome.splits)
      from 2 RemoveDir obtain t where t: "trace v = trace w @ t" "\<forall>p \<in> set (uncleaned t). under d p \<and> d \<noteq> []"
        by (auto simp: calm_rel_def covered_def)
      show ?thesis
      proof (cases "d = []")
        case True
        with t v' show ?thesis by (auto simp: os_RemoveAll_def intro!: exI [of _ t])
      next
        case False
        have "p \<notin> set (uncleaned (t @ [EvRemoveAll d]))" for p
          using uncleaned_append [of p t "[EvRemoveAll d]"] t(2) by auto
        then have "uncleaned (t @ [EvRemoveAll d]) = []" by (metis list.set_intros(1) neq_Nil_conv)
        with t(1) v' False show ?thesis
          by (intro exI [of _ "t @ [EvRemoveAll d]"]) (simp add: RemoveAll_trace)
      qed
    qed
  qed
qed

lemma Create_tracked:
  assumes "atomfs_mounts (t_oci T)" and "cleanups b = []" and "bootKitDir b = []"
    and "Create T isoFile opts (w, b) = (r, s)" and "is_Ok r \<or> (\<exists>e. r = Err e)"
  shows "tracked w s"
proof -
  have start: "tracked w (w, b)" using assms(2) by (simp add: tracked_def calm_rel_def)
  obtain q v where g: "OciBoot_getBootKit T (w, b) = (q, v)" by (cases "OciBoot_getBootKit T (w, b)")
  show ?thesis
  proof (cases "ISOOptions_Check opts")
    case None
    show ?thesis
    proof (cases q)
      case (Ok u)
      with g have v: "tracked w v" by (intro getBootKit_tracked [OF assms(1-3) g]) simp
      from assms(4) g Ok None have "iso_body T isoFile opts (snd v) (fst v) = (r, fst s)" "snd s = snd v"
        by (auto simp: Create_def bindE_def io_run liftW_def split: prod.splits)
      with tracked_after_body [OF v calm_iso_body this(1)] assms(5) show ?thesis
        by (metis is_Exit.simps is_Ok.elims(2) prod.collapse)
    next
      case (Err e)
      with assms(4) g None getBootKit_tracked [OF assms(1-3) g] show ?thesis
        by (auto simp: Create_def bindE_def)
    qed (use assms(4,5) g None in \<open>auto simp: Create_def bindE_def\<close>)
  qed (use assms(4) start in \<open>auto simp: Create_def io_run\<close>)
qed

lemma CreateDisk_tracked:
  assumes "atomfs_mounts (t_oci T)" and "cleanups b = []" and "bootKitDir b = []"
    and "CreateDisk T disk opts (w, b) = (r, s)" and "is_Ok r \<or> (\<exists>e. r = Err e)"
  shows "tracked w s"
proof -
  obtain q v where g: "OciBoot_getBootKit T (w, b) = (q, v)" by (cases "OciBoot_getBootKit T (w, b)")
  show ?thesis
  proof (cases q)
    case (Ok u)
    with g have v: "tracked w v" by (intro getBootKit_tracked [OF assms(1-3) g]) simp
    from assms(4) g Ok have "disk_body T disk opts (snd v) (fst v) = (r, fst s)" "snd s = snd v"
      by (auto simp: CreateDisk_def bindE_def io_run liftW_def split: prod.splits)
    with tracked_after_body [OF v calm_disk_body this(1)] assms(5) show ?thesis
      by (metis is_Exit.simps is_Ok.elims(2) prod.collapse)
  next
    case (Err e)
    with assms(4) g getBootKit_tracked [OF assms(1-3) g] show ?thesis
      by (auto simp: CreateDisk_def bindE_def)
  qed (use assms(4,5) g in \<open>auto simp: CreateDisk_def bindE_def\<close>)
qed

lemma parse_args_fresh: "parse_args ctx = Inr (b, n) \<Longrightarrow> cleanups b = [] \<and> bootKitDir b = []"
  by (auto simp: parse_args_def Let_def split: if_splits sum.splits option.splits)


text \<open>The relation that the process goes on, on the pairs the methods run on.\<close>

definition pair_noexit :: "world \<times> OciBoot \<Rightarrow> bool \<Rightarrow> world \<times> OciBoot \<Rightarrow> bool" where
  "pair_noexit s x s' \<longleftrightarrow> \<not> x"

interpretation pair_noexit: io_effect pair_noexit
  by unfold_locales (auto simp: pair_noexit_def)

lemma pair_noexit_lift [respects_intros]: "io_respects noexit_rel m \<Longrightarrow> io_respects pair_noexit (liftW m)"
  by (auto simp: io_respects_def noexit_rel_def pair_noexit_def liftW_def split: prod.splits)
    (metis fst_conv)

lemma pair_noexit_modify [respects_intros]: "io_respects pair_noexit (modifyO f)"
  by (simp add: io_respects_def pair_noexit_def modifyO_def)

lemma noexit_run_cleanups [respects_intros]: "io_respects noexit_rel (run_cleanups cs)"
  by (induction cs) (auto intro!: respects_intros)

text \<open>A machine on which everything works, for the witnesses.\<close>

definition sample_tools :: "(unit, unit, unit, unit) tools" where
  "sample_tools = \<lparr>t_progs = idle_programs, t_oci = sample_oci,
     t_disko = \<lparr>FreeSpaces = (\<lambda>d. [\<lparr>fs_Start = 1048576, fs_Last = 2097151\<rparr>]), GenGUID = [], partid_EFI = [],
                CreatePartitions = (\<lambda>d ps m. (None, m)), Partition_Size = (\<lambda>p. p_Last p - p_Start p + 1)\<rparr>,
     t_fat = \<lparr>fat_Create = (\<lambda>f a b c l m. (Inr (), m)), fat_Mkdir = (\<lambda>f d m. (None, m)),
              fat_OpenFile = (\<lambda>f p m. (Inr (), m)), fat_Write = (\<lambda>h b m. (None, m)), fat_Close = (\<lambda>h m. (None, m))\<rparr>,
     t_iter = (\<lambda>xs. xs)\<rparr>"

definition kit_fs :: filesys where
  "kit_fs = [([''t''], Dir mode_0755), ([''k''], Dir mode_0755), ([''k'', ''bootkit''], Dir mode_0755),
     ([''k'', ''bootkit'', ''kernel.efi''], File mode_0644 [1]),
     ([''k'', ''bootkit'', ''shim.efi''], File mode_0644 [2]),
     ([''k'', ''bootkit'', ''modules.squashfs''], File mode_0644 [3])]"

definition boot_ctx :: "bool \<Rightarrow> string \<Rightarrow> cli_ctx" where
  "boot_ctx cdrom mode = (plain_ctx [''/disk.img'', ''/k''])
     \<lparr>ctx_String := (\<lambda>n. if n = ''boot'' then mode else []), ctx_Bool := (\<lambda>n. n = ''cdrom'' \<and> cdrom)\<rparr>"


text \<open>
  Without --cdrom, oci-boot never ends the process from inside: every failure of making a disk
  comes back as an error (or a panic), after the deferred cleanups.
\<close>

lemma doMain_disk_never_exits:
  assumes "\<not> ctx_Bool ctx ''cdrom''"
  shows "\<not> is_Exit (fst (doMain T ctx w))"
proof (cases "parse_args ctx")
  case (Inr bn)
  obtain b n where bn: "bn = (b, n)" by (cases bn)
  obtain o1 where body: "doMain_body T ctx n = deferE OciBoot_Cleanup (CreateDisk T (ctx_Args ctx ! 0) o1)"
    using assms by (simp add: doMain_body_def)
  have "io_respects pair_noexit (doMain_body T ctx n)"
    unfolding body CreateDisk_def OciBoot_getBootKit_def OciBoot_Cleanup_def
    by (intro respects_intros)
  then have "\<not> is_Exit (fst (doMain_body T ctx n (w, b)))"
    by (simp add: io_respects_def pair_noexit_def)
  with Inr bn show ?thesis by (auto simp: doMain_def split: prod.splits)
qed (simp add: doMain_def)

lemma doMain_disk_never_exits_witness:
  "\<not> is_Exit (fst (doMain sample_tools (boot_ctx False ''efi-auto'') (broken_world kit_fs)))"
  by (rule doMain_disk_never_exits) (simp add: boot_ctx_def)

section \<open>The bootkit and the arguments\<close>

lemma oci_isDir_total: "\<exists>b v. oci_isDir p w = (Ok b, v)"
proof -
  obtain r v where o: "os_Open p w = (r, v)" by fastforce
  have "returned r"
    using o by (auto simp: os_Open_def os_OpenFile_def sys_def sysp_def Let_def split: option.splits sum.splits)
  show ?thesis
  proof (cases r)
    case (Ok f)
    obtain q u where st: "f_Stat f v = (q, u)" by fastforce
    then have "returned q"
      by (auto simp: f_Stat_def sys_def sysp_def Let_def split: option.splits sum.splits)
    with o Ok st show ?thesis
      by (cases q) (auto simp: oci_isDir_def attemptE_def bindE_def catchE_def io_run)
  qed (use o \<open>returned r\<close> in \<open>auto simp: oci_isDir_def attemptE_def bindE_def catchE_def io_run\<close>)
qed

text \<open>
  A bootkit given as a local path is never refused: getBootKit returns a path and no error
  for every string that is not an oci: or docker: reference, whether or not there is such a
  directory with a bootkit in it, and even when the path could not be made absolute.
\<close>

lemma getBootKit_local_never_fails:
  assumes "\<not> is_oci_ref ref"
  shows "\<exists>path v. getBootKit P L ref w = (Ok (NoCleanup, path, None), v)"
proof -
  have tail: "\<exists>path v. getBootKit_tail NoCleanup p u = (Ok (NoCleanup, path, None), v)" for p u
  proof -
    obtain b v where "oci_PathExists (path_Join [p, ''export'']) u = (Ok b, v)"
      using oci_PathExists_total by blast
    moreover obtain d v' where
      "oci_isDir (path_Join [if b then path_Join [p, ''export''] else p, ''bootkit'']) v = (Ok d, v')"
      using oci_isDir_total by blast
    ultimately show ?thesis by (auto simp: getBootKit_tail_def Let_def bindE_def thenE_def io_run)
  qed
  have "\<exists>r v. attemptE (filepath_Abs ref) w = (Ok r, v)"
    by (cases "path_IsAbs ref"; cases "faults w (tick w)")
      (auto simp: filepath_Abs_def attemptE_def bindE_def catchE_def io_run sys_def sysp_def Let_def)
  then obtain r v where "attemptE (filepath_Abs ref) w = (Ok r, v)" by blast
  then show ?thesis
    using assms tail by (auto simp: getBootKit_def bindE_def)
qed

lemma getBootKit_local_never_fails_witness:
  "\<exists>path v. getBootKit idle_programs sample_oci ''/no/such/kit'' (broken_world []) = (Ok (NoCleanup, path, None), v)"
  by (rule getBootKit_local_never_fails) code_simp

lemma split_on_n_2:
  "split_on_n 2 c p = (if c \<in> set p then [takeWhile (\<lambda>x. x \<noteq> c) p, tl (dropWhile (\<lambda>x. x \<noteq> c) p)] else [p])"
  by (simp add: numeral_2_eq_2)

lemma insert_files_Inr:
  "insert_files m ps = Inr m' \<Longrightarrow> list_all (\<lambda>p. colon \<in> set p) ps \<and>
     map_of m' = map_of m ++ map_of (rev (map (\<lambda>p. (takeWhile (\<lambda>x. x \<noteq> colon) p,
       tl (dropWhile (\<lambda>x. x \<noteq> colon) p))) ps))"
proof (induction ps arbitrary: m)
  case (Cons p ps)
  then have c: "colon \<in> set p"
    and r: "insert_files (AList.update (takeWhile (\<lambda>x. x \<noteq> colon) p) (tl (dropWhile (\<lambda>x. x \<noteq> colon) p)) m) ps
             = Inr m'"
    by (auto simp: Let_def split_on_n_2 split: if_splits)
  from Cons.IH [OF r] c show ?case
    by (auto simp: update_conv' map_add_upd_left fun_eq_iff map_add_def split: option.splits)
qed auto

text \<open>A command line with one --insert flag and the default boot mode.\<close>

definition sample_flags :: cli_ctx where
  "sample_flags = (plain_ctx [''out.iso'', ''bootkit''])
     \<lparr>ctx_String := (\<lambda>n. if n = ''boot'' then ''efi-auto'' else []),
      ctx_StringSlice := (\<lambda>n. if n = ''insert'' then [''a:b:c''] else [])\<rparr>"

text \<open>
  C34: The files oci-boot inserts are those of the --insert flags: every flag needs a colon, the
  source is what precedes the first one and the destination all that follows it, and of two
  flags with the same source the last one counts.
\<close>

theorem parse_args_insert_files:
  assumes "parse_args ctx = Inr (b, n)"
  shows "list_all (\<lambda>p. colon \<in> set p) (ctx_StringSlice ctx ''insert'') \<and>
    map_of (Files b) = map_of (rev (map (\<lambda>p. (takeWhile (\<lambda>x. x \<noteq> colon) p, tl (dropWhile (\<lambda>x. x \<noteq> colon) p)))
      (ctx_StringSlice ctx ''insert'')))"
proof -
  from assms have "insert_files [] (ctx_StringSlice ctx ''insert'') = Inr (Files b)"
    by (auto simp: parse_args_def Let_def split: if_splits sum.splits option.splits)
  from insert_files_Inr [OF this] show ?thesis by simp
qed

theorem parse_args_insert_files_witness:
  "list_all (\<lambda>p. colon \<in> set p) [''a:b:c''] \<and> (\<exists>b n. parse_args sample_flags = Inr (b, n) \<and>
     map_of (Files b) = [''a'' \<mapsto> ''b:c''])"
proof -
  have "case parse_args sample_flags of Inl e \<Rightarrow> False | Inr r \<Rightarrow> True" by code_simp
  then obtain b n where p: "parse_args sample_flags = Inr (b, n)"
    by (auto split: sum.splits)
  show ?thesis
    using parse_args_insert_files [OF p] p by (auto simp: sample_flags_def)
qed

end
