(* ===== verification/Path_Keys.thy ===== *)
theory Path_Keys
  imports OS_Success
begin

text \<open>
  The file a joined path denotes: the key of \<open>filepath.Join(p, q)\<close> is that of p followed by the
  components of q, when q has no dots in it, and in general that of p with the components of q
  applied to it one by one.
\<close>

lemma clean_comps_no_dot: "c \<in> set (clean_comps r cs) \<Longrightarrow> c \<noteq> [] \<and> c \<noteq> ''.''"
  by (induction cs rule: rev_induct)
    (auto simp: clean_comps_snoc clean_step_def dest: in_set_butlastD split: if_splits)

text \<open>Cleaning a relative path first does not change what it does to a path it is appended to.\<close>

lemma foldl_clean_clean:
  "foldl (clean_step r) acc (clean_comps False cs) = foldl (clean_step r) acc cs"
proof (induction cs rule: rev_induct)
  case (snoc c cs)
  let ?C = "clean_comps False cs"
  have "foldl (clean_step r) acc (clean_step False ?C c) = clean_step r (foldl (clean_step r) acc ?C) c"
  proof (cases "c = ''..'' \<and> ?C \<noteq> [] \<and> last ?C \<noteq> ''..''")
    case True
    then obtain X p where X: "?C = X @ [p]" and p: "p \<noteq> ''..''" by (cases ?C rule: rev_cases) auto
    with clean_comps_no_dot [of p False cs] have "clean_step r a p = a @ [p]" for a
      by (simp add: clean_step_def)
    with True X p show ?thesis by (simp add: clean_step_def butlast_append)
  next
    case False
    then have "c = [] \<or> c = ''.'' \<or> clean_step False ?C c = ?C @ [c]"
      by (auto simp: clean_step_def)
    then show ?thesis by (auto simp: clean_step_def [of _ _ "[]"] clean_step_def [of _ _ "''.''"])
  qed
  then show ?case by (simp add: clean_comps_snoc snoc.IH)
qed simp

lemma foldl_relative:
  "\<not> path_IsAbs x \<Longrightarrow>
     foldl (clean_step r) acc (split_on slash x) = foldl (clean_step r) acc (path_comps x)"
  by (simp add: path_comps_def foldl_clean_clean)

definition key_rooted :: "world \<Rightarrow> string \<Rightarrow> bool" where
  "key_rooted w p \<longleftrightarrow> path_IsAbs p \<or> cwd w = [] \<or> path_IsAbs (cwd w)"

lemma foldl_path_key:
  assumes "p \<noteq> []"
  shows "path_key w (path_Join [p, q]) = foldl (clean_step (key_rooted w p)) (path_key w p) (split_on slash q)"
proof (cases "path_IsAbs p")
  case True
  with assms show ?thesis
    by (simp add: path_key_def key_rooted_def path_Join2 path_comps_append_slash)
next
  case False
  have r: "path_IsAbs (cwd w @ slash # s) \<longleftrightarrow> cwd w = [] \<or> path_IsAbs (cwd w)" for s
    by (cases "cwd w") (simp_all add: path_IsAbs_iff)
  have na: "\<not> path_IsAbs (path_Join [p, q])" using False assms by simp
  then have "path_key w (path_Join [p, q]) =
      clean_comps (key_rooted w p) (split_on slash (cwd w) @ split_on slash (path_Clean (p @ slash # q)))"
    using False assms by (simp add: path_key_def key_rooted_def path_comps_def r split_on_append_slash path_Join2)
  also have "\<dots> = foldl (clean_step (key_rooted w p)) (clean_comps (key_rooted w p) (split_on slash (cwd w)))
      (path_comps (path_Clean (p @ slash # q)))"
    using na assms
    by (simp add: clean_comps_def [of "key_rooted w p"] path_Join2 foldl_relative del: path_comps_Clean)
  also have "path_comps (path_Clean (p @ slash # q)) = clean_comps False (split_on slash p @ split_on slash q)"
    unfolding path_comps_Clean using False assms by (simp add: path_comps_def split_on_append_slash)
  also have "foldl (clean_step (key_rooted w p)) (clean_comps (key_rooted w p) (split_on slash (cwd w))) \<dots> =
      foldl (clean_step (key_rooted w p)) (clean_comps (key_rooted w p) (split_on slash (cwd w)))
        (split_on slash p @ split_on slash q)"
    by (rule foldl_clean_clean)
  also have "\<dots> = foldl (clean_step (key_rooted w p)) (path_key w p) (split_on slash q)"
    using False
    by (simp add: path_key_def path_comps_def r split_on_append_slash clean_comps_def key_rooted_def)
  finally show ?thesis .
qed

text \<open>Paths without dots, as all the fixed names of the sources are.\<close>

definition plain_path :: "string \<Rightarrow> bool" where
  "plain_path q \<longleftrightarrow> list_all (\<lambda>c. c \<noteq> ''.'' \<and> c \<noteq> ''..'') (split_on slash q)"

definition plain_comps :: "string \<Rightarrow> key" where
  "plain_comps q = filter (\<lambda>c. c \<noteq> []) (split_on slash q)"

lemma foldl_clean_plain:
  "list_all (\<lambda>c. c \<noteq> ''.'' \<and> c \<noteq> ''..'') cs \<Longrightarrow>
     foldl (clean_step r) acc cs = acc @ filter (\<lambda>c. c \<noteq> []) cs"
  by (induction cs arbitrary: acc) (auto simp: clean_step_def)

lemma path_key_Join_plain:
  "p \<noteq> [] \<Longrightarrow> plain_path q \<Longrightarrow> path_key w (path_Join [p, q]) = path_key w p @ plain_comps q"
  unfolding plain_path_def plain_comps_def by (simp add: foldl_path_key foldl_clean_plain)

lemma path_Join_plain:
  "p \<noteq> [] \<Longrightarrow> plain_path q \<Longrightarrow>
     path_Join [p, q] = path_of_comps (path_IsAbs p) (path_comps p @ plain_comps q)"
  unfolding plain_path_def plain_comps_def
  by (simp add: path_Join2 path_Clean_def path_comps_append_slash foldl_clean_plain)

text \<open>A relative path below a directory, joined from the components of a key.\<close>

lemma plain_join_key:
  assumes "list_all proper_comp cs" and "cs \<noteq> []"
  shows "plain_path (join_with ''/'' cs) \<and> plain_comps (join_with ''/'' cs) = cs"
proof -
  have "split_on slash (join_with ''/'' cs) = cs"
    using assms by (intro split_join_with) (auto simp: proper_comp_def list_all_iff)
  with assms show ?thesis
    by (auto simp: plain_path_def plain_comps_def proper_comp_def list_all_iff filter_id_conv)
qed

lemma path_key_Join_rel:
  "p \<noteq> [] \<Longrightarrow> list_all proper_comp cs \<Longrightarrow> cs \<noteq> [] \<Longrightarrow>
     path_key w (path_Join [p, join_with ''/'' cs]) = path_key w p @ cs"
  using plain_join_key by (simp add: path_key_Join_plain)

end
