(* ===== verification/Medium.thy ===== *)
theory Medium
  imports Oci_Boot Path_Keys
begin

text \<open>
  What oci-boot has put on the medium when it returns without error: the disk image and its
  partition, the commands that format and fill it, the EFI tree and its image, and the images
  and files of Populate.
\<close>

section \<open>The disk image\<close>

lemma Truncate_OkD:
  assumes "os_Truncate p n w = (Ok u, w')"
  obtains m b where "0 \<le> n" and "node_at (fs w) (path_key w p) = Some (File m b)" and "path_key w p \<noteq> []"
    and "moved w w' (fs_put (path_key w p) (File m (resize (nat n) b)) (fs w))"
proof -
  from assms obtain m b where "0 \<le> n" and b: "find_node (w\<lparr>tick := Suc (tick w)\<rparr>) p = Inr (File m b)"
    and "w' = put_node (path_key w p) (File m (resize (nat n) b)) (w\<lparr>tick := Suc (tick w)\<rparr>)"
    by (auto simp: os_Truncate_def sys_Ok not_less split: if_splits sum.splits node.splits)
  moreover have "node_at (fs w) (path_key w p) = Some (File m b)"
    using b by (auto simp: find_node_def dest: resolve_node_Inr split: if_splits)
  moreover from this have "path_key w p \<noteq> []" by auto
  ultimately show thesis by (intro that) (auto simp: moved_def put_node_def)
qed

lemma lib_call_Ok:
  "lib_call name args f w = (Ok u, w') \<longleftrightarrow>
     (\<exists>m. f (fs w) = (None, m) \<and> w' = (log_event (EvCall name args) w)\<lparr>fs := m\<rparr>)"
  by (auto simp: lib_call_def split: prod.splits option.splits)

lemma file_content_node: "file_content w p = Some b \<longleftrightarrow> (\<exists>m. node_at (fs w) (path_key w p) = Some (File m b))"
  by (auto simp: file_content_def split: option.splits node.splits)

lemma resize_empty [simp]: "resize n [] = replicate n 0"
  by (simp add: resize_def)

text \<open>
  C20: When genGptDisk returns nil, the image file was as many zero bytes as asked for when the
  partition table was written, no other file had been touched, and the table has exactly one
  partition: number 1, of the EFI system type, over the whole of the one free space.
\<close>

theorem genGptDisk_one_partition:
  assumes "genGptDisk K fpath fsize w = (Ok disk, w')" and "\<not> is_special w fpath"
  shows "\<exists>s v. FreeSpaces K (gpt_disk fpath fsize) = [s] \<and>
    dk_Partitions disk = [1 \<mapsto> \<lparr>p_Start = fs_Start s, p_Last = fs_Last s, p_Type = partid_EFI K,
      p_Name = ''EFI'', p_ID = GenGUID K, p_Number = 1\<rparr>] \<and>
    0 \<le> fsize \<and> file_content v fpath = Some (replicate (nat fsize) 0) \<and>
    (\<forall>k. k \<noteq> path_key w fpath \<longrightarrow> node_at (fs v) k = node_at (fs w) k) \<and>
    CreatePartitions K (gpt_disk fpath fsize) (dk_Partitions disk) (fs v) = (None, fs w')"
proof -
  from assms(1) obtain w1 w2 s where wr: "os_WriteFile fpath [] mode_0600 w = (Ok (), w1)"
    and tr: "os_Truncate fpath fsize w1 = (Ok (), w2)" and s: "FreeSpaces K (gpt_disk fpath fsize) = [s]"
    and cr: "lib_call ''CreatePartitions'' [fpath]
               (CreatePartitions K (gpt_disk fpath fsize) [1 \<mapsto> esp_partition K s]) w2 = (Ok (), w')"
    and d: "disk = (gpt_disk fpath fsize)\<lparr>dk_Partitions := [1 \<mapsto> esp_partition K s]\<rparr>"
    by (auto simp: genGptDisk_def Let_def bindE_Ok wrapE_Ok returnE_Ok throwE_Ok split: list.splits)
  note W = WriteFile_OkD [OF wr assms(2)]
  have k1: "path_key w1 fpath = path_key w fpath" by (rule same_env_path_key [OF W(4)])
  from Truncate_OkD [OF tr] obtain m b where n: "0 \<le> fsize"
    and b: "node_at (fs w1) (path_key w1 fpath) = Some (File m b)" and ne: "path_key w1 fpath \<noteq> []"
    and w2: "moved w1 w2 (fs_put (path_key w1 fpath) (File m (resize (nat fsize) b)) (fs w1))"
    by blast
  have "b = []" using W(1) b by (simp add: file_content_node)
  then have "file_content w2 fpath = Some (replicate (nat fsize) 0)"
    using ne by (simp add: file_content_node moved_key [OF w2] moved_fs [OF w2])
  moreover have "node_at (fs w2) k = node_at (fs w) k" if "k \<noteq> path_key w fpath" for k
    using W(2) that by (simp add: moved_fs [OF w2] k1)
  moreover have "CreatePartitions K (gpt_disk fpath fsize) (dk_Partitions disk) (fs w2) = (None, fs w')"
    using cr d by (auto simp: lib_call_Ok)
  ultimately show ?thesis
    using s n by (intro exI [of _ s] exI [of _ w2]) (simp add: d esp_partition_def)
qed

theorem genGptDisk_one_partition_witness:
  "\<exists>s v. FreeSpaces (t_disko sample_tools) (gpt_disk ''/d'' 3) = [s] \<and>
    dk_Partitions (gpt_disk ''/d'' 3\<lparr>dk_Partitions := [1 \<mapsto> esp_partition (t_disko sample_tools)
        \<lparr>fs_Start = 1048576, fs_Last = 2097151\<rparr>]\<rparr>) =
      [1 \<mapsto> \<lparr>p_Start = fs_Start s, p_Last = fs_Last s, p_Type = partid_EFI (t_disko sample_tools),
      p_Name = ''EFI'', p_ID = GenGUID (t_disko sample_tools), p_Number = 1\<rparr>] \<and>
    0 \<le> (3 :: int) \<and> file_content v ''/d'' = Some (replicate (nat 3) 0) \<and>
    (\<forall>k. k \<noteq> path_key (sample_world sample_fs) ''/d'' \<longrightarrow>
       node_at (fs v) k = node_at (fs (sample_world sample_fs)) k) \<and>
    CreatePartitions (t_disko sample_tools) (gpt_disk ''/d'' 3)
      (dk_Partitions (gpt_disk ''/d'' 3\<lparr>dk_Partitions := [1 \<mapsto> esp_partition (t_disko sample_tools)
        \<lparr>fs_Start = 1048576, fs_Last = 2097151\<rparr>]\<rparr>)) (fs v) =
      (None, fs (snd (genGptDisk (t_disko sample_tools) ''/d'' 3 (sample_world sample_fs))))"
proof (rule genGptDisk_one_partition)
  have "is_Ok (fst (genGptDisk (t_disko sample_tools) ''/d'' 3 (sample_world sample_fs)))"
    by code_simp
  then obtain d where "genGptDisk (t_disko sample_tools) ''/d'' 3 (sample_world sample_fs) =
      (Ok d, snd (genGptDisk (t_disko sample_tools) ''/d'' 3 (sample_world sample_fs)))"
    by (metis is_Ok.elims(2) run_pair)
  moreover from this have "d = gpt_disk ''/d'' 3\<lparr>dk_Partitions := [1 \<mapsto> esp_partition (t_disko sample_tools)
        \<lparr>fs_Start = 1048576, fs_Last = 2097151\<rparr>]\<rparr>"
    by (auto simp: genGptDisk_def Let_def bindE_Ok wrapE_Ok returnE_Ok throwE_Ok sample_tools_def split: list.splits)
  ultimately show "genGptDisk (t_disko sample_tools) ''/d'' 3 (sample_world sample_fs) =
      (Ok (gpt_disk ''/d'' 3\<lparr>dk_Partitions := [1 \<mapsto> esp_partition (t_disko sample_tools)
        \<lparr>fs_Start = 1048576, fs_Last = 2097151\<rparr>]\<rparr>),
       snd (genGptDisk (t_disko sample_tools) ''/d'' 3 (sample_world sample_fs)))"
    by simp
  show "\<not> is_special (sample_world sample_fs) ''/d''" by code_simp
qed

section \<open>Formatting and filling the partition\<close>

lemma liftW_run: "liftW m s = (r, s') \<longleftrightarrow> m (fst s) = (r, fst s') \<and> snd s' = snd s"
  by (cases "m (fst s)"; cases s') (auto simp: liftW_def)

lemma CombinedOutput_Ok: "CombinedOutput_error P dir args w = (Ok y, w') \<longleftrightarrow> ran_ok P dir args w w'"
  by (auto simp: CombinedOutput_error_def io_ok ran_ok_def os_exec_def Let_def
      split: list.splits option.splits prod.splits proc_result.splits if_splits)

lemma Readdirnames_OkD:
  assumes "f_Readdirnames f w = (Ok xs, w')"
  shows "xs = fs_children (fs w) (f_key f)" "moved w w' (fs w)"
    and "\<exists>m. node_at (fs w) (f_key f) = Some (Dir m)"
  using assms by (auto simp: f_Readdirnames_def sys_Ok split: option.splits node.splits)

lemma Abs_OkD:
  assumes "filepath_Abs p w = (Ok q, w')"
  shows "moved w w' (fs w)" and "path_IsAbs (cwd w) \<Longrightarrow> path_key w q = path_key w p"
proof -
  show "moved w w' (fs w)"
    using assms by (auto simp: filepath_Abs_def io_ok split: if_splits)
  assume c: "path_IsAbs (cwd w)"
  then have n: "cwd w \<noteq> []" by auto
  show "path_key w q = path_key w p"
  proof (cases "path_IsAbs p")
    case True
    with assms show ?thesis by (auto simp: filepath_Abs_def io_ok path_key_def)
  next
    case False
    with assms have "q = path_Join [cwd w, p]" by (auto simp: filepath_Abs_def io_ok)
    with False c n show ?thesis by (simp add: path_key_def path_Join2)
  qed
qed

lemma Mtools_Ok:
  assumes "createAndCopyToFat32Mtools P srcDir diskFile st sz w = (Ok (), w')"
  shows "sz smod 1024 = 0 \<and> (\<exists>full v1 v2.
    ran_ok P [] (mkfs_args diskFile st sz) w v1 \<and> moved v1 v2 (fs v1) \<and>
    (path_IsAbs (cwd w) \<longrightarrow> path_key w full = path_key w diskFile) \<and>
    ran_ok P srcDir (mcopy_args full st (fs_children (fs v1) (path_key w srcDir))) v2 w')"
proof -
  from assms obtain v1 full v2 dp v3 q v4 v5 r where sz: "sz smod 1024 = 0"
    and mk: "ran_ok P [] (mkfs_args diskFile st sz) w v1"
    and ab: "filepath_Abs diskFile v1 = (Ok full, v2)" and op: "os_Open srcDir v2 = (Ok dp, v3)"
    and q: "attemptE (f_Readdirnames dp) v3 = (Ok q, v4)" and cl: "attemptE (f_Close dp) v4 = (Ok r, v5)"
    and k: "(case q of Inl err \<Rightarrow> throwE (ErrorString (''Failed to read files in '' @ [CHR 0x27] @ srcDir @
               [CHR 0x27] @ '': '' @ error_text err))
           | Inr files \<Rightarrow> CombinedOutput_error P srcDir (mcopy_args full st files)) v5 = (Ok (), w')"
    by (auto simp: createAndCopyToFat32Mtools_def bindE_Ok wrapE_Ok throwE_Ok RunCommand_Ok split: if_splits)
  from k q obtain files where rd: "f_Readdirnames dp v3 = (Ok files, v4)"
    and mc: "ran_ok P srcDir (mcopy_args full st files) v5 w'"
    by (cases q) (auto simp: throwE_Ok CombinedOutput_Ok attemptE_Ok)
  note A = Abs_OkD [OF ab] and D = Open_OkD [OF op] and R = Readdirnames_OkD [OF rd]
  have e1: "same_env w v1" by (rule ran_ok_trace(2) [OF mk])
  have m3: "moved v1 v3 (fs v1)" using moved_trans [OF A(1) D(2)] by (simp add: moved_fs [OF A(1)])
  have m4: "moved v1 v4 (fs v1)" using moved_trans [OF m3 R(2)] by (simp add: moved_fs [OF m3])
  have m5: "moved v1 v5 (fs v1)"
    using moved_trans [OF m4 attempt_Close_moved [OF cl]] by (simp add: moved_fs [OF m4])
  have "files = fs_children (fs v1) (path_key w srcDir)"
    using R(1) D(1) by (simp add: moved_fs [OF m3] moved_key [OF A(1)] same_env_path_key [OF e1])
  moreover have "path_key w full = path_key w diskFile" if "path_IsAbs (cwd w)"
    using A(2) that e1 by (simp add: same_env_path_key [OF e1] same_env_def)
  ultimately show ?thesis using sz mk m5 mc by blast
qed

text \<open>
  C19: When oci-boot has made a disk with mtools and returns nil, the partition was formatted and
  filled in agreement with the partition table. With s the one free space of the image: mkfs.fat
  ran on the image with the start of the partition in sectors and its size in KiB, and mcopy ran
  in the directory of the tree with the same start in bytes, an absolute path to the same image,
  and every name in the tree; the two starts agree when the partition begins at a sector
  boundary. In the end the tree is removed.
\<close>

theorem CreateDisk_formats_partition:
  assumes "CreateDisk T diskFile opts (w, b) = (Ok (), s')" and "dsk_Impl opts \<noteq> ImplDiskfs"
  shows "\<exists>s start len tmpd full v v1 v2 v3.
    FreeSpaces (t_disko T) (gpt_disk diskFile (if dsk_Size opts = 0 then 1073741824 else dsk_Size opts)) = [s] \<and>
    start = sint (fs_Start s) \<and> len = sint (Partition_Size (t_disko T) (esp_partition (t_disko T) s)) \<and>
    len smod 1024 = 0 \<and>
    ran_ok (t_progs T) [] [''mkfs.fat'', ''-F32'', ''-nOCI-BOOT'', ''--offset='' @ dec_int (start sdiv 512),
      diskFile, dec_int (len sdiv 1024)] v v1 \<and>
    fs v2 = fs v1 \<and>
    ran_ok (t_progs T) tmpd ([''env'', ''MTOOLS_SKIP_CHECK=1'', ''mcopy'', ''-s'', ''-v'', ''-i'',
      full @ ''@@'' @ dec_int start] @ fs_children (fs v1) (path_key v tmpd) @ [''::'']) v2 v3 \<and>
    (path_IsAbs (cwd v) \<longrightarrow> path_key v full = path_key v diskFile) \<and>
    (start smod 512 = 0 \<longrightarrow> 512 * (start sdiv 512) = start) \<and>
    (\<exists>r. os_RemoveAll tmpd v3 = (r, fst s'))"
proof -
  let ?n = "if dsk_Size opts = 0 then default_size else dsk_Size opts"
  from assms(1) obtain u b' where body: "disk_body T diskFile opts b' u = (Ok (), fst s')"
    by (auto simp: CreateDisk_def bindE_Ok getE_Ok liftW_run)
  then obtain tmpd u1 u2 u3 u4 disk r v3 where gp: "genGptDisk (t_disko T) diskFile ?n u3 = (Ok disk, u4)"
    and mt: "createAndCopyToFat32Mtools (t_progs T) tmpd diskFile
        (sint (p_Start (case dk_Partitions disk 1 of None \<Rightarrow> zero_Partition | Some p \<Rightarrow> p)))
        (sint (Partition_Size (t_disko T) (case dk_Partitions disk 1 of None \<Rightarrow> zero_Partition | Some p \<Rightarrow> p)))
        u4 = (Ok (), v3)"
    and rm: "os_RemoveAll tmpd v3 = (r, fst s')"
    using assms(2) by (auto simp: disk_body_def Let_def bindE_Ok deferE_Ok)
  from gp obtain s where s: "FreeSpaces (t_disko T) (gpt_disk diskFile ?n) = [s]"
    and d: "dk_Partitions disk = [1 \<mapsto> esp_partition (t_disko T) s]"
    by (auto simp: genGptDisk_def Let_def bindE_Ok returnE_Ok throwE_Ok split: list.splits)
  have st: "p_Start (esp_partition (t_disko T) s) = fs_Start s" by (simp add: esp_partition_def)
  let ?start = "sint (fs_Start s)" and ?len = "sint (Partition_Size (t_disko T) (esp_partition (t_disko T) s))"
  from Mtools_Ok [OF mt] obtain full v1 v2 where len: "?len smod 1024 = 0"
    and mk: "ran_ok (t_progs T) [] (mkfs_args diskFile ?start ?len) u4 v1"
    and v2: "moved v1 v2 (fs v1)" and full: "path_IsAbs (cwd u4) \<longrightarrow> path_key u4 full = path_key u4 diskFile"
    and mc: "ran_ok (t_progs T) tmpd (mcopy_args full ?start (fs_children (fs v1) (path_key u4 tmpd))) v2 v3"
    by (auto simp: d st)
  have sector: "?start smod 512 = 0 \<longrightarrow> 512 * (?start sdiv 512) = ?start"
    using mult_sdiv_smod_eq [of 512 ?start] by simp
  have s': "FreeSpaces (t_disko T) (gpt_disk diskFile
      (if dsk_Size opts = 0 then 1073741824 else dsk_Size opts)) = [s]"
    using s by (cases "dsk_Size opts = 0") (simp_all add: default_size_def)
  have mk': "ran_ok (t_progs T) [] [''mkfs.fat'', ''-F32'', ''-nOCI-BOOT'', ''--offset='' @ dec_int (?start sdiv 512),
      diskFile, dec_int (?len sdiv 1024)] u4 v1"
    using mk by (simp add: mkfs_args_def ISOLabel_def)
  show ?thesis
    using s' len mk' moved_fs [OF v2] mc [unfolded mcopy_args_def] full sector rm by blast
qed

text \<open>A run that makes a small disk with the bootkit in /k.\<close>

definition sample_boot :: OciBoot where
  "sample_boot = \<lparr>BootKit = ''/k'', BootLayer = [], Files = [], Layers = [],
     cleanups = [], bootKitDir = [], RepoDir = []\<rparr>"

definition small_disk :: DiskOptions where
  "small_disk = \<lparr>dsk_EFIBootMode = EFIKernel, dsk_CommandLine = [], dsk_Size = 2, dsk_Impl = []\<rparr>"

abbreviation disk_run :: "unit outcome \<times> (world \<times> OciBoot)" where
  "disk_run \<equiv> CreateDisk sample_tools ''/d'' small_disk (sample_world kit_fs, sample_boot)"

theorem CreateDisk_formats_partition_witness:
  "\<exists>s start len tmpd full v v1 v2 v3.
    FreeSpaces (t_disko sample_tools) (gpt_disk ''/d'' (if dsk_Size small_disk = 0 then 1073741824 else dsk_Size small_disk)) = [s] \<and>
    start = sint (fs_Start s) \<and> len = sint (Partition_Size (t_disko sample_tools) (esp_partition (t_disko sample_tools) s)) \<and>
    len smod 1024 = 0 \<and>
    ran_ok (t_progs sample_tools) [] [''mkfs.fat'', ''-F32'', ''-nOCI-BOOT'', ''--offset='' @ dec_int (start sdiv 512),
      ''/d'', dec_int (len sdiv 1024)] v v1 \<and>
    fs v2 = fs v1 \<and>
    ran_ok (t_progs sample_tools) tmpd ([''env'', ''MTOOLS_SKIP_CHECK=1'', ''mcopy'', ''-s'', ''-v'', ''-i'',
      full @ ''@@'' @ dec_int start] @ fs_children (fs v1) (path_key v tmpd) @ [''::'']) v2 v3 \<and>
    (path_IsAbs (cwd v) \<longrightarrow> path_key v full = path_key v ''/d'') \<and>
    (start smod 512 = 0 \<longrightarrow> 512 * (start sdiv 512) = start) \<and>
    (\<exists>r. os_RemoveAll tmpd v3 = (r, fst (snd disk_run)))"
proof (rule CreateDisk_formats_partition)
  show "disk_run = (Ok (), snd disk_run)" by (rule run_pair, code_simp)
qed (simp add: small_disk_def ImplDiskfs_def)

end
