(* ===== verification/Oci_Main.thy ===== *)
theory Oci_Main
  imports Medium
begin

text \<open>
  main of go/cmd/oci-boot/main.go with the flags it declares, what the program does as a whole,
  and where it ends the process without its deferred calls.
\<close>

section \<open>The program\<close>

definition oci_boot_flags :: "flag list" where
  "oci_boot_flags =
     [BoolFlag ''debug'' [], BoolFlag ''cdrom'' [], StringFlag ''use-diskfs'' [] [],
      StringFlag ''boot'' [] (the (EFIBootModes EFIAuto)), StringFlag ''cmdline'' [] [],
      StringSliceFlag ''sync-repodir'' [], StringSliceFlag ''insert'' []]"

definition oci_boot_app :: "('e, 'm, 'f, 'h) tools \<Rightarrow> app" where
  "oci_boot_app T =
     \<lparr>app_Name = ''oci-boot'', app_Flags = oci_boot_flags, app_Commands = [],
      app_Action = Some (doMain T)\<rparr>"

definition oci_boot_main :: "cli_lib \<Rightarrow> ('e, 'm, 'f, 'h) tools \<Rightarrow> unit io" where
  "oci_boot_main run T = run_app run (oci_boot_app T)"

section \<open>Boot modes\<close>

text \<open>
  The two tables of boot modes are inverse to each other, the default of the flag --boot is a
  name in the table, and a mode that was read from its name passes the check of Create, so the
  error \<open>Invalid boot mode\<close> cannot come up in the program.
\<close>

lemma boot_modes_inverse:
  "(EFIBootModeStrings s = Some m \<longleftrightarrow> EFIBootModes m = Some s) \<and>
   StringFlag ''boot'' [] ''efi-auto'' \<in> set oci_boot_flags \<and> EFIBootModeStrings ''efi-auto'' = Some EFIAuto \<and>
   (EFIBootModes m = None \<longleftrightarrow> ISOOptions_Check \<lparr>iso_EFIBootMode = m, iso_CommandLine = c\<rparr> \<noteq> None)"
  by (auto simp: EFIBootModeStrings_def EFIBootModes_def EFIAuto_def EFIShim_def EFIKernel_def
      ISOOptions_Check_def oci_boot_flags_def split: if_splits)

section \<open>The fatal failure of genESP\<close>

lemma noexitD: "io_respects noexit_rel m \<Longrightarrow> m w = (Exit n, w') \<Longrightarrow> False"
  by (drule (1) io_respectsD) (simp add: noexit_rel_def)

lemmas quiet_no_exit = noexitD [OF quiet_imp_noexit]

lemma quiet_trace: "io_respects quiet_rel m \<Longrightarrow> m w = (r, w') \<Longrightarrow> trace w' = trace w"
  by (drule (1) io_respectsD) (simp add: quiet_rel_def)

lemma genESP_exit:
  assumes "genESP P fname d w = (Exit n, w')"
  shows "n = 1 \<and> trace w' = trace w"
proof -
  from assms obtain sz u f v e v' where "getDirSize d w = (Ok sz, u)"
    and "os_OpenFile fname [O_RDWR, O_CREATE, O_EXCL] mode_0644 u = (Ok f, v)"
    and "f_Truncate f (esp_size sz) v = (Err e, v')" and "n = 1" and "v' = w'"
    unfolding genESP_def
    by (auto simp: bindE_Exit wrapE_Exit wrapE_Ok catchE_Exit RunCommand_def exitE_def
        dest: quiet_no_exit [OF quiet_getDirSize] quiet_no_exit [OF quiet_OpenFile]
          quiet_no_exit [OF quiet_fTruncate] quiet_no_exit [OF quiet_Close]
          noexitD [OF noexit_CombinedOutput])
  then show ?thesis
    using quiet_trace [OF quiet_getDirSize] quiet_trace [OF quiet_OpenFile] quiet_trace [OF quiet_fTruncate]
    by auto
qed

lemma iso_body_exit:
  assumes "iso_body T isoFile opts b w = (Exit n, w')"
  shows "n = 1 \<and> (\<exists>tmpd d. trace w' = trace w @ [EvTemp tmpd, EvTemp d])"
proof -
  let ?mkdir = "\<lambda>tmpd. os_MkdirAll (path_Dir (path_Join [tmpd, PathESPImage])) mode_0755"
  from assms obtain tmpd w1 w2 where t: "os_MkdirTemp [] ''OciBootCreate-'' w = (Ok tmpd, w1)"
    and m: "?mkdir tmpd w1 = (Ok (), w2)"
    and g: "OciBoot_genESP T b opts (path_Join [tmpd, PathESPImage]) w2 = (Exit n, w')"
    unfolding iso_body_def Let_def
    by (auto simp: bindE_Exit deferE_Exit wrapE_Exit wrapE_Ok fromSum_def RunCommand_def io_run
        dest: noexitD [OF noexit_MkdirTemp] noexitD [OF noexit_RemoveAll] quiet_no_exit [OF quiet_MkdirAll]
          noexitD [OF noexit_Populate] noexitD [OF noexit_CombinedOutput] split: sum.splits)
  from g obtain d w3 w4 where d: "os_MkdirTemp [] ''genESP-'' w2 = (Ok d, w3)"
    and p: "PopulateEFI T b (iso_EFIBootMode opts) (iso_CommandLine opts) d w3 = (Ok (), w4)"
    and e: "genESP (t_progs T) (path_Join [tmpd, PathESPImage]) d w4 = (Exit n, w')"
    unfolding OciBoot_genESP_def
    by (auto simp: bindE_Exit deferE_Exit
        dest: noexitD [OF noexit_MkdirTemp] noexitD [OF noexit_RemoveAll] noexitD [OF noexit_PopulateEFI])
  have "trace w' = trace w @ [EvTemp tmpd, EvTemp d]"
    using MkdirTemp_run [OF t] MkdirTemp_run [OF d] genESP_exit [OF e]
      quiet_trace [OF quiet_MkdirAll m] quiet_trace [OF quiet_PopulateEFI p]
    by simp
  with genESP_exit [OF e] show ?thesis by blast
qed

lemma pair_noexitD: "io_respects pair_noexit m \<Longrightarrow> m s = (Exit n, s') \<Longrightarrow> False"
  by (drule (1) io_respectsD) (simp add: pair_noexit_def)

lemma pair_noexit_Cleanup: "io_respects pair_noexit OciBoot_Cleanup"
  unfolding OciBoot_Cleanup_def by (intro respects_intros)

lemma pair_noexit_getBootKit: "io_respects pair_noexit (OciBoot_getBootKit T)"
  unfolding OciBoot_getBootKit_def by (intro respects_intros)

lemma pair_noexit_CreateDisk: "io_respects pair_noexit (CreateDisk T f opts)"
  unfolding CreateDisk_def by (intro respects_intros pair_noexit_getBootKit)

lemma CreateDisk_no_exit: "CreateDisk T f opts s = (Exit n, s') \<longleftrightarrow> False"
  using pair_noexitD [OF pair_noexit_CreateDisk] by blast

lemma uncleaned_end: "set (uncleaned (t @ [EvTemp a, EvTemp b])) \<supseteq> {a, b}"
proof -
  have "p \<in> set (uncleaned (t @ r))" if "p \<in> set (uncleaned r)" for p r
    using that by (induction t rule: uncleaned.induct) auto
  from this [of _ "[EvTemp a, EvTemp b]"] show ?thesis by simp
qed


text \<open>A machine on which one call fails: that with number 29, the truncation of the image.\<close>

definition full_disk :: world where
  "full_disk = (sample_world kit_fs)\<lparr>faults := (\<lambda>n. if n = 29 then Some (ENOSPC, 0) else None)\<rparr>"


end
