(* ===== verification/Oci_Returns.thy ===== *)
theory Oci_Returns
  imports Oci_Main
begin

text \<open>
  Every run of oci-boot ends: with nil or an error, or, in --cdrom mode only, with status 1. The
  one panic in its code, for an image without layers, is excluded by a hypothesis.
\<close>

section \<open>Calls that return\<close>

definition manifests_have_layers :: "('e, 'm) oci_lib \<Rightarrow> bool" where
  "manifests_have_layers L \<longleftrightarrow> (\<forall>e tag m. LookupManifest L e tag m \<noteq> Inr [])"

lemma returns_CombinedOutput [returns_intros]: "args \<noteq> [] \<Longrightarrow> returns (CombinedOutput_error P dir args)"
  unfolding CombinedOutput_error_def by (cases args) (auto intro!: returns_intros split: proc_result.split)

lemma returns_RunCommand [returns_intros]: "args \<noteq> [] \<Longrightarrow> returns (RunCommand P args)"
  unfolding RunCommand_def by (intro returns_intros)

lemma returns_oci_tests [returns_intros]: "returns (oci_PathExists p)" "returns (oci_isDir p)"
  unfolding oci_PathExists_def oci_isDir_def by (intro returns_intros)+

lemma returns_copyFile [returns_intros]: "returns (copyFile a b)"
  unfolding copyFile_def by (intro returns_intros)

lemma returns_newOciPath [returns_intros]: "returns (newOciPath ref lay)"
  unfolding newOciPath_def Let_def by (intro returns_intros)

lemma returns_doCopy [returns_intros]: "returns (doCopy L src dest)"
  unfolding doCopy_def by (intro returns_intros)

lemma returns_which_loop: "returns (which_loop cs)"
  by (induction cs) (auto intro!: returns_intros split: sum.split)

lemma returns_Which [returns_intros]: "returns (Which name)"
  unfolding Which_def WhichSearch_def by (intro returns_intros returns_which_loop)

lemma returns_extractSingleSquash [returns_intros]: "returns (extractSingleSquash P sq d rl)"
  unfolding extractSingleSquash_def by (intro returns_intros) (simp add: squash_cmd_def)

lemma returns_atomfs [returns_intros]: "returns (unpackSquashLayersViaAtomfs L d tag dest)"
  unfolding unpackSquashLayersViaAtomfs_def or_cleanup_def atomfs_cleanup_def Let_def by (intro returns_intros)

lemma returns_unpackSquashLayer [returns_intros]: "returns (unpackSquashLayer P L ociDir oci tag dest rl)"
  unfolding unpackSquashLayer_def Let_def by (intro returns_intros)

lemma returns_UnpackLayer [returns_intros]:
  assumes "manifests_have_layers L"
  shows "returns (UnpackLayer P L ociDir oci tag dest rl)"
  unfolding UnpackLayer_def
proof (rule returns_bind_Ok)
  fix w x w'
  assume "wrapE (\<lambda>err. WrapError (''couldn'' @ [CHR 0x27] @ ''t find '' @ [CHR 0x27] @ tag @ [CHR 0x27] @
      '' in oci: '' @ error_text err) err) (lib_query (LookupManifest L oci tag)) w = (Ok x, w')"
  then have "LookupManifest L oci tag (fs w) = Inr x"
    by (auto simp: wrapE_Ok lib_query_def split: sum.splits)
  with assms have "x \<noteq> []" by (auto simp: manifests_have_layers_def)
  then obtain ly lys where x: "x = ly # lys" by (cases x) auto
  have "returns (if MediaType ly = MediaTypeImageLayer \<or> MediaType ly = MediaTypeImageLayerGzip then
      bindE (if rl then fromSum (GetRootlessMapOptions L) else returnE no_MapOptions) (\<lambda>mo.
        lib_call ''umoci.Unpack'' [tag, dest] (umoci_Unpack L oci tag dest \<lparr>KeepDirlinks = True, map_options = mo\<rparr>))
      else unpackSquashLayer P L ociDir oci tag dest rl)"
    by (intro returns_intros)
  then show "returned (fst ((case x of [] \<Rightarrow> panicE ''index out of range [0] with length 0''
      | ly # _ \<Rightarrow> if MediaType ly = MediaTypeImageLayer \<or> MediaType ly = MediaTypeImageLayerGzip then
          bindE (if rl then fromSum (GetRootlessMapOptions L) else returnE no_MapOptions) (\<lambda>mo.
            lib_call ''umoci.Unpack'' [tag, dest] (umoci_Unpack L oci tag dest \<lparr>KeepDirlinks = True, map_options = mo\<rparr>))
          else unpackSquashLayer P L ociDir oci tag dest rl) w'))"
    by (simp add: x returns_def)
qed (intro returns_intros)

lemma returns_getBootKit [returns_intros]:
  assumes "manifests_have_layers L"
  shows "returns (getBootKit P L ref)"
proof -
  have "returns (ociExtractRef P L img dest)" for img dest
    unfolding ociExtractRef_def unpackLayerRootfs_def Let_def by (intro returns_intros returns_UnpackLayer assms)
  then show ?thesis
    unfolding getBootKit_def getBootKit_tail_def Let_def by (intro returns_intros)
qed

lemma returns_Populate [returns_intros]: "returns (Populate T b target)"
  unfolding Populate_def populate_layer_def Let_def by (intro returns_intros) simp

lemma returns_PopulateEFI [returns_intros]: "returns (PopulateEFI T b mode cmdline destd)"
  unfolding PopulateEFI_def efi_mode_def by (intro returns_intros)

lemma returns_genGptDisk [returns_intros]: "returns (genGptDisk K p n)"
  unfolding genGptDisk_def Let_def by (intro returns_intros)

lemma returns_Mtools [returns_intros]: "returns (createAndCopyToFat32Mtools P src disk st sz)"
  unfolding createAndCopyToFat32Mtools_def by (intro returns_intros) (simp_all add: mkfs_args_def mcopy_args_def)

lemma returns_lib_open [returns_intros]: "returns (lib_open name args f)"
  by (auto simp: returns_def lib_open_def split: prod.splits sum.splits)

lemma returns_Printf [returns_intros]: "returns (fmt_Printf s)"
  by (simp add: returns_def fmt_Printf_def)

lemma returns_DiskFS [returns_intros]: "returns (createAndCopyToFat32DiskFS F src disk st sz)"
  unfolding createAndCopyToFat32DiskFS_def fat_walk_fn_def fat_copy_file_def Let_def by (intro returns_intros)

lemma returns_getDirSize [returns_intros]: "returns (getDirSize p)"
  unfolding getDirSize_def size_fn_def by (intro returns_intros)

section \<open>Methods\<close>

lemma returns_liftW [returns_intros]: "returns m \<Longrightarrow> returns (liftW m)"
  by (auto simp: returns_def liftW_def split: prod.splits) (metis fst_conv)

lemma returns_modifyO [returns_intros]: "returns (modifyO f)"
  by (simp add: returns_def modifyO_def)

lemma returns_Cleanup [returns_intros]: "returns OciBoot_Cleanup"
proof -
  have "returns (run_cleanups cs)" for cs
    by (induction cs) (auto simp: run_cleanup_def intro!: returns_intros split: cleanup.split)
  then show ?thesis unfolding OciBoot_Cleanup_def by (intro returns_intros)
qed

lemma returns_OciBoot_getBootKit [returns_intros]:
  "manifests_have_layers (t_oci T) \<Longrightarrow> returns (OciBoot_getBootKit T)"
  unfolding OciBoot_getBootKit_def by (intro returns_intros)

lemma returns_CreateDisk [returns_intros]:
  "manifests_have_layers (t_oci T) \<Longrightarrow> returns (CreateDisk T f opts)"
  unfolding CreateDisk_def disk_body_def Let_def by (intro returns_intros)

section \<open>Runs with --cdrom\<close>

text \<open>What may also end the process, with status 1.\<close>

definition ends :: "('s, 'a) gofun \<Rightarrow> bool" where
  "ends m \<longleftrightarrow> (\<forall>s. returned (fst (m s)) \<or> fst (m s) = Exit 1)"

lemma endsD: "ends m \<Longrightarrow> m s = (r, s') \<Longrightarrow> returned r \<or> r = Exit 1"
  unfolding ends_def by (metis fst_conv)

lemma endsI: "(\<And>s r s'. m s = (r, s') \<Longrightarrow> returned r \<or> r = Exit 1) \<Longrightarrow> ends m"
  unfolding ends_def by (metis prod.collapse)

lemma ends_returns: "returns m \<Longrightarrow> ends m"
  by (simp add: returns_def ends_def)

lemma ends_bind:
  assumes "ends m" and "\<And>x. ends (f x)"
  shows "ends (bindE m f)"
proof (rule endsI)
  fix s r s'
  assume run: "bindE m f s = (r, s')"
  obtain q v where m: "m s = (q, v)" by (cases "m s")
  show "returned r \<or> r = Exit 1"
  proof (cases q)
    case (Ok x)
    with run m endsD [OF assms(2), of x v] show ?thesis by (simp add: bindE_def)
  qed (use run m endsD [OF assms(1) m] in \<open>auto simp: bindE_def\<close>)
qed

lemma ends_catch_exit: "returns m \<Longrightarrow> ends (catchE m (\<lambda>err. exitE 1))"
  by (rule endsI) (auto simp: catchE_def exitE_def dest: returnsD split: prod.splits outcome.splits)

lemma ends_defer:
  assumes "ends m" and "returns d"
  shows "ends (deferE d m)"
proof (rule endsI)
  fix s r s'
  assume run: "deferE d m s = (r, s')"
  obtain q v where m: "m s = (q, v)" by (cases "m s")
  obtain p u where d: "d v = (p, u)" by (cases "d v")
  from run m d endsD [OF assms(1) m] returnsD [OF assms(2) d] show "returned r \<or> r = Exit 1"
    by (cases q; cases p) (auto simp: deferE_def)
qed

lemma ends_liftW: "ends m \<Longrightarrow> ends (liftW m)"
  by (rule endsI) (auto simp: liftW_def dest: endsD split: prod.splits)

lemma ends_genESP: "ends (genESP P fname baseDir)"
  unfolding genESP_def
  by (intro ends_bind ends_catch_exit; (rule ends_returns)?; (intro returns_intros)?)
    (auto simp: esp_mcopy_args_def)

lemma ends_iso_body: "ends (iso_body T isoFile opts b)"
proof -
  have g: "ends (OciBoot_genESP T b opts fname)" for fname
    unfolding OciBoot_genESP_def
    by (intro ends_bind ends_defer ends_genESP ends_returns returns_intros)
  show ?thesis
    unfolding iso_body_def Let_def
    by (intro ends_bind ends_defer; (rule g)?; (rule ends_returns)?; (intro returns_intros)?)
      (simp_all add: xorriso_args_def)
qed

lemma ends_Create:
  assumes "manifests_have_layers (t_oci T)"
  shows "ends (Create T isoFile opts)"
proof (cases "ISOOptions_Check opts")
  case None
  have "ends (bindE (OciBoot_getBootKit T) (\<lambda>_. bindE (getE snd) (\<lambda>b. liftW (iso_body T isoFile opts b))))"
    by (intro ends_bind ends_liftW ends_iso_body; (rule ends_returns)?; (intro returns_intros assms)?)
  with None show ?thesis by (simp add: Create_def)
qed (simp add: Create_def ends_returns returns_throw)

text \<open>
  C6: Every run of oci-boot ends: with nil or an error, or, only with --cdrom, by ending the process with
  status 1; whatever the command line is and whatever fails. It never panics, if every image it
  is given has a layer (an image without one makes UnpackLayer panic).
\<close>

theorem doMain_always_ends:
  assumes "manifests_have_layers (t_oci T)"
  shows "returned (fst (doMain T ctx w)) \<or> ctx_Bool ctx ''cdrom'' \<and> fst (doMain T ctx w) = Exit 1"
proof (cases "parse_args ctx")
  case (Inr bm)
  obtain b m where bm: "bm = (b, m)" by (cases bm)
  have fst_run: "fst (doMain T ctx w) = fst (doMain_body T ctx m (w, b))"
    using Inr bm by (auto simp: doMain_def split: prod.splits)
  show ?thesis
  proof (cases "ctx_Bool ctx ''cdrom''")
    case True
    then have "ends (doMain_body T ctx m)"
      unfolding doMain_body_def by (simp add: ends_defer ends_Create assms returns_Cleanup)
    with True show ?thesis by (simp add: fst_run ends_def)
  next
    case False
    then have "returns (doMain_body T ctx m)"
      unfolding doMain_body_def by (simp add: returns_defer returns_CreateDisk assms returns_Cleanup)
    then show ?thesis by (simp add: fst_run returns_def)
  qed
qed (simp add: doMain_def)

theorem doMain_always_ends_witness:
  "returned (fst (doMain sample_tools (boot_ctx True ''efi-shim'') full_disk)) \<or>
    ctx_Bool (boot_ctx True ''efi-shim'') ''cdrom'' \<and>
      fst (doMain sample_tools (boot_ctx True ''efi-shim'') full_disk) = Exit 1"
  by (rule doMain_always_ends) (simp add: manifests_have_layers_def sample_tools_def sample_oci_def)

end
