(* ===== verification/Lifecycle.thy ===== *)
theory Lifecycle
  imports Oci_Main
begin

text \<open>
  The OciBoot value as a state machine: its methods called one after the other, in any order and
  whatever they return. The invariant is that what is left to clean up is what the registered
  cleanup functions remove; Cleanup, when it returns nil, has removed it.
\<close>

section \<open>The methods as steps\<close>

inductive boot_step :: "('e, 'm, 'f, 'h) tools \<Rightarrow> world \<times> OciBoot \<Rightarrow> world \<times> OciBoot \<Rightarrow> bool" for T where
  GetBootKit: "OciBoot_getBootKit T s = (r, s') \<Longrightarrow> returned r \<Longrightarrow> boot_step T s s'"
| MakeDisk: "CreateDisk T diskFile dopts s = (r, s') \<Longrightarrow> returned r \<Longrightarrow> boot_step T s s'"
| MakeIso: "Create T isoFile iopts s = (r, s') \<Longrightarrow> returned r \<Longrightarrow> boot_step T s s'"
| Fill: "Populate T (snd s) target (fst s) = (r, w') \<Longrightarrow> returned r \<Longrightarrow> boot_step T s (w', snd s)"
| FillEFI: "PopulateEFI T (snd s) mode cmdline destd (fst s) = (r, w') \<Longrightarrow> returned r \<Longrightarrow>
    boot_step T s (w', snd s)"
| MakeESP: "OciBoot_genESP T (snd s) iopts fname (fst s) = (r, w') \<Longrightarrow> returned r \<Longrightarrow>
    boot_step T s (w', snd s)"
| CleanUp: "OciBoot_Cleanup s = (r, s') \<Longrightarrow> returned r \<Longrightarrow> boot_step T s s'"

inductive_cases boot_stepE: "boot_step T s s'"

abbreviation boot_reaches :: "('e, 'm, 'f, 'h) tools \<Rightarrow> world \<times> OciBoot \<Rightarrow> world \<times> OciBoot \<Rightarrow> bool" where
  "boot_reaches T \<equiv> (boot_step T)\<^sup>*\<^sup>*"

text \<open>
  held b p: a cleanup function of b removes p. The invariant of a run from w0: what was made
  since then and not removed is held, and the bootkit directory was set together with a cleanup.
\<close>

definition held :: "OciBoot \<Rightarrow> string \<Rightarrow> bool" where
  "held b p \<longleftrightarrow> list_ex (\<lambda>cl. covered cl p) (cleanups b)"

definition boot_inv :: "world \<Rightarrow> world \<times> OciBoot \<Rightarrow> bool" where
  "boot_inv w0 s \<longleftrightarrow> calm_rel (held (snd s)) w0 False (fst s)"

lemma calm_rel_mono: "calm_rel D w x w' \<Longrightarrow> (\<And>p. D p \<Longrightarrow> D' p) \<Longrightarrow> calm_rel D' w x w'"
  unfolding calm_rel_def by blast

lemma boot_inv_calm:
  assumes "boot_inv w0 (w, b)" and "calm_rel (\<lambda>_. False) w False w'"
  shows "boot_inv w0 (w', b)"
proof -
  have "calm_rel (held b) w False w'" using assms(2) by (rule calm_rel_mono) simp
  with assms(1) [unfolded boot_inv_def fst_conv snd_conv]
  show ?thesis unfolding boot_inv_def fst_conv snd_conv by (rule calm_rel_trans)
qed

lemma boot_inv_body:
  assumes "boot_inv w0 s" and "io_respects (calm_rel (\<lambda>_. False)) m" and "m (fst s) = (r, w')" and "returned r"
  shows "boot_inv w0 (w', snd s)"
proof -
  have "calm_rel (\<lambda>_. False) (fst s) False w'"
    using io_respectsD [OF assms(2,3)] assms(4) by (cases r) auto
  then show ?thesis using assms(1) boot_inv_calm [of w0 "fst s" "snd s" w'] by simp
qed

text \<open>getBootKit registers the cleanup together with what it has made.\<close>

lemma boot_inv_getBootKit:
  assumes "atomfs_mounts (t_oci T)" and "boot_inv w0 s" and "OciBoot_getBootKit T s = (r, s')" and "returned r"
  shows "boot_inv w0 s'"
proof (cases "bootKitDir (snd s) \<noteq> []")
  case True
  with assms(2,3) show ?thesis by (simp add: OciBoot_getBootKit_def bindE_def io_run)
next
  case False
  obtain q v where g: "getBootKit (t_progs T) (t_oci T) (BootKit (snd s)) (fst s) = (q, v)" by fastforce
  show ?thesis
  proof (cases q)
    case (Ok x)
    obtain cl path err where x: "x = (cl, path, err)" by (cases x)
    from getBootKit_covered [OF assms(1) g [unfolded Ok x]] have c: "calm_rel (covered cl) (fst s) False v" .
    from assms(3) False g Ok x have s': "fst s' = v" "cleanups (snd s') = cleanups (snd s) @ [cl]"
      by (auto simp: OciBoot_getBootKit_def bindE_def io_run liftW_def modifyO_def split: option.splits)
    have "calm_rel (held (snd s')) w0 False (fst s)"
      using assms(2) by (auto simp: boot_inv_def held_def s' elim: calm_rel_mono)
    moreover have "calm_rel (held (snd s')) (fst s) False v"
      using c by (rule calm_rel_mono) (simp add: held_def s')
    ultimately show ?thesis unfolding boot_inv_def s'(1) by (rule calm_rel_trans)
  next
    case (Err e)
    with g noerr_getBootKit [of "t_progs T" "t_oci T" "BootKit (snd s)"] show ?thesis by (auto simp: noerr_def)
  qed (use assms(3,4) False g in \<open>auto simp: OciBoot_getBootKit_def bindE_def io_run liftW_def\<close>)
qed

text \<open>The bodies run with the receiver getBootKit has left.\<close>

lemma after_getBootKit:
  assumes "atomfs_mounts (t_oci T)" and "boot_inv w0 s" and "\<And>b. io_respects (calm_rel (\<lambda>_. False)) (body b)"
    and "bindE (OciBoot_getBootKit T) (\<lambda>_. bindE (getE snd) (\<lambda>b. liftW (body b))) s = (r, s')" and "returned r"
  shows "boot_inv w0 s'"
proof -
  obtain q v where g: "OciBoot_getBootKit T s = (q, v)" by (cases "OciBoot_getBootKit T s")
  show ?thesis
  proof (cases q)
    case (Ok u)
    with boot_inv_getBootKit [OF assms(1,2) g] have v: "boot_inv w0 v" by simp
    from assms(4) g Ok have "body (snd v) (fst v) = (r, fst s')" "snd s' = snd v"
      by (auto simp: bindE_def io_run liftW_def split: prod.splits)
    with boot_inv_body [OF v assms(3) this(1) assms(5)] show ?thesis by (metis prod.collapse)
  next
    case (Err e)
    with assms(4) g boot_inv_getBootKit [OF assms(1,2) g] show ?thesis by (auto simp: bindE_def)
  qed (use assms(4,5) g in \<open>auto simp: bindE_def\<close>)
qed

section \<open>Cleanup\<close>

lemma uncleaned_after_remove:
  "p \<in> set (uncleaned (t @ [EvRemoveAll d])) \<Longrightarrow> p \<in> set (uncleaned t) \<and> \<not> under d p"
  using uncleaned_append [of p t "[EvRemoveAll d]"] by simp

lemma calm_rel_RemoveAll:
  assumes "calm_rel (\<lambda>p. d \<noteq> [] \<and> under d p \<or> D p) w0 False w" and "os_RemoveAll d w = (r, w')"
  shows "calm_rel D w0 False w'"
proof -
  have w': "w' = snd (os_RemoveAll d w)" using assms(2) by simp
  from assms(1) obtain t where t: "trace w = trace w0 @ t" "\<forall>p \<in> set (uncleaned t). d \<noteq> [] \<and> under d p \<or> D p"
    and env: "same_env w0 w" by (auto simp: calm_rel_def)
  show ?thesis
  proof (cases "d = []")
    case True
    with assms show ?thesis by (auto simp: os_RemoveAll_def elim: calm_rel_mono)
  next
    case False
    have "\<forall>p \<in> set (uncleaned (t @ [EvRemoveAll d])). D p" using t(2) uncleaned_after_remove by blast
    moreover have "same_env w0 w'" using env RemoveAll_env [of w d] w' same_env_trans by blast
    ultimately show ?thesis unfolding calm_rel_def
      using t(1) RemoveAll_trace [OF False, of w] w' by auto
  qed
qed

lemma run_cleanups_calm:
  assumes "calm_rel (\<lambda>p. list_ex (\<lambda>cl. covered cl p) cs \<or> D p) w0 False w" and "run_cleanups cs w = (Ok u, w')"
  shows "calm_rel D w0 False w'"
  using assms
proof (induction cs arbitrary: w)
  case Nil
  then show ?case by (auto simp: returnE_Ok elim: calm_rel_mono)
next
  case (Cons c cs)
  from Cons.prems(2) obtain v where c: "run_cleanup c w = (Ok (), v)" and rest: "run_cleanups cs v = (Ok u, w')"
    by (auto simp: bindE_Ok)
  have "calm_rel (\<lambda>p. list_ex (\<lambda>cl. covered cl p) cs \<or> D p) w0 False v"
  proof (cases c)
    case NoCleanup
    with c Cons.prems(1) show ?thesis by (auto simp: run_cleanup_def returnE_Ok covered_def elim: calm_rel_mono)
  next
    case (RemoveDir d)
    with c have rm: "os_RemoveAll d w = (Ok (), v)" by (simp add: run_cleanup_def)
    have "calm_rel (\<lambda>p. d \<noteq> [] \<and> under d p \<or> (list_ex (\<lambda>cl. covered cl p) cs \<or> D p)) w0 False w"
      using Cons.prems(1) by (rule calm_rel_mono) (auto simp: covered_def RemoveDir)
    from calm_rel_RemoveAll [OF this rm] show ?thesis .
  qed
  from Cons.IH [OF this rest] show ?case .
qed

lemma boot_inv_Cleanup:
  assumes "boot_inv w0 s" and "OciBoot_Cleanup s = (r, s')"
  shows "boot_inv w0 s'" and "r = Ok () \<Longrightarrow> calm_rel (\<lambda>_. False) w0 False (fst s')"
proof -
  from assms(2) have run: "run_cleanups (cleanups (snd s)) (fst s) = (r, fst s')" and b: "snd s' = snd s"
    by (auto simp: OciBoot_Cleanup_def bindE_def io_run liftW_def split: prod.splits)
  have "io_respects (calm_rel D) (run_cleanups cs)" for D cs
    by (induction cs) (auto intro!: respects_intros)
  from io_respectsD [OF this run, of "held (snd s)"]
  have "calm_rel (held (snd s)) (fst s) (is_Exit r) (fst s')" .
  moreover have "\<not> is_Exit r"
    using io_respectsD [OF noexit_run_cleanups run] by (simp add: noexit_rel_def)
  ultimately have "calm_rel (held (snd s)) (fst s) False (fst s')" by simp
  with assms(1) [unfolded boot_inv_def] show "boot_inv w0 s'"
    unfolding boot_inv_def b by (rule calm_rel_trans)
  assume "r = Ok ()"
  with run_cleanups_calm [of "cleanups (snd s)" "\<lambda>_. False" w0 "fst s"] run assms(1)
  show "calm_rel (\<lambda>_. False) w0 False (fst s')" by (simp add: boot_inv_def held_def [abs_def])
qed

section \<open>The invariant of every run\<close>

lemma boot_step_inv:
  assumes "boot_step T s s'" and "atomfs_mounts (t_oci T)" and "boot_inv w0 s"
  shows "boot_inv w0 s'"
  using assms(1)
proof cases
  case GetBootKit
  with boot_inv_getBootKit [OF assms(2,3)] show ?thesis by blast
next
  case (MakeDisk diskFile dopts r)
  show ?thesis
    by (rule after_getBootKit [OF assms(2,3) _ MakeDisk(1) [unfolded CreateDisk_def] MakeDisk(2)]) (rule calm_disk_body)
next
  case (MakeIso isoFile iopts r)
  show ?thesis
  proof (cases "ISOOptions_Check iopts")
    case None
    with MakeIso(1) have "bindE (OciBoot_getBootKit T) (\<lambda>_. bindE (getE snd) (\<lambda>b. liftW (iso_body T isoFile iopts b))) s = (r, s')"
      by (simp add: Create_def)
    from after_getBootKit [OF assms(2,3) _ this MakeIso(2)] show ?thesis by (simp add: calm_iso_body)
  qed (use MakeIso assms(3) in \<open>simp add: Create_def io_run\<close>)
next
  case (Fill target r w')
  with boot_inv_body [OF assms(3) calm_Populate] show ?thesis by simp
next
  case (FillEFI mode cmdline destd r w')
  with boot_inv_body [OF assms(3) calm_PopulateEFI] show ?thesis by simp
next
  case (MakeESP iopts fname r w')
  with boot_inv_body [OF assms(3) calm_OciBoot_genESP] show ?thesis by simp
next
  case CleanUp
  with boot_inv_Cleanup(1) [OF assms(3)] show ?thesis by blast
qed

lemma boot_reaches_inv:
  assumes "boot_reaches T s s'" and "atomfs_mounts (t_oci T)" and "boot_inv w0 s"
  shows "boot_inv w0 s'"
  using assms(1,3)
proof (induction rule: rtranclp_induct)
  case (step s1 s2)
  with boot_step_inv [OF step.hyps(2) assms(2)] show ?case by blast
qed



text \<open>A run that extracts the bootkit of an OCI reference.\<close>

abbreviation ref_boot :: "world \<times> OciBoot" where
  "ref_boot \<equiv> (sample_world kit_fs, sample_boot\<lparr>BootKit := ''oci:/r:kit:1''\<rparr>)"

abbreviation ref_run :: "unit outcome \<times> (world \<times> OciBoot)" where
  "ref_run \<equiv> OciBoot_getBootKit sample_tools ref_boot"

lemma ref_run_reached: "boot_reaches sample_tools ref_boot (snd ref_run)"
proof (rule r_into_rtranclp, rule boot_step.GetBootKit)
  show "ref_run = (fst ref_run, snd ref_run)" by simp
  show "returned (fst ref_run)" by code_simp
qed

lemma sample_mounts: "atomfs_mounts (t_oci sample_tools)"
  by (simp add: atomfs_mounts_def sample_tools_def sample_oci_def)



end
