(* ===== verification/Tree_Inv.thy ===== *)
theory Tree_Inv
  imports Path_Keys
begin

text \<open>
  The invariant of a file system: every path is one of proper names, and the parent of every
  node is a directory. The calls of OS_World keep it, on every schedule of failures, and through
  the locale io_effect so does every function built from them; the component theories use it
  for what depends on it, an empty temporary directory above all.
\<close>

section \<open>Well-formed file systems\<close>

definition is_dir_at :: "filesys \<Rightarrow> key \<Rightarrow> bool" where
  "is_dir_at m k = (case node_at m k of Some (Dir p) \<Rightarrow> True | _ \<Rightarrow> False)"

definition wf_fs :: "filesys \<Rightarrow> bool" where
  "wf_fs m = list_all (\<lambda>(k, n). list_all proper_comp k \<and> is_dir_at m (butlast k)) m"

lemma is_dir_at_iff: "is_dir_at m k \<longleftrightarrow> (\<exists>p. node_at m k = Some (Dir p))"
  by (auto simp: is_dir_at_def split: option.splits node.splits)

lemma wf_fs_iff:
  "wf_fs m \<longleftrightarrow> (\<forall>k. node_at m k \<noteq> None \<longrightarrow> list_all proper_comp k \<and> is_dir_at m (butlast k))"
proof -
  have "is_dir_at m []" by (simp add: is_dir_at_iff node_at_def)
  moreover have "wf_fs m \<longleftrightarrow> (\<forall>k. map_of m k \<noteq> None \<longrightarrow> list_all proper_comp k \<and> is_dir_at m (butlast k))"
    unfolding wf_fs_def list_all_iff map_of_eq_None_iff by fastforce
  ultimately have "wf_fs m \<longleftrightarrow> (\<forall>k. k \<noteq> [] \<longrightarrow> map_of m k \<noteq> None \<longrightarrow> list_all proper_comp k \<and> is_dir_at m (butlast k))"
    by (metis butlast.simps(1) list.pred_inject(1))
  moreover from \<open>is_dir_at m []\<close> have "list_all proper_comp [] \<and> is_dir_at m (butlast [])" by simp
  ultimately show ?thesis unfolding node_at_def by (metis option.distinct(1))
qed

lemma wf_fs_parent:
  assumes "wf_fs m" and "node_at m (k @ r) \<noteq> None" and "r \<noteq> []"
  shows "is_dir_at m k"
  using assms(2,3)
proof (induction r rule: rev_induct)
  case (snoc c r)
  then have "is_dir_at m (k @ r)" using assms(1) by (auto simp: wf_fs_iff butlast_append dest!: spec [of _ "k @ r @ [c]"])
  with snoc show ?case by (cases "r = []") (auto simp: is_dir_at_iff)
qed simp

lemma wf_fs_proper: "wf_fs m \<Longrightarrow> node_at m k \<noteq> None \<Longrightarrow> list_all proper_comp k"
  by (simp add: wf_fs_iff)

lemma wf_fs_nil [simp]: "wf_fs []"
  by (simp add: wf_fs_def)

lemma wf_fs_put:
  assumes "wf_fs m" and "list_all proper_comp k" and "is_dir_at m (butlast k)"
    and "is_dir_at m k \<Longrightarrow> \<exists>p. n = Dir p"
  shows "wf_fs (fs_put k n m)"
  unfolding wf_fs_iff
proof (intro allI impI)
  fix q
  assume q: "node_at (fs_put k n m) q \<noteq> None"
  have par: "is_dir_at (fs_put k n m) j" if "is_dir_at m j" for j
    using that assms(4) by (auto simp: is_dir_at_iff)
  show "list_all proper_comp q \<and> is_dir_at (fs_put k n m) (butlast q)"
  proof (cases "q = k")
    case True
    with assms(2) par [OF assms(3)] show ?thesis by simp
  next
    case False
    with q have "node_at m q \<noteq> None" by simp
    with assms(1) have "list_all proper_comp q" "is_dir_at m (butlast q)" by (simp_all add: wf_fs_iff)
    with par show ?thesis by simp
  qed
qed

lemma wf_fs_write:
  assumes "wf_fs m" and "node_at m k = Some (File p b)"
  shows "wf_fs (fs_put k (File p' b') m)"
  using assms by (intro wf_fs_put) (auto simp: wf_fs_iff is_dir_at_iff)

lemma take_butlast_prefix: "take (length a) (butlast b) = a \<Longrightarrow> take (length a) b = a" for a b :: key
  by (cases b rule: rev_cases) (auto dest: arg_cong [of _ _ length])

lemma wf_fs_remove: "wf_fs m \<Longrightarrow> wf_fs (fs_remove_tree k m)"
proof (cases "k = []")
  case False
  assume m: "wf_fs m"
  with m False show ?thesis
    by (auto simp: wf_fs_iff is_dir_at_iff node_at_remove_tree dest: take_butlast_prefix)
qed (simp add: fs_remove_tree_def)

lemma map_of_filter_files:
  assumes "map_of m k = Some (Dir p)" and "\<And>q p'. P (q, Dir p')"
  shows "map_of (filter P m) k = Some (Dir p)"
  using assms(1) by (induction m) (auto simp: assms(2) split: if_splits)

lemma wf_fs_filter_files:
  assumes "wf_fs m" and "\<And>q p. P (q, Dir p)"
  shows "wf_fs (filter P m)"
proof -
  have "is_dir_at (filter P m) k" if "is_dir_at m k" for k
    using that map_of_filter_files [where P = P, OF _ assms(2)] by (auto simp: is_dir_at_iff node_at_def)
  with assms(1) show ?thesis by (auto simp: wf_fs_def list_all_iff)
qed

lemma wf_fs_mkdirs:
  assumes "mkdirs perm pre cs m = Inr m'" and "wf_fs m" and "is_dir_at m pre" and "list_all proper_comp (pre @ cs)"
  shows "wf_fs m'"
  using assms
proof (induction cs arbitrary: pre m)
  case (Cons c cs)
  show ?case
  proof (cases "node_at m (pre @ [c])")
    case None
    with Cons.prems have "wf_fs (fs_put (pre @ [c]) (Dir perm) m)" by (intro wf_fs_put) auto
    with Cons.prems None Cons.IH [of "pre @ [c]" "fs_put (pre @ [c]) (Dir perm) m"] show ?thesis
      by (simp add: is_dir_at_iff)
  next
    case (Some n)
    with Cons.prems Cons.IH [of "pre @ [c]" m] show ?thesis
      by (cases n) (auto simp: is_dir_at_iff)
  qed
qed simp

lemma path_errno_parent:
  assumes "path_errno m pre (cs @ [c]) = None" and "is_dir_at m pre"
  shows "is_dir_at m (pre @ cs)"
  using assms
proof (induction cs arbitrary: pre)
  case (Cons d cs)
  then obtain p where "node_at m (pre @ [d]) = Some (Dir p)" and "path_errno m (pre @ [d]) (cs @ [c]) = None"
    by (cases cs) (auto split: option.splits node.splits)
  with Cons.IH [of "pre @ [d]"] show ?case by (simp add: is_dir_at_iff)
qed simp

text \<open>In a well-formed file system nothing goes wrong on the way to a node.\<close>

lemma path_errno_None:
  assumes "wf_fs m" and "node_at m (pre @ cs) \<noteq> None"
  shows "path_errno m pre cs = None"
  using assms(2)
proof (induction cs arbitrary: pre rule: induct_list012)
  case (3 c d cs)
  then have "node_at m ((pre @ [c]) @ (d # cs)) \<noteq> None" by simp
  from wf_fs_parent [OF assms(1) this] 3(2) [of "pre @ [c]"] 3(3) show ?case
    by (auto simp: is_dir_at_iff)
qed simp_all

section \<open>Rename\<close>

lemma map_of_rekey:
  assumes "inj_on f (fst ` set m)" and "k \<in> fst ` set m"
  shows "map_of (map (\<lambda>(k, n). (f k, n)) m) (f k) = map_of m k"
  using assms
proof (induction m)
  case (Cons x m)
  obtain j n where x: "x = (j, n)" by (cases x)
  have "f j = f k \<longleftrightarrow> j = k" using Cons.prems by (auto simp: x inj_on_def)
  with Cons x show ?case by (cases "k \<in> fst ` set m") (auto simp: inj_on_def)
qed simp

text \<open>The keys Rename changes: those below old go below new.\<close>

definition rename_key :: "key \<Rightarrow> key \<Rightarrow> key \<Rightarrow> key" where
  "rename_key old new k = (if take (length old) k = old then new @ drop (length old) k else k)"

lemma rename_fs_eq:
  "rename_fs old new m = map (\<lambda>(k, n). (rename_key old new k, n)) (filter (\<lambda>(k, n). k = old \<or> k \<noteq> new) m)"
  by (simp add: rename_fs_def rename_key_def)

lemma wf_fs_rename:
  assumes "wf_fs m" and "old \<noteq> new" and "take (length old) new \<noteq> old" and "old \<noteq> []"
    and "list_all proper_comp new" and "is_dir_at m (butlast new)" and "\<not> is_dir_at m new"
  shows "wf_fs (rename_fs old new m)"
proof -
  let ?f = "rename_key old new" and ?m = "filter (\<lambda>(k, n). k = old \<or> k \<noteq> new) m"
  have new: "new \<noteq> []" using assms(7) by (auto simp: is_dir_at_iff node_at_def)
  have key: "k \<in> fst ` set ?m \<longleftrightarrow> k \<in> fst ` set m \<and> k \<noteq> new" for k
    using assms(2) by force
  have no_below: "\<not> (take (length new) k = new \<and> k \<noteq> new)" if "k \<in> fst ` set m" for k
  proof
    assume k: "take (length new) k = new \<and> k \<noteq> new"
    then have "k = new @ drop (length new) k" and "drop (length new) k \<noteq> []"
      by (metis append_take_drop_id) (use k in \<open>auto simp: take_all_iff\<close>)
    moreover have "node_at m k \<noteq> None" using that map_of_eq_None_iff [of m k] by (auto simp: node_at_def)
    ultimately have "is_dir_at m new" using wf_fs_parent [OF assms(1)] by metis
    with assms(7) show False ..
  qed
  have inj: "inj_on ?f (fst ` set ?m)"
  proof (rule inj_onI)
    fix a b
    assume a: "a \<in> fst ` set ?m" and b: "b \<in> fst ` set ?m" and eq: "?f a = ?f b"
    show "a = b"
    proof (cases "take (length old) a = old"; cases "take (length old) b = old")
      assume "take (length old) a = old" "take (length old) b = old"
      with eq show ?thesis by (metis append_take_drop_id rename_key_def same_append_eq)
    next
      assume "take (length old) a = old" "take (length old) b \<noteq> old"
      with eq have "b = new @ drop (length old) a" by (simp add: rename_key_def)
      then have "take (length new) b = new" by simp
      with b no_below [of b] show ?thesis unfolding key by blast
    next
      assume "take (length old) a \<noteq> old" "take (length old) b = old"
      with eq have "a = new @ drop (length old) b" by (simp add: rename_key_def)
      then have "take (length new) a = new" by simp
      with a no_below [of a] show ?thesis unfolding key by blast
    qed (use eq in \<open>simp add: rename_key_def\<close>)
  qed
  have sel: "map_of ?m k = map_of m k" if "k \<noteq> new" for k
    using that by (induction m) auto
  have dir: "is_dir_at (rename_fs old new m) (?f k)" if "is_dir_at m k" and "k \<noteq> new" for k
  proof (cases "k = []")
    case True
    then show ?thesis using assms(4) by (simp add: rename_key_def is_dir_at_iff node_at_def)
  next
    case False
    with that obtain p where p: "map_of m k = Some (Dir p)" by (auto simp: is_dir_at_iff node_at_def)
    then have "k \<in> fst ` set ?m" using that(2) by (force dest: map_of_SomeD simp: key)
    from map_of_rekey [OF inj this] sel [OF that(2)] p
    have "map_of (rename_fs old new m) (?f k) = Some (Dir p)" by (simp add: rename_fs_eq)
    moreover have "?f k \<noteq> []" using False new by (simp add: rename_key_def)
    ultimately show ?thesis by (simp add: is_dir_at_iff node_at_def)
  qed
  have "list_all proper_comp (?f k) \<and> is_dir_at (rename_fs old new m) (butlast (?f k))"
    if "(k, n) \<in> set ?m" for k n
  proof -
    from that have km: "(k, n) \<in> set m" and kn: "k \<noteq> new" using assms(2) by auto
    with assms(1) have k: "list_all proper_comp k" "is_dir_at m (butlast k)" by (auto simp: wf_fs_def list_all_iff)
    have pk: "list_all proper_comp (?f k)"
      using k(1) assms(5) by (auto simp: rename_key_def list_all_iff dest: in_set_dropD)
    have bn: "butlast k \<noteq> new" using k(2) assms(7) by auto
    show ?thesis
    proof (cases "k = old")
      case True
      have "take (length old) (butlast new) \<noteq> old" using assms(3) take_butlast_prefix by blast
      then have "?f (butlast new) = butlast new" by (simp add: rename_key_def)
      moreover have "butlast new \<noteq> new" using new by (cases new rule: rev_cases) auto
      ultimately show ?thesis using dir [OF assms(6)] pk True by (simp add: rename_key_def)
    next
      case False
      have "butlast (?f k) = ?f (butlast k)"
      proof (cases "take (length old) k = old")
        case True
        with False obtain r where "k = old @ r" and "r \<noteq> []"
          by (metis append_Nil2 append_take_drop_id)
        then show ?thesis by (simp add: rename_key_def butlast_append)
      next
        case not: False
        then have "take (length old) (butlast k) \<noteq> old" using take_butlast_prefix by blast
        with not show ?thesis by (simp add: rename_key_def)
      qed
      with dir [OF k(2) bn] pk show ?thesis by simp
    qed
  qed
  then show ?thesis by (auto simp: wf_fs_def rename_fs_eq list_all_iff)
qed

section \<open>The calls keep it\<close>

definition wf_world :: "world \<Rightarrow> bool" where
  "wf_world w \<longleftrightarrow> wf_fs (fs w) \<and> path_IsAbs (cwd w)"

definition keeps_rel :: "world \<Rightarrow> bool \<Rightarrow> world \<Rightarrow> bool" where
  "keeps_rel w x w' \<longleftrightarrow> (wf_world w \<longrightarrow> wf_world w')"

interpretation keeps: io_effect keeps_rel
  by unfold_locales (auto simp: keeps_rel_def)

lemma keeps_runD: "io_respects keeps_rel m \<Longrightarrow> m w = (r, w') \<Longrightarrow> wf_world w \<Longrightarrow> wf_world w'"
  using io_respectsD [of keeps_rel m w r w'] by (simp add: keeps_rel_def)

lemma wf_world_upd [simp]:
  "wf_world (w\<lparr>tick := n\<rparr>) = wf_world w" "wf_world (w\<lparr>rnd := n\<rparr>) = wf_world w"
  "wf_world (w\<lparr>trace := tr\<rparr>) = wf_world w" "wf_world (log_event ev w) = wf_world w"
  "wf_world (w\<lparr>fs := m\<rparr>) \<longleftrightarrow> wf_fs m \<and> path_IsAbs (cwd w)"
  by (simp_all add: wf_world_def log_event_def)

lemma proper_path_key: "wf_world w \<Longrightarrow> list_all proper_comp (path_key w p)"
proof -
  assume w: "wf_world w"
  have abs: "path_IsAbs (if path_IsAbs p then p else cwd w @ ''/'' @ p)"
    using w by (auto simp: wf_world_def path_IsAbs_iff)
  with path_comps_cleaned [of "if path_IsAbs p then p else cwd w @ ''/'' @ p"] show ?thesis
    by (auto simp: path_key_def cleaned_comps_def list_all_iff)
qed

lemma path_errno_butlast:
  assumes "path_errno m [] k = None"
  shows "is_dir_at m (butlast k)"
proof (cases k rule: rev_cases)
  case (snoc ks c)
  with path_errno_parent [of m "[]" ks c] assms show ?thesis by (simp add: is_dir_at_iff)
qed (simp add: is_dir_at_iff)

lemma wf_put_node:
  assumes "wf_world w" and "path_errno (fs w) [] (path_key w p) = None"
    and "is_dir_at (fs w) (path_key w p) \<Longrightarrow> \<exists>m. n = Dir m"
  shows "wf_world (put_node (path_key w p) n w)"
  unfolding put_node_def using assms proper_path_key [OF assms(1), of p] path_errno_butlast [OF assms(2)]
  by (simp add: wf_world_def wf_fs_put)

lemma wf_append_file: "wf_world w \<Longrightarrow> wf_world (append_file k b w)"
  by (auto simp: append_file_def put_node_def wf_world_def intro: wf_fs_write
      split: option.splits node.splits)

lemma keeps_sysp:
  assumes "\<And>w x w'. wf_world w \<Longrightarrow> f w = Inr (x, w') \<Longrightarrow> wf_world w'"
    and "\<And>n w. wf_world w \<Longrightarrow> wf_world (part n w)"
  shows "io_respects keeps_rel (sysp mk part f)"
proof (rule io_respectsI)
  fix w r w'
  assume "sysp mk part f w = (r, w')"
  then show "keeps_rel w (is_Exit r) w'"
    using assms(1) [of "w\<lparr>tick := Suc (tick w)\<rparr>"] assms(2) [of "w\<lparr>tick := Suc (tick w)\<rparr>"]
    by (auto simp: sysp_def Let_def keeps_rel_def split: option.splits sum.splits)
qed

lemma keeps_sys:
  assumes "\<And>w x w'. wf_world w \<Longrightarrow> f w = Inr (x, w') \<Longrightarrow> wf_world w'"
  shows "io_respects keeps_rel (sys mk f)"
  unfolding sys_def by (rule keeps_sysp) (auto intro: assms)

text \<open>Calls that only look, or that move nothing but counters.\<close>

lemma reads_imp_keeps: "io_respects reads_rel m \<Longrightarrow> io_respects keeps_rel m"
  by (auto simp: io_respects_def keeps_rel_def reads_rel_def wf_world_def same_env_def)

lemmas keeps_reads [respects_intros] =
  reads_Stat [THEN reads_imp_keeps] reads_Open [THEN reads_imp_keeps] reads_Read [THEN reads_imp_keeps]
  reads_Close [THEN reads_imp_keeps] reads_fStat [THEN reads_imp_keeps]
  reads_ReadFile [THEN reads_imp_keeps] reads_Access [THEN reads_imp_keeps]

lemma keeps_looks [respects_intros]:
  "io_respects keeps_rel (f_Sync f)" "io_respects keeps_rel (f_Seek_start f)"
  "io_respects keeps_rel (os_ReadDir p)" "io_respects keeps_rel (f_Readdirnames f)"
  unfolding f_Sync_def f_Seek_start_def os_ReadDir_def f_Readdirnames_def
  by (rule keeps_sys; auto split: sum.splits option.splits node.splits)+

lemma keeps_Abs [respects_intros]: "io_respects keeps_rel (filepath_Abs p)"
  unfolding filepath_Abs_def by (intro respects_intros keeps_sys) auto

lemma keeps_Stderr [respects_intros]: "io_respects keeps_rel (os_Stderr s)"
  by (auto simp: io_respects_def keeps_rel_def os_Stderr_def)

text \<open>Calls that change the file system.\<close>

lemma keeps_OpenFile [respects_intros]: "io_respects keeps_rel (os_OpenFile p fl perm)"
  unfolding os_OpenFile_def
  by (rule keeps_sys)
    (auto simp: open_step_def Let_def is_dir_at_iff intro!: wf_put_node
      split: if_splits option.splits node.splits)

lemma keeps_Create [respects_intros]: "io_respects keeps_rel (os_Create p)"
  unfolding os_Create_def by (intro respects_intros)

lemma keeps_Write [respects_intros]: "io_respects keeps_rel (f_Write f b)"
  by (auto simp: io_respects_def keeps_rel_def f_Write_def Let_def wf_append_file split: option.splits)

lemma keeps_Copy [respects_intros]: "io_respects keeps_rel (io_Copy d s)"
  unfolding io_Copy_def
  by (rule keeps_sysp) (auto simp: copy_step_def wf_append_file split: option.splits node.splits)

lemma keeps_WriteFile [respects_intros]: "io_respects keeps_rel (os_WriteFile p b perm)"
  unfolding os_WriteFile_def by (intro respects_intros)

lemma keeps_Mkdir [respects_intros]: "io_respects keeps_rel (os_Mkdir p perm)"
  unfolding os_Mkdir_def
  by (rule keeps_sys) (auto simp: mkdir_step_def Let_def intro!: wf_put_node split: if_splits option.splits)

lemma keeps_MkdirAll [respects_intros]: "io_respects keeps_rel (os_MkdirAll p perm)"
proof -
  have part: "wf_fs m'" if "wf_world w" and "mkdirs q [] (take n (path_key w p)) (fs w) = Inr m'" for w q n m'
    using that proper_path_key [OF that(1), of p]
    by (intro wf_fs_mkdirs [OF that(2)]) (auto simp: wf_world_def is_dir_at_iff list_all_iff dest: in_set_takeD)
  have all: "wf_fs m'" if "wf_world w" and "mkdirs q [] (path_key w p) (fs w) = Inr m'" for w q m'
    using part [of w q "length (path_key w p)" m'] that by simp
  show ?thesis
    unfolding os_MkdirAll_def
  proof (rule keeps_sysp)
    fix w x w'
    assume w: "wf_world w" and "(if p = [] then Inl ENOENT
      else case mkdirs (perm AND NOT (umask w)) [] (path_key w p) (fs w) of
            Inl e \<Rightarrow> Inl e | Inr m \<Rightarrow> Inr ((), w\<lparr>fs := m\<rparr>)) = Inr (x, w')"
    with all [OF w] show "wf_world w'" by (auto simp: wf_world_def split: sum.splits if_splits)
  next
    fix n w
    assume w: "wf_world w"
    with part [OF w, of "perm AND NOT (umask w)" n]
    show "wf_world (case mkdirs (perm AND NOT (umask w)) [] (take n (path_key w p)) (fs w) of
        Inl e \<Rightarrow> w | Inr m \<Rightarrow> w\<lparr>fs := m\<rparr>)"
      by (auto simp: wf_world_def split: sum.splits)
  qed
qed

lemma keeps_RemoveAll [respects_intros]: "io_respects keeps_rel (os_RemoveAll p)"
proof (rule io_respectsI)
  fix w r w'
  assume run: "os_RemoveAll p w = (r, w')"
  have "io_respects keeps_rel (sysp (PathError ''unlinkat'' p)
        (\<lambda>n w. w\<lparr>fs := filter (\<lambda>(q, nd). \<not> (take (length (path_key w p)) q = path_key w p
                    \<and> is_file_node nd \<and> q \<in> set (take n (map fst (fs w))))) (fs w)\<rparr>)
        (\<lambda>w. Inr ((), w\<lparr>fs := fs_remove_tree (path_key w p) (fs w)\<rparr>)))"
    by (rule keeps_sysp)
      (auto simp: wf_world_def is_file_node_def intro!: wf_fs_remove wf_fs_filter_files)
  from io_respectsD [OF this, of "log_event (EvRemoveAll p) w" r w'] run show "keeps_rel w (is_Exit r) w'"
    by (auto simp: os_RemoveAll_def keeps_rel_def split: if_splits)
qed

lemma keeps_Remove [respects_intros]: "io_respects keeps_rel (os_Remove p)"
proof (rule io_respectsI)
  fix w r w'
  assume run: "os_Remove p w = (r, w')"
  have "io_respects keeps_rel (sys (PathError ''remove'' p)
     (\<lambda>w. case find_node w p of
        Inl e \<Rightarrow> Inl e
      | Inr (Dir m) \<Rightarrow> if fs_children (fs w) (path_key w p) \<noteq> [] then Inl ENOTEMPTY
                        else Inr ((), w\<lparr>fs := fs_remove_tree (path_key w p) (fs w)\<rparr>)
      | Inr _ \<Rightarrow> Inr ((), w\<lparr>fs := fs_remove_tree (path_key w p) (fs w)\<rparr>)))"
    by (rule keeps_sys) (auto simp: wf_world_def intro!: wf_fs_remove split: sum.splits node.splits if_splits)
  from io_respectsD [OF this, of "log_event (EvRemove p) w" r w'] run show "keeps_rel w (is_Exit r) w'"
    by (auto simp: os_Remove_def keeps_rel_def)
qed

lemma keeps_Rename [respects_intros]: "io_respects keeps_rel (os_Rename a b)"
proof -
  have "wf_world w'" if "wf_world w" and "rename_step a b w = Inr (x, w')" for w x w'
  proof (cases "w' = w")
    case False
    with that(2) have k: "path_key w a \<noteq> path_key w b" "take (length (path_key w a)) (path_key w b) \<noteq> path_key w a"
      "\<not> is_dir_at (fs w) (path_key w b)" "path_errno (fs w) [] (path_key w b) = None"
      and w': "w' = w\<lparr>fs := rename_fs (path_key w a) (path_key w b) (fs w)\<rparr>"
      by (auto simp: rename_step_def Let_def is_dir_at_def split: if_splits sum.splits option.splits node.splits)
    from k(2) have "path_key w a \<noteq> []" by auto
    with that(1) k proper_path_key [OF that(1), of b] path_errno_butlast [OF k(4)] show ?thesis
      by (simp add: w' wf_world_def wf_fs_rename)
  qed (use that in simp)
  then show ?thesis unfolding os_Rename_def by (intro keeps_sys) blast
qed

lemma keeps_Truncate [respects_intros]: "io_respects keeps_rel (os_Truncate p n)"
  unfolding os_Truncate_def
  by (rule keeps_sys)
    (auto simp: put_node_def wf_world_def find_node_def intro!: wf_fs_write dest!: resolve_node_Inr
      split: if_splits sum.splits node.splits)

lemma keeps_fTruncate [respects_intros]: "io_respects keeps_rel (f_Truncate f n)"
  unfolding f_Truncate_def
  by (rule keeps_sys)
    (auto simp: put_node_def wf_world_def intro!: wf_fs_write split: if_splits option.splits node.splits)

lemma keeps_temp_loop:
  "(\<And>p. io_respects keeps_rel (mkf p)) \<Longrightarrow> io_respects keeps_rel (temp_loop n op mkf dir pat)"
proof (rule io_respectsI)
  fix w r w'
  assume mkf: "\<And>p. io_respects keeps_rel (mkf p)" and "temp_loop n op mkf dir pat w = (r, w')"
  then show "keeps_rel w (is_Exit r) w'"
  proof (induction n arbitrary: w)
    case (Suc n)
    let ?p = "temp_path w dir pat (rands w (rnd w))" and ?w = "w\<lparr>rnd := Suc (rnd w)\<rparr>"
    obtain q v where m: "mkf ?p ?w = (q, v)" by (cases "mkf ?p ?w")
    have v: "keeps_rel w False v"
      using keeps_runD [OF Suc.prems(1) m] by (auto simp: keeps_rel_def)
    show ?case
    proof (cases q)
      case (Err e)
      show ?thesis
      proof (cases "is_exist e")
        case True
        with Suc.prems m Err have "temp_loop n op mkf dir pat v = (r, w')"
          by (simp add: temp_loop.simps [of "Suc n"])
        from Suc.IH [OF Suc.prems(1) this] v show ?thesis by (simp add: keeps_rel_def)
      qed (use Suc.prems m Err v in \<open>auto simp: temp_loop.simps [of "Suc n"] keeps_rel_def\<close>)
    qed (use Suc.prems m v in \<open>auto simp: temp_loop.simps [of "Suc n"] keeps_rel_def\<close>)
  qed (auto simp: temp_loop.simps keeps_rel_def)
qed

lemma keeps_temp [respects_intros]:
  "io_respects keeps_rel (os_MkdirTemp d pat)" "io_respects keeps_rel (os_CreateTemp d pat)"
  unfolding os_MkdirTemp_def os_CreateTemp_def by (intro keeps_temp_loop respects_intros)+

lemma keeps_Walk [respects_intros]:
  "(\<And>p r. io_respects keeps_rel (fn p r)) \<Longrightarrow> io_respects keeps_rel (filepath_Walk root fn)"
  unfolding filepath_Walk_def Let_def by (intro respects_intros)

text \<open>Programs are outside the sources: that they keep the invariant is a hypothesis about them.\<close>

definition programs_keep :: "programs \<Rightarrow> bool" where
  "programs_keep P \<longleftrightarrow> (\<forall>d argv m. wf_fs m \<longrightarrow> wf_fs (snd (P d argv m)))"

lemma keeps_exec [respects_intros]:
  assumes "programs_keep P"
  shows "io_respects keeps_rel (os_exec P d argv)"
proof -
  have "wf_fs m'" if "P d argv m = (r, m')" and "wf_fs m" for d m r m'
    using assms that unfolding programs_keep_def by (metis snd_conv)
  then show ?thesis
    by (auto simp: io_respects_def keeps_rel_def os_exec_def Let_def wf_world_def log_event_def
        split: option.splits prod.splits)
qed

section \<open>Fresh directories\<close>

lemma MkdirTemp_fresh:
  assumes "os_MkdirTemp d pat w = (Ok t, w')" and "wf_world w"
  shows "node_at (fs w') (path_key w' t @ q) = None \<or> q = []"
proof -
  from MkdirTemp_run [OF assms(1)] have n: "node_at (fs w) (path_key w t) = None" and env: "same_env w w'"
    and f: "fs w' = fs_put (path_key w t) (Dir (mode_0700 AND NOT (umask w))) (fs w)" by auto
  have "node_at (fs w) (path_key w t @ q) = None" if "q \<noteq> []"
    using wf_fs_parent [of "fs w" "path_key w t" q] assms(2) that n
    by (cases "node_at (fs w) (path_key w t @ q)") (auto simp: wf_world_def is_dir_at_iff)
  then show ?thesis by (auto simp: f same_env_path_key [OF env])
qed

end
