(* ===== verification/Tree_Bkcust.thy ===== *)
theory Tree_Bkcust
  imports Bkcust_Main Tree_Inv
begin

text \<open>bkcust keeps the file system well formed, whatever command is given and whatever fails.\<close>

section \<open>Packages\<close>

lemma keeps_cert [respects_intros]:
  "io_respects keeps_rel (CertFromPemFile C p)" "io_respects keeps_rel (KeyFromPemFile C p)"
  "io_respects keeps_rel (GUIDFromFile E p)" "io_respects keeps_rel (LoadSignatureDataDir C p)"
  unfolding CertFromPemFile_def KeyFromPemFile_def GUIDFromFile_def LoadSignatureDataDir_def
  by (intro respects_intros)+

lemma keeps_Capture_Error [respects_intros]:
  "programs_keep P \<Longrightarrow> io_respects keeps_rel (Capture_Error P args)"
  unfolding Capture_Error_def Capture_def by (intro respects_intros)

lemma keeps_SetSections [respects_intros]:
  "programs_keep P \<Longrightarrow> io_respects keeps_rel (SetSections P f ss)"
  unfolding SetSections_def by (intro respects_intros)

lemma keeps_SetVendorDB [respects_intros]:
  "programs_keep P \<Longrightarrow> io_respects keeps_rel (SetVendorDB P E ord sh db dbx)"
  unfolding SetVendorDB_def
  by (intro respects_intros VendorDBSectionWrite_respects keeps.io_effect_axioms)

lemma keeps_util [respects_intros]:
  "io_respects keeps_rel (CopyFileContents a b)" "io_respects keeps_rel (IsDir d)"
  "io_respects keeps_rel (PathExists d)" "io_respects keeps_rel (oci_PathExists d)"
  "io_respects keeps_rel (oci_isDir d)" "io_respects keeps_rel (copyFile a b)"
  unfolding CopyFileContents_def IsDir_def PathExists_def oci_PathExists_def oci_isDir_def copyFile_def
  by (intro respects_intros)+

lemma keeps_Smoosh [respects_intros]:
  "programs_keep P \<Longrightarrow> io_respects keeps_rel (Smoosh P stubEfi uki cmdline sbat krn initrd)"
  unfolding Smoosh_def write_or_fail_def by (intro respects_intros)

lemma keeps_OVMF [respects_intros]:
  "programs_keep P \<Longrightarrow> io_respects keeps_rel (OVMFPopulateSecureBoot P C E vin vout pk kek db mok)"
  unfolding OVMFPopulateSecureBoot_def sigDataArgs_def sigdata_arg_def by (intro respects_intros)

section \<open>Commands\<close>

lemma keeps_read_certs [respects_intros]:
  "io_respects keeps_rel (guidCert_loop C E ps)" "io_respects keeps_rel (read_keys C E what strs)"
  "io_respects keeps_rel (read_platform C E pk)"
  unfolding guidCert_loop_def guidCert_arg_def read_keys_def readGuidCertString_def read_platform_def Let_def
  by (intro respects_intros)+

lemma keeps_doSetDB: "programs_keep P \<Longrightarrow> io_respects keeps_rel (doSetDB P C E ord ctx)"
  unfolding doSetDB_def Let_def by (intro respects_intros)

lemma keeps_doVirtFW: "programs_keep P \<Longrightarrow> io_respects keeps_rel (doVirtFW P C E ctx)"
  unfolding doVirtFW_def virtfw_body_def Let_def by (intro respects_intros)

lemma keeps_doSignEfi: "io_respects keeps_rel (doSignEfi L C ctx)"
  unfolding doSignEfi_def Let_def by (intro respects_intros)

lemma keeps_doStubbySmoosh: "programs_keep P \<Longrightarrow> io_respects keeps_rel (doStubbySmoosh P ctx)"
  unfolding doStubbySmoosh_def Let_def by (intro respects_intros)

lemma keeps_writer [respects_intros]: "io_respects keeps_rel (writer_Write out b)"
proof (cases out)
  case StdoutWriter
  then show ?thesis by (simp add: writer_Write_def io_respects_def keeps_rel_def)
next
  case (FileWriter f)
  then show ?thesis by (auto simp: writer_Write_def intro!: respects_intros)
qed

lemma keeps_copy_reader [respects_intros]: "io_respects keeps_rel (copy_reader G out rd)"
  by (cases rd) (auto simp: copy_reader_def intro!: respects_intros split: sum.split)

lemma keeps_reader_Close [respects_intros]: "io_respects keeps_rel (reader_Close rd)"
  by (cases rd) (auto simp: reader_Close_def intro: respects_intros)

lemma keeps_uncompressedPathReader [respects_intros]: "io_respects keeps_rel (uncompressedPathReader G p)"
  unfolding uncompressedPathReader_def read_two_def by (intro respects_intros)

lemma keeps_doInitrdJoin: "io_respects keeps_rel (doInitrdJoin G ctx)"
  unfolding doInitrdJoin_def join_body_def Let_def by (intro respects_intros)

lemma keeps_run_app:
  assumes "dispatches run" and "\<And>fls act ctx. (fls, act) \<in> set (app_actions a) \<Longrightarrow> io_respects keeps_rel (act ctx)"
    and "run_app run a w = (r, w')" and "wf_world w"
  shows "wf_world w'"
  using assms(1,3)
proof (rule run_app_cases)
  fix fls act ctx q
  assume "(fls, act) \<in> set (app_actions a)" and "act ctx w = (q, w')"
  with keeps_runD [OF assms(2) _ assms(4)] show "wf_world w'" by blast
qed (use assms(4) in simp)



end
