(* ===== verification/Tree_Oci.thy ===== *)
theory Tree_Oci
  imports Oci_Main Tree_Bkcust
begin

text \<open>
  oci-boot keeps the file system well formed, if the libraries and programs it calls do; and so
  its temporary directories are empty when they are filled.
\<close>

section \<open>Library calls\<close>

definition op_keeps :: "(filesys \<Rightarrow> 'r \<times> filesys) \<Rightarrow> bool" where
  "op_keeps f \<longleftrightarrow> (\<forall>m. wf_fs m \<longrightarrow> wf_fs (snd (f m)))"

definition oci_keeps :: "('e, 'm) oci_lib \<Rightarrow> bool" where
  "oci_keeps L \<longleftrightarrow> (\<forall>e. op_keeps (Engine_Close L e)) \<and> (\<forall>e a b opts. op_keeps (umoci_Unpack L e a b opts)) \<and>
     (\<forall>m d. op_keeps (mol_Mount L m d)) \<and> (\<forall>d. op_keeps (atomfs_Umount L d)) \<and>
     (\<forall>a b. op_keeps (CopyDirectory L a b)) \<and> (\<forall>a b. op_keeps (ImageCopy L a b))"

definition fat_keeps :: "('f, 'h) fat_lib \<Rightarrow> bool" where
  "fat_keeps F \<longleftrightarrow> (\<forall>f a b c l. op_keeps (fat_Create F f a b c l)) \<and> (\<forall>g d. op_keeps (fat_Mkdir F g d)) \<and>
     (\<forall>g p. op_keeps (fat_OpenFile F g p)) \<and> (\<forall>h b. op_keeps (fat_Write F h b)) \<and> (\<forall>h. op_keeps (fat_Close F h))"

definition tools_keep :: "('e, 'm, 'f, 'h) tools \<Rightarrow> bool" where
  "tools_keep T \<longleftrightarrow> programs_keep (t_progs T) \<and> oci_keeps (t_oci T) \<and>
     (\<forall>d ps. op_keeps (CreatePartitions (t_disko T) d ps)) \<and> fat_keeps (t_fat T)"

lemma op_keepsD: "op_keeps f \<Longrightarrow> f m = (r, m') \<Longrightarrow> wf_fs m \<Longrightarrow> wf_fs m'"
  unfolding op_keeps_def by (metis snd_conv)

lemma keeps_lib_call: "op_keeps f \<Longrightarrow> io_respects keeps_rel (lib_call name args f)"
  by (auto simp: io_respects_def keeps_rel_def lib_call_def wf_world_def log_event_def
      dest: op_keepsD split: prod.splits option.splits)

lemma keeps_lib_open: "op_keeps f \<Longrightarrow> io_respects keeps_rel (lib_open name args f)"
  by (auto simp: io_respects_def keeps_rel_def lib_open_def wf_world_def log_event_def
      dest: op_keepsD split: prod.splits sum.splits)

lemma keeps_lib_query [respects_intros]: "io_respects keeps_rel (lib_query f)"
  by (auto simp: io_respects_def keeps_rel_def lib_query_def split: sum.splits)

lemma keeps_oci_calls [respects_intros]:
  "oci_keeps L \<Longrightarrow> io_respects keeps_rel (lib_call name args (Engine_Close L e))"
  "oci_keeps L \<Longrightarrow> io_respects keeps_rel (lib_call name args (umoci_Unpack L e a b opts))"
  "oci_keeps L \<Longrightarrow> io_respects keeps_rel (lib_call name args (mol_Mount L m d))"
  "oci_keeps L \<Longrightarrow> io_respects keeps_rel (lib_call name args (atomfs_Umount L d))"
  "oci_keeps L \<Longrightarrow> io_respects keeps_rel (lib_call name args (CopyDirectory L a b))"
  "oci_keeps L \<Longrightarrow> io_respects keeps_rel (lib_call name args (ImageCopy L a b))"
  by (simp_all add: oci_keeps_def keeps_lib_call)

lemma keeps_fat_calls [respects_intros]:
  "fat_keeps F \<Longrightarrow> io_respects keeps_rel (lib_open name args (fat_Create F f n st bs l))"
  "fat_keeps F \<Longrightarrow> io_respects keeps_rel (lib_call name args (fat_Mkdir F g d))"
  "fat_keeps F \<Longrightarrow> io_respects keeps_rel (lib_open name args (fat_OpenFile F g p))"
  "fat_keeps F \<Longrightarrow> io_respects keeps_rel (lib_call name args (fat_Write F h b))"
  "fat_keeps F \<Longrightarrow> io_respects keeps_rel (lib_call name args (fat_Close F h))"
  by (simp_all add: fat_keeps_def keeps_lib_call keeps_lib_open)

section \<open>Unpacking\<close>

lemma keeps_newOciPath [respects_intros]: "io_respects keeps_rel (newOciPath ref lay)"
  unfolding newOciPath_def Let_def by (intro respects_intros)

lemma keeps_RunCommand [respects_intros]:
  "programs_keep P \<Longrightarrow> io_respects keeps_rel (RunCommand P args)"
  unfolding RunCommand_def CombinedOutput_error_def by (intro respects_intros)

lemma keeps_CombinedOutput [respects_intros]:
  "programs_keep P \<Longrightarrow> io_respects keeps_rel (CombinedOutput_error P d args)"
  unfolding CombinedOutput_error_def by (intro respects_intros)

lemma keeps_which_loop [respects_intros]: "io_respects keeps_rel (which_loop cs)"
  by (induction cs) (auto intro!: respects_intros)

lemma keeps_extractSingleSquash [respects_intros]:
  "programs_keep P \<Longrightarrow> io_respects keeps_rel (extractSingleSquash P sq d rl)"
  unfolding extractSingleSquash_def Which_def WhichSearch_def by (intro respects_intros)

lemma keeps_unpackSquashLayersViaAtomfs [respects_intros]:
  "oci_keeps L \<Longrightarrow> io_respects keeps_rel (unpackSquashLayersViaAtomfs L ociDir tag dest)"
  unfolding unpackSquashLayersViaAtomfs_def or_cleanup_def atomfs_cleanup_def Let_def by (intro respects_intros)

lemma keeps_UnpackLayer [respects_intros]:
  "programs_keep P \<Longrightarrow> oci_keeps L \<Longrightarrow> io_respects keeps_rel (UnpackLayer P L ociDir oci tag dest rl)"
  unfolding UnpackLayer_def unpackSquashLayer_def Let_def by (intro respects_intros)

lemma keeps_unpackLayerRootfs [respects_intros]:
  "programs_keep P \<Longrightarrow> oci_keeps L \<Longrightarrow> io_respects keeps_rel (unpackLayerRootfs P L ociDir oci tag dest)"
  unfolding unpackLayerRootfs_def Let_def by (intro respects_intros)

lemma keeps_doCopy [respects_intros]: "oci_keeps L \<Longrightarrow> io_respects keeps_rel (doCopy L src dest)"
  unfolding doCopy_def by (intro respects_intros)

lemma keeps_getBootKit [respects_intros]:
  "programs_keep P \<Longrightarrow> oci_keeps L \<Longrightarrow> io_respects keeps_rel (getBootKit P L ref)"
  unfolding getBootKit_def getBootKit_tail_def ociExtractRef_def Let_def by (intro respects_intros)

section \<open>The medium\<close>

lemma keeps_Populate [respects_intros]: "tools_keep T \<Longrightarrow> io_respects keeps_rel (Populate T b target)"
  unfolding Populate_def populate_layer_def Let_def tools_keep_def
  by (elim conjE, intro respects_intros)

lemma keeps_PopulateEFI [respects_intros]: "io_respects keeps_rel (PopulateEFI T b mode cmdline destd)"
  unfolding PopulateEFI_def efi_mode_def by (intro respects_intros)

lemma keeps_genESP [respects_intros]: "programs_keep P \<Longrightarrow> io_respects keeps_rel (genESP P fname baseDir)"
  unfolding genESP_def getDirSize_def size_fn_def
  by (intro respects_intros) (auto simp: io_respects_def keeps_rel_def exitE_def)

lemma keeps_OciBoot_genESP [respects_intros]:
  "tools_keep T \<Longrightarrow> io_respects keeps_rel (OciBoot_genESP T b opts fname)"
  unfolding OciBoot_genESP_def tools_keep_def by (elim conjE, intro respects_intros)

lemma keeps_genGptDisk [respects_intros]:
  "tools_keep T \<Longrightarrow> io_respects keeps_rel (genGptDisk (t_disko T) fpath n)"
  unfolding genGptDisk_def Let_def tools_keep_def by (elim conjE, intro respects_intros keeps_lib_call) simp

lemma keeps_Mtools [respects_intros]:
  "programs_keep P \<Longrightarrow> io_respects keeps_rel (createAndCopyToFat32Mtools P src disk st sz)"
  unfolding createAndCopyToFat32Mtools_def by (intro respects_intros)

lemma keeps_Printf [respects_intros]: "io_respects keeps_rel (fmt_Printf s)"
  by (auto simp: io_respects_def keeps_rel_def fmt_Printf_def)

lemma keeps_DiskFS [respects_intros]:
  "fat_keeps F \<Longrightarrow> io_respects keeps_rel (createAndCopyToFat32DiskFS F src disk st sz)"
  unfolding createAndCopyToFat32DiskFS_def fat_walk_fn_def fat_copy_file_def Let_def by (intro respects_intros)

lemma keeps_disk_body: "tools_keep T \<Longrightarrow> io_respects keeps_rel (disk_body T diskFile opts b)"
  unfolding disk_body_def Let_def
  by (frule tools_keep_def [THEN iffD1], elim conjE, intro respects_intros)

lemma keeps_iso_body: "tools_keep T \<Longrightarrow> io_respects keeps_rel (iso_body T isoFile opts b)"
  unfolding iso_body_def Let_def
  by (frule tools_keep_def [THEN iffD1], elim conjE, intro respects_intros)

lemma keeps_run_cleanups: "io_respects keeps_rel (run_cleanups cs)"
  by (induction cs) (auto simp: run_cleanup_def intro!: respects_intros split: cleanup.split)

text \<open>The methods run on pairs.\<close>

definition keeps_pair :: "world \<times> OciBoot \<Rightarrow> bool \<Rightarrow> world \<times> OciBoot \<Rightarrow> bool" where
  "keeps_pair s x s' \<longleftrightarrow> keeps_rel (fst s) x (fst s')"

interpretation keeps_pair: io_effect keeps_pair
  by unfold_locales (auto simp: keeps_pair_def keeps_rel_def)

lemma keeps_liftW [respects_intros]: "io_respects keeps_rel m \<Longrightarrow> io_respects keeps_pair (liftW m)"
  by (auto simp: io_respects_def keeps_pair_def liftW_def split: prod.splits) (metis fst_conv snd_conv)

lemma keeps_modifyO [respects_intros]: "io_respects keeps_pair (modifyO f)"
  by (simp add: io_respects_def keeps_pair_def keeps_rel_def modifyO_def)

lemma keeps_methods [respects_intros]:
  assumes "tools_keep T"
  shows "io_respects keeps_pair (OciBoot_getBootKit T)" and "io_respects keeps_pair OciBoot_Cleanup"
    and "io_respects keeps_pair (Create T f iopts)" and "io_respects keeps_pair (CreateDisk T f dopts)"
proof -
  have p: "programs_keep (t_progs T)" and o: "oci_keeps (t_oci T)" using assms by (simp_all add: tools_keep_def)
  show g: "io_respects keeps_pair (OciBoot_getBootKit T)"
    unfolding OciBoot_getBootKit_def by (intro respects_intros p o)
  show "io_respects keeps_pair OciBoot_Cleanup"
    unfolding OciBoot_Cleanup_def by (intro respects_intros keeps_run_cleanups)
  show "io_respects keeps_pair (Create T f iopts)"
    unfolding Create_def by (intro respects_intros g keeps_iso_body [OF assms])
  show "io_respects keeps_pair (CreateDisk T f dopts)"
    unfolding CreateDisk_def by (intro respects_intros g keeps_disk_body [OF assms])
qed

lemma keeps_doMain:
  assumes "tools_keep T"
  shows "io_respects keeps_rel (doMain T ctx)"
proof (rule io_respectsI)
  fix w r w'
  assume run: "doMain T ctx w = (r, w')"
  have body: "io_respects keeps_pair (doMain_body T ctx n)" for n
    unfolding doMain_body_def by (intro respects_intros keeps_methods [OF assms])
  show "keeps_rel w (is_Exit r) w'"
    using run io_respectsD [OF body]
    by (auto simp: doMain_def keeps_rel_def keeps_pair_def split: sum.splits prod.splits)
qed



end
