(* ===== verification/Efi_Tree.thy ===== *)
theory Efi_Tree
  imports Medium "HOL-Library.Multiset"
begin

text \<open>
  The tree PopulateEFI makes, file by file, and the size of the image genESP makes for it.
\<close>

section \<open>Making directories and copying lists of files\<close>

text \<open>A successful MkdirAll leaves every node there was and adds directories on the way only.\<close>

lemma mkdirs_node:
  assumes "mkdirs perm pre cs m = Inr m'"
  shows "node_at m' q = (if node_at m q = None \<and> (\<exists>i. 0 < i \<and> i \<le> length cs \<and> q = pre @ take i cs)
           then Some (Dir perm) else node_at m q)"
  using assms
proof (induction cs arbitrary: pre m)
  case (Cons c cs)
  have "(\<exists>i. 0 < i \<and> i \<le> length (c # cs) \<and> q = pre @ take i (c # cs)) \<longleftrightarrow>
      q = pre @ [c] \<or> (\<exists>i. 0 < i \<and> i \<le> length cs \<and> q = (pre @ [c]) @ take i cs)" (is "?L \<longleftrightarrow> ?R")
  proof
    assume ?L
    then obtain i where i: "0 < i" "i \<le> length (c # cs)" "q = pre @ take i (c # cs)" by blast
    then obtain j where "i = Suc j" by (cases i) auto
    with i show ?R by (cases "j = 0") auto
  next
    assume ?R
    then show ?L
    proof
      assume "q = pre @ [c]"
      then show ?L by (intro exI [of _ 1]) simp
    next
      assume "\<exists>i. 0 < i \<and> i \<le> length cs \<and> q = (pre @ [c]) @ take i cs"
      then obtain i where "0 < i" "i \<le> length cs" "q = (pre @ [c]) @ take i cs" by blast
      then show ?L by (intro exI [of _ "Suc i"]) simp
    qed
  qed
  with Cons show ?case by (auto split: option.splits node.splits)
qed simp

lemma MkdirAll_OkD:
  assumes "os_MkdirAll p perm w = (Ok u, w')"
  shows "moved w w' (fs w')"
    and "node_at (fs w') q = (if node_at (fs w) q = None \<and>
            (\<exists>i. 0 < i \<and> i \<le> length (path_key w p) \<and> q = take i (path_key w p))
          then Some (Dir (perm AND NOT (umask w))) else node_at (fs w) q)"
proof -
  from assms obtain m where m: "mkdirs (perm AND NOT (umask w)) [] (path_key w p) (fs w) = Inr m"
    and w': "w' = (w\<lparr>tick := Suc (tick w)\<rparr>)\<lparr>fs := m\<rparr>"
    by (auto simp: os_MkdirAll_def sysp_Ok split: sum.splits if_splits)
  show "moved w w' (fs w')" by (simp add: moved_def w')
  show "node_at (fs w') q = (if node_at (fs w) q = None \<and>
            (\<exists>i. 0 < i \<and> i \<le> length (path_key w p) \<and> q = take i (path_key w p))
          then Some (Dir (perm AND NOT (umask w))) else node_at (fs w) q)"
    using mkdirs_node [OF m, of q] by (simp add: w')
qed

text \<open>What copyFile has copied was a file, unless it was a device.\<close>

lemma copyFile_source:
  assumes "copyFile src dest w = (Ok u, w')" and "path_key w src \<noteq> path_key w dest" and "\<not> is_special w src"
  shows "\<exists>m b. node_at (fs w) (path_key w src) = Some (File m b)"
proof -
  from assms(1) obtain fin v0 info v1 fout v2 n v3 where o: "os_Open src w = (Ok fin, v0)"
    and st: "f_Stat fin v0 = (Ok info, v1)"
    and op: "os_OpenFile dest [O_RDWR, O_CREATE, O_TRUNC] (fi_perm info) v1 = (Ok fout, v2)"
    and cp: "io_Copy fout fin v2 = (Ok n, v3)"
    by (auto simp: copyFile_def io_ok)
  note O = Open_OkD [OF o] and S = fStat_OkD [OF st]
  have v1: "moved w v1 (fs w)" using moved_trans [OF O(2) S(1)] by (simp add: moved_fs [OF O(2)])
  note F = OpenFile_OkD [OF op, simplified, unfolded moved_fs [OF v1] moved_key [OF v1]]
  have "node_at (fs v2) (path_key w src) = node_at (fs w) (path_key w src)"
    using F(3) assms(2) by (auto split: option.splits node.splits dest!: moved_fs)
  moreover have "\<not> (\<exists>m. node_at (fs v2) (path_key w src) = Some (Dir m))"
    using cp O(1) by (auto simp: io_Copy_def sysp_Ok copy_step_def)
  moreover from O(4) obtain nd where "node_at (fs w) (path_key w src) = Some nd" by auto
  ultimately show ?thesis
    using assms(3) by (cases nd) (auto simp: is_special_iff)
qed

text \<open>
  Files copied one after the other, each to a place of its own: every destination has the
  content of its source, and nothing else is different.
\<close>

definition copies_to :: "(string \<Rightarrow> string) \<Rightarrow> (string \<times> string) list \<Rightarrow> unit io" where
  "copies_to g xs = forE xs (\<lambda>(src, dst). copyFile src (g dst))"

definition dest_keys :: "(string \<Rightarrow> string) \<Rightarrow> world \<Rightarrow> (string \<times> string) list \<Rightarrow> key list" where
  "dest_keys g w xs = map (\<lambda>(src, dst). path_key w (g dst)) xs"

lemma copies_to_node:
  assumes "copies_to g xs w = (Ok (), w')"
    and "list_all (\<lambda>(src, dst). \<not> is_special w src \<and> path_key w src \<notin> set (dest_keys g w xs)) xs"
    and "list_all (\<lambda>k. \<not> (\<exists>m. node_at (fs w) k = Some (Special m))) (dest_keys g w xs)"
    and "distinct (dest_keys g w xs)"
  shows "same_env w w' \<and> trace w' = trace w \<and>
    (\<forall>q. q \<notin> set (dest_keys g w xs) \<longrightarrow> node_at (fs w') q = node_at (fs w) q) \<and>
    list_all (\<lambda>(src, dst). file_content w src \<noteq> None \<and> file_content w' (g dst) = file_content w src) xs"
  using assms
proof (induction xs arbitrary: w)
  case Nil
  then show ?case by (simp add: copies_to_def io_run)
next
  case (Cons x xs)
  obtain src dst where x: "x = (src, dst)" by (cases x)
  from Cons.prems(1) obtain v where cp: "copyFile src (g dst) w = (Ok (), v)"
    and rest: "copies_to g xs v = (Ok (), w')"
    by (auto simp: copies_to_def x thenE_Ok)
  have ne: "path_key w src \<noteq> path_key w (g dst)" and ns: "\<not> is_special w (g dst)" and "\<not> is_special w src"
    using Cons.prems(2,3) by (auto simp: x dest_keys_def is_special_iff)
  with copyFile_source [OF cp] obtain m b where b: "node_at (fs w) (path_key w src) = Some (File m b)" by blast
  note N = copyFile_node [OF cp b ne ns]
  have key: "path_key v p = path_key w p" for p by (rule same_env_path_key [OF N(2)])
  have dk: "dest_keys g v xs = dest_keys g w xs" by (simp add: dest_keys_def key)
  have fc: "file_content v s = file_content w s" if "path_key w s \<noteq> path_key w (g dst)" for s
    using that N(1) by (simp add: file_content_def key)
  have dkc: "dest_keys g w (x # xs) = path_key w (g dst) # dest_keys g w xs"
    by (simp add: dest_keys_def x)
  have sp: "is_special v s = is_special w s" if "path_key w s \<noteq> path_key w (g dst)" for s
    using that N(1) by (simp add: is_special_iff key)
  have src_ok: "\<not> is_special w s \<and> path_key w s \<noteq> path_key w (g dst) \<and> path_key w s \<notin> set (dest_keys g w xs)"
    if "(s, d) \<in> set xs" for s d
    using Cons.prems(2) that by (auto simp: list_all_iff dkc)
  have IH: "same_env v w' \<and> trace w' = trace v \<and>
    (\<forall>q. q \<notin> set (dest_keys g v xs) \<longrightarrow> node_at (fs w') q = node_at (fs v) q) \<and>
    list_all (\<lambda>(src, dst). file_content v src \<noteq> None \<and> file_content w' (g dst) = file_content v src) xs"
  proof (rule Cons.IH [OF rest])
    show "list_all (\<lambda>(src, dst). \<not> is_special v src \<and> path_key v src \<notin> set (dest_keys g v xs)) xs"
      using src_ok sp by (auto simp: list_all_iff dk key)
    show "list_all (\<lambda>k. \<not> (\<exists>m. node_at (fs v) k = Some (Special m))) (dest_keys g v xs)"
      using Cons.prems(3) N(1) by (auto simp: list_all_iff dk dkc)
    show "distinct (dest_keys g v xs)" using Cons.prems(4) by (simp add: dk) (simp add: dest_keys_def)
  qed
  have new: "path_key w (g dst) \<notin> set (dest_keys g w xs)" using Cons.prems(4) by (simp add: x dest_keys_def)
  have "node_at (fs w') (path_key w (g dst)) = node_at (fs v) (path_key w (g dst))"
    using IH new by (simp add: dk)
  then have "file_content w src \<noteq> None \<and> file_content w' (g dst) = file_content w src"
    using N(1) b IH by (simp add: file_content_def same_env_path_key [of v w'] key)
  moreover have "list_all (\<lambda>(src, dst). file_content w src \<noteq> None \<and> file_content w' (g dst) = file_content w src) xs"
    using IH fc src_ok by (auto simp: list_all_iff)
  moreover have "node_at (fs w') q = node_at (fs w) q" if "q \<notin> set (dest_keys g w (x # xs))" for q
    using that IH N(1) by (simp add: dk) (simp add: dest_keys_def x)
  ultimately show ?case using IH N(2,3) same_env_trans by (auto simp: x)
qed

section \<open>PopulateEFI\<close>

lemma reads_efi_mode [respects_intros]: "io_respects reads_rel (efi_mode b mode)"
  unfolding efi_mode_def oci_PathExists_def by (intro respects_intros)

lemma efi_mode_Ok:
  assumes "efi_mode b mode0 w = (Ok mode, w')"
  shows "moved w w' (fs w)" and "if mode0 = EFIAuto then mode \<in> {EFIShim, EFIKernel} else mode = mode0"
proof -
  show "moved w w' (fs w)" by (rule reads_moved [OF reads_efi_mode assms])
  show "if mode0 = EFIAuto then mode \<in> {EFIShim, EFIKernel} else mode = mode0"
    using assms by (auto simp: efi_mode_def bindE_Ok returnE_Ok split: if_splits)
qed

text \<open>
  The part of a tree that is PopulateEFI's own: what is at or below efi, and kernel.efi. In a
  directory where that part is free nothing it does touches what is beside it.
\<close>

definition efi_part :: "key \<Rightarrow> bool" where
  "efi_part q \<longleftrightarrow> q \<noteq> [] \<and> (hd q = ''efi'' \<or> hd q = ''kernel.efi'')"

lemma efi_part_simps [simp]:
  "\<not> efi_part []" "efi_part (c # q) \<longleftrightarrow> c = ''efi'' \<or> c = ''kernel.efi''"
  by (simp_all add: efi_part_def)

definition efi_free :: "world \<Rightarrow> key \<Rightarrow> bool" where
  "efi_free w k \<longleftrightarrow> (\<forall>q. efi_part q \<longrightarrow> node_at (fs w) (k @ q) = None)"

definition beside :: "key \<Rightarrow> key \<Rightarrow> bool" where
  "beside k q \<longleftrightarrow> \<not> (take (length k) q = k \<and> efi_part (drop (length k) q))"

lemma beside_append [simp]: "beside k (k @ q) \<longleftrightarrow> \<not> efi_part q"
  by (simp add: beside_def)

lemma beside_self [simp]: "beside k k"
  by (simp add: beside_def)

lemma not_besideE:
  assumes "\<not> beside k r"
  obtains q where "r = k @ q" and "efi_part q"
  using assms by (metis append_take_drop_id beside_def)

lemma efi_paths:
  assumes "destd \<noteq> []"
  shows "path_key w (path_Join [destd, EFIBootDir]) = path_key w destd @ [''efi'', ''boot'']"
    and "path_key w (path_Join [path_Join [destd, EFIBootDir], StartupNSHPath]) =
           path_key w destd @ [''efi'', ''boot'', ''startup.nsh'']"
    and "path_key w (path_Join [destd, EFIBootDir @ KernelEFI]) = path_key w destd @ [''efi'', ''boot'', ''kernel.efi'']"
    and "path_key w (path_Join [destd, EFIBootDir @ ShimEFI]) = path_key w destd @ [''efi'', ''boot'', ''shim.efi'']"
    and "path_key w (path_Join [destd, KernelEFI]) = path_key w destd @ [''kernel.efi'']"
proof -
  have p: "plain_path EFIBootDir" "plain_comps EFIBootDir = [''efi'', ''boot'']"
    "plain_path StartupNSHPath" "plain_comps StartupNSHPath = [''startup.nsh'']"
    "plain_path (EFIBootDir @ KernelEFI)" "plain_comps (EFIBootDir @ KernelEFI) = [''efi'', ''boot'', ''kernel.efi'']"
    "plain_path (EFIBootDir @ ShimEFI)" "plain_comps (EFIBootDir @ ShimEFI) = [''efi'', ''boot'', ''shim.efi'']"
    "plain_path KernelEFI" "plain_comps KernelEFI = [''kernel.efi'']"
    by code_simp+
  show "path_key w (path_Join [destd, EFIBootDir]) = path_key w destd @ [''efi'', ''boot'']"
    using assms p by (simp add: path_key_Join_plain)
  then show "path_key w (path_Join [path_Join [destd, EFIBootDir], StartupNSHPath]) =
           path_key w destd @ [''efi'', ''boot'', ''startup.nsh'']"
    using assms p by (simp add: path_key_Join_plain)
  show "path_key w (path_Join [destd, EFIBootDir @ KernelEFI]) = path_key w destd @ [''efi'', ''boot'', ''kernel.efi'']"
    and "path_key w (path_Join [destd, EFIBootDir @ ShimEFI]) = path_key w destd @ [''efi'', ''boot'', ''shim.efi'']"
    and "path_key w (path_Join [destd, KernelEFI]) = path_key w destd @ [''kernel.efi'']"
    using assms p by (simp_all add: path_key_Join_plain)
qed

lemma kit_paths_differ:
  "path_Join [kit, ''bootkit/shim.efi''] \<noteq> path_Join [kit, ''bootkit/kernel.efi'']"
proof (cases "kit = []")
  case True
  have "path_Join [[], ''bootkit/shim.efi''] \<noteq> path_Join [[], ''bootkit/kernel.efi'']" by code_simp
  then show ?thesis unfolding True .
next
  case False
  have p: "plain_path ''bootkit/shim.efi''" "plain_comps ''bootkit/shim.efi'' = [''bootkit'', ''shim.efi'']"
    "plain_path ''bootkit/kernel.efi''" "plain_comps ''bootkit/kernel.efi'' = [''bootkit'', ''kernel.efi'']"
    by code_simp+
  have "path_comps (path_Join [kit, q]) = path_comps kit @ plain_comps q" if "plain_path q" for q
    using that False unfolding plain_path_def plain_comps_def
    by (simp add: path_Join2 path_comps_append_slash foldl_clean_plain)
  from this [OF p(1)] this [OF p(3)] show ?thesis by (auto simp: p)
qed

lemma efi_copies_eq:
  "efi_copies b mode =
     (if mode = EFIShim then [(path_Join [bootKitDir b, ''bootkit/shim.efi''], EFIBootDir @ ShimEFI),
                              (path_Join [bootKitDir b, ''bootkit/kernel.efi''], EFIBootDir @ KernelEFI)]
      else if mode = EFIKernel then [(path_Join [bootKitDir b, ''bootkit/kernel.efi''], KernelEFI)] else [])"
  using kit_paths_differ [of "bootKitDir b"] by (simp add: efi_copies_def)

text \<open>The copies in any order the iteration over the map takes, by the keys they go to.\<close>

definition efi_dests :: "key \<Rightarrow> BootMode \<Rightarrow> key list" where
  "efi_dests k mode =
     (if mode = EFIShim then [k @ [''efi'', ''boot'', ''shim.efi''], k @ [''efi'', ''boot'', ''kernel.efi'']]
      else if mode = EFIKernel then [k @ [''kernel.efi'']] else [])"

lemma efi_copies_perm:
  assumes "mset xs = mset (efi_copies b mode)" and "destd \<noteq> []"
  shows "set (dest_keys (\<lambda>d. path_Join [destd, d]) w xs) = set (efi_dests (path_key w destd) mode)"
    and "distinct (dest_keys (\<lambda>d. path_Join [destd, d]) w xs)"
    and "set xs = set (efi_copies b mode)"
proof -
  let ?f = "\<lambda>(src, dst). path_key w (path_Join [destd, dst])"
  show xs: "set xs = set (efi_copies b mode)" using assms(1) by (metis set_mset_mset)
  have "mset (map ?f xs) = image_mset ?f (mset (efi_copies b mode))" by (simp add: assms(1))
  then have m: "mset (dest_keys (\<lambda>d. path_Join [destd, d]) w xs) = mset (efi_dests (path_key w destd) mode)"
    by (simp add: dest_keys_def efi_copies_eq efi_dests_def efi_paths [OF assms(2)])
  show "set (dest_keys (\<lambda>d. path_Join [destd, d]) w xs) = set (efi_dests (path_key w destd) mode)"
    using m by (metis set_mset_mset)
  have "distinct (efi_dests (path_key w destd) mode)" by (simp add: efi_dests_def)
  with m show "distinct (dest_keys (\<lambda>d. path_Join [destd, d]) w xs)" by (metis mset_eq_imp_distinct_iff)
qed

lemma efi_dests_below: "q \<in> set (efi_dests k mode) \<Longrightarrow> \<exists>r. efi_part r \<and> q = k @ r"
  by (auto simp: efi_dests_def split: if_splits)

lemma efi_dirs:
  assumes "destd \<noteq> []" and "efi_free w (path_key w destd)"
    and "os_MkdirAll (path_Join [destd, EFIBootDir]) mode_0755 w = (Ok u, v)" and "efi_part q"
  shows "node_at (fs v) (path_key w destd @ q) = (if q = [''efi''] \<or> q = [''efi'', ''boot'']
      then Some (Dir (mode_0755 AND NOT (umask w))) else None)"
proof -
  let ?K = "path_key w destd"
  note M = MkdirAll_OkD [OF assms(3), unfolded efi_paths [OF assms(1)]]
  have "(\<exists>i. 0 < i \<and> i \<le> length (?K @ [''efi'', ''boot'']) \<and> ?K @ q = take i (?K @ [''efi'', ''boot''])) \<longleftrightarrow>
      q = [''efi''] \<or> q = [''efi'', ''boot'']"
  proof
    assume "\<exists>i. 0 < i \<and> i \<le> length (?K @ [''efi'', ''boot'']) \<and> ?K @ q = take i (?K @ [''efi'', ''boot''])"
    then obtain i where i: "i \<le> length ?K + 2" "?K @ q = take i (?K @ [''efi'', ''boot''])" by auto
    from arg_cong [OF i(2), of length] i(1) have "i = length ?K + length q" by simp
    with i have "q = take (length q) [''efi'', ''boot'']" and "length q \<le> 2" by auto
    with assms(4) show "q = [''efi''] \<or> q = [''efi'', ''boot'']"
      by (cases q; cases "tl q") auto
  next
    assume "q = [''efi''] \<or> q = [''efi'', ''boot'']"
    then show "\<exists>i. 0 < i \<and> i \<le> length (?K @ [''efi'', ''boot'']) \<and> ?K @ q = take i (?K @ [''efi'', ''boot''])"
      by (auto intro: exI [of _ "length ?K + 1"] exI [of _ "length ?K + 2"])
  qed
  with M(2) [of "?K @ q"] assms(2,4) show ?thesis by (simp add: efi_free_def)
qed

text \<open>Nodes a fresh tree has after its EFI directory was made and startup.nsh was written.\<close>

lemma efi_skeleton:
  assumes "destd \<noteq> []" and "efi_free w (path_key w destd)"
    and "os_MkdirAll (path_Join [destd, EFIBootDir]) mode_0755 w = (Ok u, v)"
    and "os_WriteFile (path_Join [path_Join [destd, EFIBootDir], StartupNSHPath]) txt mode_0644 v = (Ok u', v')"
  shows "same_env w v'" and "trace v' = trace w"
    and "file_content v' (path_Join [path_Join [destd, EFIBootDir], StartupNSHPath]) = Some txt"
    and "node_at (fs w) q \<noteq> None \<Longrightarrow> node_at (fs v') q = node_at (fs w) q"
    and "node_at (fs v') (path_key w destd @ q) = Some (File p c) \<Longrightarrow> efi_part q \<Longrightarrow>
           q = [''efi'', ''boot'', ''startup.nsh'']"
    and "node_at (fs v') (path_key w destd @ q) \<noteq> Some (Special p) \<or> \<not> efi_part q"
    and "beside (path_key w destd) r \<Longrightarrow> \<nexists>m. nd = Dir m \<Longrightarrow> node_at (fs v') r = Some nd \<longleftrightarrow> node_at (fs w) r = Some nd"
proof -
  let ?K = "path_key w destd"
  note M = MkdirAll_OkD [OF assms(3), unfolded efi_paths [OF assms(1)]]
  have key: "path_key v p = path_key w p" for p by (rule moved_key [OF M(1)])
  note new = efi_dirs [OF assms(1-3)]
  have sk: "path_key v (path_Join [path_Join [destd, EFIBootDir], StartupNSHPath]) =
      ?K @ [''efi'', ''boot'', ''startup.nsh'']"
    by (simp only: key efi_paths(2) [OF assms(1)])
  have ns: "\<not> is_special v (path_Join [path_Join [destd, EFIBootDir], StartupNSHPath])"
    by (simp add: is_special_iff sk new)
  note W = WriteFile_OkD [OF assms(4) ns, unfolded sk]
  show "same_env w v'" using M(1) W(4) same_env_trans by (auto simp: moved_def)
  show "trace v' = trace w" using M(1) W(5) by (simp add: moved_def)
  show "file_content v' (path_Join [path_Join [destd, EFIBootDir], StartupNSHPath]) = Some txt" by (rule W(1))
  have keep: "node_at (fs v') (?K @ r) = node_at (fs v) (?K @ r)" if "r \<noteq> [''efi'', ''boot'', ''startup.nsh'']" for r
    using W(2) that by simp
  show "node_at (fs v') q = node_at (fs w) q" if "node_at (fs w) q \<noteq> None"
  proof -
    have "q \<noteq> ?K @ [''efi'', ''boot'', ''startup.nsh'']" using that assms(2) by (auto simp: efi_free_def)
    from W(2) [OF this] M(2) [of q] that show ?thesis by simp
  qed
  show "q = [''efi'', ''boot'', ''startup.nsh'']"
    if "node_at (fs v') (?K @ q) = Some (File p c)" and "efi_part q"
    using that keep [of q] new [of q] by (auto split: if_splits)
  show "node_at (fs v') (?K @ q) \<noteq> Some (Special p) \<or> \<not> efi_part q"
    using keep [of q] new [of q] W(1) by (cases "q = [''efi'', ''boot'', ''startup.nsh'']"; cases "efi_part q")
      (auto simp: file_content_def same_env_path_key [OF W(4)] sk split: if_splits)
  show "node_at (fs v') r = Some nd \<longleftrightarrow> node_at (fs w) r = Some nd" if "beside ?K r" and "\<nexists>m. nd = Dir m"
  proof -
    have "r \<noteq> ?K @ [''efi'', ''boot'', ''startup.nsh'']" using that(1) by (auto simp: beside_def)
    from W(2) [OF this] M(2) [of r] that(2) show ?thesis by auto
  qed
qed

text \<open>What the copies have done, starting from a tree with the EFI directory and startup.nsh.\<close>

lemma efi_copied:
  assumes "copies_to (\<lambda>d. path_Join [destd, d]) xs w3 = (Ok (), w')" and "destd \<noteq> []"
    and "mset xs = mset (efi_copies b mode)" and keys: "\<forall>p. path_key w3 p = path_key w p"
    and far: "\<forall>r nd. beside (path_key w destd) r \<longrightarrow> (\<nexists>m. nd = Dir m) \<longrightarrow>
        (node_at (fs w3) r = Some nd \<longleftrightarrow> node_at (fs w) r = Some nd)"
    and plain: "\<forall>q p. efi_part q \<longrightarrow> node_at (fs w3) (path_key w destd @ q) \<noteq> Some (Special p)"
    and safe: "\<forall>s d. (s, d) \<in> set (efi_copies b mode) \<longrightarrow> beside (path_key w destd) (path_key w s) \<and> \<not> is_special w s"
  shows "\<forall>q. q \<notin> set (efi_dests (path_key w destd) mode) \<longrightarrow> node_at (fs w') q = node_at (fs w3) q"
    and "(s, d) \<in> set (efi_copies b mode) \<Longrightarrow>
      \<exists>c m. file_content w s = Some c \<and> node_at (fs w') (path_key w (path_Join [destd, d])) = Some (File m c)"
proof -
  let ?K = "path_key w destd" and ?g = "\<lambda>d. path_Join [destd, d]"
  note key = keys [rule_format]
  note P = efi_copies_perm(1,2) [OF assms(3,2), of w3, unfolded key] and P3 = efi_copies_perm(3) [OF assms(3,2)]
  have src: "\<not> is_special w3 s \<and> path_key w s \<notin> set (efi_dests ?K mode)" if "(s, d) \<in> set xs" for s d
  proof -
    from that safe have s: "beside ?K (path_key w s)" "\<not> is_special w s" by (auto simp: P3)
    have "\<not> is_special w3 s" using s(2) far [rule_format, OF s(1)] by (auto simp: is_special_iff key)
    moreover have "path_key w s \<notin> set (efi_dests ?K mode)"
      using s(1) efi_dests_below by fastforce
    ultimately show ?thesis ..
  qed
  have C: "same_env w3 w' \<and> trace w' = trace w3 \<and>
    (\<forall>q. q \<notin> set (dest_keys ?g w3 xs) \<longrightarrow> node_at (fs w') q = node_at (fs w3) q) \<and>
    list_all (\<lambda>(src, dst). file_content w3 src \<noteq> None \<and> file_content w' (?g dst) = file_content w3 src) xs"
  proof (rule copies_to_node [OF assms(1) _ _ P(2)])
    show "list_all (\<lambda>(src, dst). \<not> is_special w3 src \<and> path_key w3 src \<notin> set (dest_keys ?g w3 xs)) xs"
      using src by (auto simp: list_all_iff P(1) key)
    show "list_all (\<lambda>k. \<not> (\<exists>m. node_at (fs w3) k = Some (Special m))) (dest_keys ?g w3 xs)"
      unfolding list_all_iff P(1) using plain efi_dests_below by blast
  qed
  then show "\<forall>q. q \<notin> set (efi_dests ?K mode) \<longrightarrow> node_at (fs w') q = node_at (fs w3) q"
    using P(1) by blast
  show "\<exists>c m. file_content w s = Some c \<and> node_at (fs w') (path_key w (?g d)) = Some (File m c)"
    if sd: "(s, d) \<in> set (efi_copies b mode)"
  proof -
    from C sd obtain c where c: "file_content w3 s = Some c" "file_content w' (?g d) = Some c"
      by (fastforce simp: list_all_iff P3)
    have "path_key w' p = path_key w p" for p using C same_env_path_key [of w3 w'] key by metis
    with c far [rule_format, OF conjunct1 [OF safe [rule_format, OF sd]]] show ?thesis by (auto simp: file_content_node key)
  qed
qed

text \<open>The files PopulateEFI makes, with k and s the bytes of kernel.efi and shim.efi.\<close>

definition efi_files :: "BootMode \<Rightarrow> bytes \<Rightarrow> bytes \<Rightarrow> bytes \<Rightarrow> (key \<times> bytes) set" where
  "efi_files mode cmds k s = insert ([''efi'', ''boot'', ''startup.nsh''], cmds)
     (if mode = EFIShim then {([''efi'', ''boot'', ''shim.efi''], s), ([''efi'', ''boot'', ''kernel.efi''], k)}
      else {([''kernel.efi''], k)})"

lemma efi_files_at:
  assumes "mode \<in> {EFIShim, EFIKernel}"
    and nsh: "\<exists>m. node_at m3 (K @ [''efi'', ''boot'', ''startup.nsh'']) = Some (File m cmds)"
    and only: "\<forall>q p c. node_at m3 (K @ q) = Some (File p c) \<longrightarrow> efi_part q \<longrightarrow> q = [''efi'', ''boot'', ''startup.nsh'']"
    and same: "\<forall>q. q \<notin> set (efi_dests K mode) \<longrightarrow> node_at m' q = node_at m3 q"
    and krn: "\<exists>m. node_at m' (K @ (if mode = EFIShim then [''efi'', ''boot'', ''kernel.efi''] else [''kernel.efi''])) = Some (File m k)"
    and shm: "mode = EFIShim \<longrightarrow> (\<exists>m. node_at m' (K @ [''efi'', ''boot'', ''shim.efi'']) = Some (File m s))"
    and "efi_part q"
  shows "(\<exists>p. node_at m' (K @ q) = Some (File p c)) \<longleftrightarrow> (q, c) \<in> efi_files mode cmds k s"
proof (cases "K @ q \<in> set (efi_dests K mode)")
  case True
  then consider "mode = EFIShim" "q = [''efi'', ''boot'', ''shim.efi'']"
    | "mode = EFIShim" "q = [''efi'', ''boot'', ''kernel.efi'']" | "mode \<noteq> EFIShim" "q = [''kernel.efi'']"
    by (auto simp: efi_dests_def split: if_splits)
  then show ?thesis
  proof cases
    case 1
    with shm obtain m where "node_at m' (K @ q) = Some (File m s)" by blast
    with 1 show ?thesis by (auto simp: efi_files_def)
  next
    case 2
    with krn obtain m where "node_at m' (K @ q) = Some (File m k)" by (auto simp only: simp_thms if_True)
    with 2 show ?thesis by (auto simp: efi_files_def)
  next
    case 3
    with krn obtain m where "node_at m' (K @ q) = Some (File m k)" by (auto simp only: simp_thms if_False)
    with 3 show ?thesis by (auto simp: efi_files_def)
  qed
next
  case False
  then have q: "\<not> (mode = EFIShim \<and> (q = [''efi'', ''boot'', ''shim.efi''] \<or> q = [''efi'', ''boot'', ''kernel.efi'']))"
    "\<not> (mode \<noteq> EFIShim \<and> q = [''kernel.efi''])"
    using assms(1) by (auto simp: efi_dests_def)
  have "(\<exists>p. node_at m' (K @ q) = Some (File p c)) \<longleftrightarrow> q = [''efi'', ''boot'', ''startup.nsh''] \<and> c = cmds"
  proof (cases "q = [''efi'', ''boot'', ''startup.nsh'']")
    case True
    with nsh same [rule_format, OF \<open>K @ q \<notin> set (efi_dests K mode)\<close>] show ?thesis by auto
  next
    case not: False
    with only assms(7) same [rule_format, OF \<open>K @ q \<notin> set (efi_dests K mode)\<close>] show ?thesis by metis
  qed
  with q show ?thesis by (auto simp: efi_files_def)
qed

lemma PopulateEFI_files:
  assumes "PopulateEFI T b mode0 cmdline destd w = (Ok (), w')"
    and "destd \<noteq> []" and "efi_free w (path_key w destd)" and "mode0 \<in> {EFIAuto, EFIShim, EFIKernel}"
    and "\<And>xs. mset (t_iter T xs) = mset xs"
    and "krnp = path_Join [bootKitDir b, ''bootkit/kernel.efi'']" and "shimp = path_Join [bootKitDir b, ''bootkit/shim.efi'']"
    and "beside (path_key w destd) (path_key w krnp) \<and> \<not> is_special w krnp"
    and "mode0 = EFIKernel \<or> beside (path_key w destd) (path_key w shimp) \<and> \<not> is_special w shimp"
  shows "\<exists>mode k s. (if mode0 = EFIAuto then mode \<in> {EFIShim, EFIKernel} else mode = mode0) \<and>
    file_content w krnp = Some k \<and> (mode = EFIShim \<longrightarrow> file_content w shimp = Some s) \<and>
    (\<forall>q c. efi_part q \<longrightarrow> ((\<exists>p. node_at (fs w') (path_key w destd @ q) = Some (File p c)) \<longleftrightarrow>
       (q, c) \<in> efi_files mode (bytes_of_string (join_with [CHR 0x0A] (startup_nsh mode (full_cmdline b cmdline)))) k s)) \<and>
    (\<forall>q. node_at (fs w) q \<noteq> None \<longrightarrow> node_at (fs w') q = node_at (fs w) q) \<and>
    (\<forall>q p c. beside (path_key w destd) q \<longrightarrow> node_at (fs w') q = Some (File p c) \<longrightarrow> node_at (fs w) q = Some (File p c))"
proof -
  let ?K = "path_key w destd" and ?g = "\<lambda>d. path_Join [destd, d]"
  from assms(1) obtain mode w1 w2 w3 where em: "efi_mode b mode0 w = (Ok mode, w1)"
    and md: "os_MkdirAll (path_Join [destd, EFIBootDir]) mode_0755 w1 = (Ok (), w2)"
    and wr: "os_WriteFile (path_Join [path_Join [destd, EFIBootDir], StartupNSHPath])
        (bytes_of_string (join_with [CHR 0x0A] (startup_nsh mode (full_cmdline b cmdline)))) mode_0644 w2 = (Ok (), w3)"
    and cp: "copies_to ?g (t_iter T (efi_copies b mode)) w3 = (Ok (), w')"
    by (auto simp: PopulateEFI_def bindE_Ok copies_to_def)
  note E = efi_mode_Ok [OF em]
  have k1: "path_key w1 p = path_key w p" for p by (rule moved_key [OF E(1)])
  have f1: "fs w1 = fs w" by (rule moved_fs [OF E(1)])
  have mode: "mode \<in> {EFIShim, EFIKernel}" using E(2) assms(4) by (auto split: if_splits)
  have fr: "efi_free w1 (path_key w1 destd)" using assms(3) by (simp add: efi_free_def k1 f1)
  note S = efi_skeleton [OF assms(2) fr md wr, unfolded k1 f1]
  have k3: "path_key w3 p = path_key w p" for p using same_env_path_key [OF S(1)] k1 by simp
  have ec: "efi_copies b mode = (if mode = EFIShim
      then [(shimp, EFIBootDir @ ShimEFI), (krnp, EFIBootDir @ KernelEFI)] else [(krnp, KernelEFI)])"
    unfolding efi_copies_eq assms(6,7) using mode by auto
  have "mode = EFIShim \<Longrightarrow> mode0 \<noteq> EFIKernel" using E(2) by (auto simp: EFIShim_def EFIKernel_def EFIAuto_def)
  then have safe: "\<forall>s d. (s, d) \<in> set (efi_copies b mode) \<longrightarrow> beside ?K (path_key w s) \<and> \<not> is_special w s"
    using assms(8,9) unfolding ec by (auto split: if_splits)
  have plain: "\<forall>q p. efi_part q \<longrightarrow> node_at (fs w3) (?K @ q) \<noteq> Some (Special p)" using S(6) by blast
  have far: "\<forall>r nd. beside ?K r \<longrightarrow> (\<nexists>m. nd = Dir m) \<longrightarrow> (node_at (fs w3) r = Some nd \<longleftrightarrow> node_at (fs w) r = Some nd)"
    using S(7) by blast
  note C = efi_copied [OF cp assms(2,5) allI [OF k3] far plain safe]
  have "(krnp, if mode = EFIShim then EFIBootDir @ KernelEFI else KernelEFI) \<in> set (efi_copies b mode)"
    unfolding ec by simp
  from C(2) [OF this] obtain k where k: "file_content w krnp = Some k"
    and nk: "\<exists>m. node_at (fs w') (?K @ (if mode = EFIShim then [''efi'', ''boot'', ''kernel.efi''] else [''kernel.efi''])) = Some (File m k)"
    by (cases "mode = EFIShim") (auto simp: efi_paths [OF assms(2)])
  have "\<exists>s. mode = EFIShim \<longrightarrow> file_content w shimp = Some s \<and>
      (\<exists>m. node_at (fs w') (?K @ [''efi'', ''boot'', ''shim.efi'']) = Some (File m s))"
    using C(2) [of shimp "EFIBootDir @ ShimEFI"] unfolding ec efi_paths [OF assms(2)] by auto
  then obtain s where s: "mode = EFIShim \<Longrightarrow> file_content w shimp = Some s"
    and ns: "mode = EFIShim \<longrightarrow> (\<exists>m. node_at (fs w') (?K @ [''efi'', ''boot'', ''shim.efi'']) = Some (File m s))" by blast
  have only: "\<forall>q p c. node_at (fs w3) (?K @ q) = Some (File p c) \<longrightarrow> efi_part q \<longrightarrow> q = [''efi'', ''boot'', ''startup.nsh'']"
    using S(5) by blast
  note files = efi_files_at [OF mode S(3) [unfolded file_content_node k3 efi_paths [OF assms(2)]] only C(1) nk ns]
  have old: "node_at (fs w') q = node_at (fs w) q" if "node_at (fs w) q \<noteq> None" for q
  proof -
    have "q \<notin> set (efi_dests ?K mode)"
    proof
      assume "q \<in> set (efi_dests ?K mode)"
      from efi_dests_below [OF this] that assms(3) show False unfolding efi_free_def by (elim exE conjE) simp
    qed
    with C(1) S(4) [OF that] show ?thesis by simp
  qed
  have only_old: "node_at (fs w) q = Some (File p c)"
    if "beside ?K q" and "node_at (fs w') q = Some (File p c)" for q p c
  proof -
    have "q \<notin> set (efi_dests ?K mode)" using that(1) efi_dests_below by fastforce
    with C(1) that(2) S(7) [OF that(1), of "File p c"] show ?thesis by simp
  qed
  show ?thesis
  proof (rule exI [of _ mode], rule exI [of _ k], rule exI [of _ s], intro conjI allI impI)
    show "if mode0 = EFIAuto then mode \<in> {EFIShim, EFIKernel} else mode = mode0" by (rule E(2))
  qed (rule k s files old only_old; assumption?)+
qed

text \<open>
  C15: When PopulateEFI returns nil on a directory with nothing at efi and kernel.efi, it has put
  there exactly startup.nsh under efi/boot, with the commands for the mode, and the files of the
  mode with the bytes they have in the bootkit: in shim mode shim.efi and kernel.efi under
  efi/boot, in kernel mode kernel.efi, but that at the root of the tree and not in the directory
  that startup.nsh changes to. No node that was there before is different, and no other file is
  new anywhere.
\<close>

theorem PopulateEFI_tree:
  assumes "PopulateEFI T b mode0 cmdline destd w = (Ok (), w')"
    and "destd \<noteq> []" and "efi_free w (path_key w destd)" and "mode0 \<in> {EFIAuto, EFIShim, EFIKernel}"
    and "\<And>xs. mset (t_iter T xs) = mset xs"
    and "krnp = path_Join [bootKitDir b, ''bootkit/kernel.efi'']" and "shimp = path_Join [bootKitDir b, ''bootkit/shim.efi'']"
    and "beside (path_key w destd) (path_key w krnp) \<and> \<not> is_special w krnp"
    and "mode0 = EFIKernel \<or> beside (path_key w destd) (path_key w shimp) \<and> \<not> is_special w shimp"
  shows "\<exists>mode k s. (if mode0 = EFIAuto then mode \<in> {EFIShim, EFIKernel} else mode = mode0) \<and>
    file_content w krnp = Some k \<and> (mode = EFIShim \<longrightarrow> file_content w shimp = Some s) \<and>
    (\<forall>q c. efi_part q \<longrightarrow> ((\<exists>p. node_at (fs w') (path_key w destd @ q) = Some (File p c)) \<longleftrightarrow>
       (q, c) \<in> efi_files mode (bytes_of_string (join_with [CHR 0x0A] (startup_nsh mode (full_cmdline b cmdline)))) k s)) \<and>
    (\<forall>q. node_at (fs w) q \<noteq> None \<longrightarrow> node_at (fs w') q = node_at (fs w) q) \<and>
    (\<forall>q p c. beside (path_key w destd) q \<longrightarrow> node_at (fs w') q = Some (File p c) \<longrightarrow> node_at (fs w) q = Some (File p c))"
  using assms by (rule PopulateEFI_files)

abbreviation kit_boot :: OciBoot where
  "kit_boot \<equiv> sample_boot\<lparr>bootKitDir := ''/k''\<rparr>"

theorem PopulateEFI_tree_witness:
  "\<exists>mode k s. (if EFIAuto = EFIAuto then mode \<in> {EFIShim, EFIKernel} else mode = EFIAuto) \<and>
    file_content (sample_world kit_fs) ''/k/bootkit/kernel.efi'' = Some k \<and>
    (mode = EFIShim \<longrightarrow> file_content (sample_world kit_fs) ''/k/bootkit/shim.efi'' = Some s) \<and>
    (\<forall>q c. efi_part q \<longrightarrow>
      ((\<exists>p. node_at (fs (snd (PopulateEFI sample_tools kit_boot EFIAuto ''c'' ''/t'' (sample_world kit_fs))))
              (path_key (sample_world kit_fs) ''/t'' @ q) = Some (File p c)) \<longleftrightarrow>
       (q, c) \<in> efi_files mode
          (bytes_of_string (join_with [CHR 0x0A] (startup_nsh mode (full_cmdline kit_boot ''c'')))) k s)) \<and>
    (\<forall>q. node_at (fs (sample_world kit_fs)) q \<noteq> None \<longrightarrow>
      node_at (fs (snd (PopulateEFI sample_tools kit_boot EFIAuto ''c'' ''/t'' (sample_world kit_fs)))) q =
        node_at (fs (sample_world kit_fs)) q) \<and>
    (\<forall>q p c. beside (path_key (sample_world kit_fs) ''/t'') q \<longrightarrow>
      node_at (fs (snd (PopulateEFI sample_tools kit_boot EFIAuto ''c'' ''/t'' (sample_world kit_fs)))) q = Some (File p c) \<longrightarrow>
      node_at (fs (sample_world kit_fs)) q = Some (File p c))"
proof (rule PopulateEFI_tree)
  show "PopulateEFI sample_tools kit_boot EFIAuto ''c'' ''/t'' (sample_world kit_fs) =
      (Ok (), snd (PopulateEFI sample_tools kit_boot EFIAuto ''c'' ''/t'' (sample_world kit_fs)))"
    by (rule run_pair, code_simp)
  show "EFIAuto \<in> {EFIAuto, EFIShim, EFIKernel}" by simp
  have k: "path_key (sample_world kit_fs) ''/t'' = [''t'']" by code_simp
  show "efi_free (sample_world kit_fs) (path_key (sample_world kit_fs) ''/t'')"
    unfolding k efi_free_def by (simp add: node_at_def kit_fs_def sample_world_def)
  show "mset (t_iter sample_tools xs) = mset xs" for xs by (simp add: sample_tools_def)
  show "''/k/bootkit/kernel.efi'' = path_Join [bootKitDir kit_boot, ''bootkit/kernel.efi'']"
    and "''/k/bootkit/shim.efi'' = path_Join [bootKitDir kit_boot, ''bootkit/shim.efi'']"
    and "beside (path_key (sample_world kit_fs) ''/t'') (path_key (sample_world kit_fs) ''/k/bootkit/kernel.efi'') \<and>
      \<not> is_special (sample_world kit_fs) ''/k/bootkit/kernel.efi''"
    and "EFIAuto = EFIKernel \<or>
      beside (path_key (sample_world kit_fs) ''/t'') (path_key (sample_world kit_fs) ''/k/bootkit/shim.efi'') \<and>
      \<not> is_special (sample_world kit_fs) ''/k/bootkit/shim.efi''" by code_simp+
qed simp

end
