(* ===== verification/OS_Live.thy ===== *)
theory OS_Live
  imports Tree_Oci Efi_Tree
begin

text \<open>
  Total correctness: works m w Q says that the call m returns without error in the world w, in a
  state that satisfies Q. On a machine where no call is refused (alive) the calls of the sources
  work under the conditions given here; the rules for the combinators carry that to whole
  functions.
\<close>

section \<open>Runs that return nil\<close>

definition works :: "'a io \<Rightarrow> world \<Rightarrow> ('a \<Rightarrow> world \<Rightarrow> bool) \<Rightarrow> bool" where
  "works m w Q \<longleftrightarrow> (\<exists>x w'. m w = (Ok x, w') \<and> Q x w')"

lemma worksI: "m w = (Ok x, w') \<Longrightarrow> Q x w' \<Longrightarrow> works m w Q"
  by (auto simp: works_def)

lemma worksE:
  assumes "works m w Q"
  obtains x w' where "m w = (Ok x, w')" and "Q x w'"
  using assms by (auto simp: works_def)

lemma works_mono: "works m w Q \<Longrightarrow> (\<And>x v. Q x v \<Longrightarrow> Q' x v) \<Longrightarrow> works m w Q'"
  by (auto simp: works_def)

lemma works_return [simp]: "works (returnE x) w Q \<longleftrightarrow> Q x w"
  by (simp add: works_def returnE_def)

lemma works_get [simp]: "works (getE f) w Q \<longleftrightarrow> Q (f w) w"
  by (simp add: works_def getE_def)

lemma works_bind: "works (bindE m f) w Q \<longleftrightarrow> works m w (\<lambda>x v. works (f x) v Q)"
  by (auto simp: works_def bindE_Ok)

lemma works_then: "works (thenE m k) w Q \<longleftrightarrow> works m w (\<lambda>x v. works k v Q)"
  by (simp add: thenE_def works_bind)

lemma works_wrap [simp]: "works (wrapE g m) w Q \<longleftrightarrow> works m w Q"
  by (simp add: works_def wrapE_Ok)

lemma works_attempt: "works m w (\<lambda>x v. Q (Inr x) v) \<Longrightarrow> works (attemptE m) w Q"
  by (auto simp: works_def attemptE_Ok)

lemma works_defer: "works m w (\<lambda>x v. works d v (\<lambda>y. Q x)) \<Longrightarrow> works (deferE d m) w Q"
  by (auto simp: works_def deferE_def)

section \<open>Machines on which nothing fails\<close>

definition alive :: "world \<Rightarrow> bool" where
  "alive w \<longleftrightarrow> (\<forall>i. faults w i = None) \<and> wf_world w"

lemma alive_step:
  assumes "alive w" and "io_respects keeps_rel m" and "m w = (r, w')" and "same_env w w'"
  shows "alive w'"
  using assms keeps_runD [OF assms(2,3)] by (auto simp: alive_def same_env_def)

lemma alive_moved: "alive w \<Longrightarrow> moved w v m \<Longrightarrow> wf_fs m \<Longrightarrow> alive v"
  by (auto simp: alive_def moved_def same_env_def wf_world_def)

lemma alive_same: "alive w \<Longrightarrow> moved w v (fs w) \<Longrightarrow> alive v"
  by (rule alive_moved) (auto simp: alive_def wf_world_def)

lemma path_errno_dir:
  assumes "wf_fs m" and "is_dir_at m (butlast k)"
  shows "path_errno m [] k = None"
proof (cases k rule: rev_cases)
  case (snoc ks c)
  have "path_errno m pre (ks' @ [c]) = None" if "is_dir_at m (pre @ ks')" for pre ks'
    using that
  proof (induction ks' arbitrary: pre)
    case (Cons d ds)
    then have "node_at m ((pre @ [d]) @ ds) \<noteq> None" by (auto simp: is_dir_at_iff)
    with Cons.prems wf_fs_parent [OF assms(1), of "pre @ [d]" ds] have "is_dir_at m (pre @ [d])"
      by (cases ds) auto
    with Cons show ?case by (cases ds) (auto simp: is_dir_at_iff)
  qed simp
  from this [of "[]" ks] assms(2) snoc show ?thesis by simp
qed simp

lemma find_node_alive:
  "alive w \<Longrightarrow> p \<noteq> [] \<Longrightarrow> node_at (fs w) (path_key w p) = Some n \<Longrightarrow> find_node w p = Inr n"
  using path_errno_None [of "fs w" "[]" "path_key w p"]
  by (auto simp: alive_def wf_world_def find_node_def resolve_node_def)

lemma works_sys:
  "alive w \<Longrightarrow> f (w\<lparr>tick := Suc (tick w)\<rparr>) = Inr (x, w') \<Longrightarrow> Q x w' \<Longrightarrow> works (sys mk f) w Q"
  by (rule worksI) (auto simp: sys_Ok alive_def)

lemma works_Stat:
  assumes "alive w" and "p \<noteq> []" and "node_at (fs w) (path_key w p) = Some n"
    and "\<And>v. moved w v (fs w) \<Longrightarrow> Q (node_info n) v"
  shows "works (os_Stat p) w Q"
  unfolding os_Stat_def
  by (rule works_sys [OF assms(1)]) (use find_node_alive [OF assms(1-3)] assms(4) in auto)

lemma works_Open:
  assumes "alive w" and "p \<noteq> []" and "node_at (fs w) (path_key w p) \<noteq> None"
    and "\<And>v. moved w v (fs w) \<Longrightarrow> Q (file_of w p) v"
  shows "works (os_Open p) w Q"
proof -
  have "path_errno (fs w) [] (path_key w p) = None"
    using assms(1,3) path_errno_None [of "fs w" "[]"] by (auto simp: alive_def wf_world_def)
  with assms show ?thesis
    unfolding os_Open_def os_OpenFile_def
    by (intro works_sys [OF assms(1), where w' = "w\<lparr>tick := Suc (tick w)\<rparr>"])
      (auto simp: open_step_def Let_def file_of_def split: node.splits)
qed

text \<open>A path at which a file can be written: its parent is a directory, and it is none itself.\<close>

definition writable :: "world \<Rightarrow> string \<Rightarrow> bool" where
  "writable w p \<longleftrightarrow> p \<noteq> [] \<and> is_dir_at (fs w) (butlast (path_key w p)) \<and>
     \<not> is_dir_at (fs w) (path_key w p) \<and> \<not> is_special w p"

lemma works_OpenFile:
  assumes "alive w" and "writable w p" and "O_CREATE \<in> set fl" and "O_TRUNC \<in> set fl" and "O_EXCL \<notin> set fl"
    and "\<And>v m. moved w v (fs_put (path_key w p) (File m []) (fs w)) \<Longrightarrow> Q (file_of w p) v"
  shows "works (os_OpenFile p fl perm) w Q"
proof -
  have e: "path_errno (fs w) [] (path_key w p) = None"
    using assms(1,2) by (auto simp: alive_def wf_world_def writable_def intro: path_errno_dir)
  have "\<exists>m v. os_OpenFile p fl perm w = (Ok (file_of w p), v) \<and> moved w v (fs_put (path_key w p) (File m []) (fs w))"
    using assms(1-5) e
    by (cases "node_at (fs w) (path_key w p)")
      (auto simp: os_OpenFile_def sys_Ok open_step_def Let_def writable_def is_dir_at_iff is_special_iff alive_def
        file_of_def moved_def put_node_def split: node.splits)
  with assms(6) show ?thesis by (auto intro: worksI)
qed

lemma works_Close: "alive w \<Longrightarrow> (\<And>v. moved w v (fs w) \<Longrightarrow> Q () v) \<Longrightarrow> works (f_Close f) w Q"
  unfolding f_Close_def by (rule works_sys) auto

lemma works_defer_Close:
  assumes "works m w (\<lambda>_. alive)"
  shows "works (deferE (f_Close f) m) w (\<lambda>_. alive)"
  by (rule works_defer, rule works_mono [OF assms]) (auto intro!: works_Close intro: alive_same)

lemma works_Sync: "alive w \<Longrightarrow> (\<And>v. moved w v (fs w) \<Longrightarrow> Q () v) \<Longrightarrow> works (f_Sync f) w Q"
  unfolding f_Sync_def by (rule works_sys) auto

lemma works_fStat:
  "alive w \<Longrightarrow> node_at (fs w) (f_key f) = Some n \<Longrightarrow> (\<And>v. moved w v (fs w) \<Longrightarrow> Q (node_info n) v) \<Longrightarrow>
     works (f_Stat f) w Q"
  unfolding f_Stat_def by (rule works_sys) auto

lemma works_Copy:
  assumes "alive w" and "node_at (fs w) (f_key s) = Some (File m b)"
    and "\<And>v. moved w v (fs (append_file (f_key d) b w)) \<Longrightarrow> Q (length b) v"
  shows "works (io_Copy d s) w Q"
proof -
  have "\<exists>v. io_Copy d s w = (Ok (length b), v) \<and> moved w v (fs (append_file (f_key d) b w))"
    using assms(1,2)
    by (auto simp: io_Copy_def sysp_Ok copy_step_def alive_def moved_def append_file_def put_node_def
        split: option.splits node.splits)
  with assms(3) show ?thesis by (auto intro: worksI)
qed

lemma works_Write:
  assumes "alive w" and "\<And>v. moved w v (fs (append_file (f_key f) b w)) \<Longrightarrow> Q (length b, None) v"
  shows "works (f_Write f b) w Q"
proof -
  have "\<exists>v. f_Write f b w = (Ok (length b, None), v) \<and> moved w v (fs (append_file (f_key f) b w))"
    using assms(1)
    by (auto simp: f_Write_def Let_def alive_def moved_def append_file_def put_node_def
        split: option.splits node.splits)
  with assms(2) show ?thesis by (auto intro: worksI)
qed

lemma works_RemoveAll:
  assumes "alive w" and "\<And>v. Q () v"
  shows "works (os_RemoveAll p) w Q"
proof -
  have "\<exists>v. os_RemoveAll p w = (Ok (), v)"
    using assms(1) by (auto simp: os_RemoveAll_def sysp_Ok alive_def log_event_def)
  with assms(2) show ?thesis by (auto intro: worksI)
qed

section \<open>Copying and writing files\<close>

lemma wf_append: "wf_fs (fs w) \<Longrightarrow> wf_fs (fs (append_file k b w))"
  by (auto simp: append_file_def put_node_def intro: wf_fs_write split: option.splits node.splits)

lemma writable_put:
  assumes "alive w" and "writable w p"
  shows "wf_fs (fs_put (path_key w p) (File m b) (fs w))"
  using assms proper_path_key [of w p]
  by (intro wf_fs_put) (auto simp: alive_def wf_world_def writable_def)

lemma alive_put: "alive w \<Longrightarrow> writable w p \<Longrightarrow> moved w v (fs_put (path_key w p) (File m b) (fs w)) \<Longrightarrow> alive v"
  by (rule alive_moved) (auto intro: writable_put)

lemma alive_append: "alive w \<Longrightarrow> moved w v (fs (append_file k b w)) \<Longrightarrow> alive v"
  by (rule alive_moved) (auto simp: alive_def wf_world_def wf_append)

lemma works_copy:
  assumes "alive v" and "writable v dst" and "node_at (fs v) (f_key fin) = Some (File m b)"
    and "O_CREATE \<in> set fl" and "O_TRUNC \<in> set fl" and "O_EXCL \<notin> set fl"
    and "\<And>fout u. alive u \<Longrightarrow> works (rest fout) u (\<lambda>_. alive)"
  shows "works (bindE (os_OpenFile dst fl perm) (\<lambda>fout. deferE (f_Close fout)
    (thenE (io_Copy fout fin) (rest fout)))) v (\<lambda>_. alive)"
  unfolding works_bind
proof (rule works_OpenFile [OF assms(1,2,4-6)])
  fix u m'
  assume u: "moved v u (fs_put (path_key v dst) (File m' []) (fs v))"
  have a: "alive u" by (rule alive_put [OF assms(1,2) u])
  from assms(3) have "\<exists>n c. node_at (fs u) (f_key fin) = Some (File n c)"
    by (auto simp: moved_fs [OF u])
  then obtain n c where "node_at (fs u) (f_key fin) = Some (File n c)" by blast
  then show "works (deferE (f_Close (file_of v dst)) (thenE (io_Copy (file_of v dst) fin) (rest (file_of v dst)))) u
      (\<lambda>_. alive)"
    by (intro works_defer_Close, unfold works_then, elim works_Copy [OF a])
      (auto intro!: assms(7) intro: alive_append [OF a])
qed

lemma CopyFileContents_works:
  assumes "alive w" and "file_content w src = Some b" and "src \<noteq> []" and "writable w dst"
  shows "works (CopyFileContents src dst) w (\<lambda>_. alive)"
  unfolding CopyFileContents_def works_bind
proof (rule works_Open [OF assms(1,3)])
  from assms(2) obtain m where m: "node_at (fs w) (path_key w src) = Some (File m b)" by (auto simp: file_content_node)
  then show "node_at (fs w) (path_key w src) \<noteq> None" by simp
  fix v
  assume v: "moved w v (fs w)"
  have a: "alive v" by (rule alive_same [OF assms(1) v])
  have "writable v dst" using assms(4) v by (simp add: writable_def moved_fs moved_key is_special_iff)
  from works_copy [OF a this, of "file_of w src" m b "[O_RDWR, O_CREATE, O_TRUNC]" "\<lambda>fout. f_Sync fout" mode_0666]
  have "works (bindE (os_Create dst) (\<lambda>fout. deferE (f_Close fout) (thenE (io_Copy fout (file_of w src)) (f_Sync fout)))) v
      (\<lambda>_. alive)"
    using m by (auto simp: os_Create_def moved_fs [OF v] intro!: works_Sync intro: alive_same)
  then show "works (deferE (f_Close (file_of w src)) (bindE (os_Create dst) (\<lambda>fout. deferE (f_Close fout)
      (thenE (io_Copy fout (file_of w src)) (f_Sync fout))))) v (\<lambda>_. alive)"
    by (rule works_defer_Close)
qed

lemma copyFile_works:
  assumes "alive w" and "file_content w src = Some b" and "src \<noteq> []" and "writable w dst"
  shows "works (copyFile src dst) w (\<lambda>_. alive)"
  unfolding copyFile_def works_bind
proof (rule works_Open [OF assms(1,3)])
  from assms(2) obtain m where m: "node_at (fs w) (path_key w src) = Some (File m b)" by (auto simp: file_content_node)
  then show "node_at (fs w) (path_key w src) \<noteq> None" by simp
  fix v
  assume v: "moved w v (fs w)"
  have a: "alive v" by (rule alive_same [OF assms(1) v])
  show "works (f_Stat (file_of w src)) v (\<lambda>info v. works (deferE (f_Close (file_of w src))
      (bindE (os_OpenFile dst [O_RDWR, O_CREATE, O_TRUNC] (fi_perm info)) (\<lambda>fout. deferE (f_Close fout)
        (thenE (io_Copy fout (file_of w src)) (returnE ()))))) v (\<lambda>_. alive))"
  proof (rule works_fStat [OF a])
    show "node_at (fs v) (f_key (file_of w src)) = Some (File m b)" using m by (simp add: moved_fs [OF v])
    fix u
    assume u: "moved v u (fs v)"
    have wu: "moved w u (fs w)" using moved_trans [OF v u] by (simp add: moved_fs [OF v])
    have "writable u dst" using assms(4) wu by (simp add: writable_def moved_fs moved_key is_special_iff)
    from works_copy [OF alive_same [OF a u] this, of "file_of w src" m b _ "\<lambda>fout. returnE ()"] m
    have "works (bindE (os_OpenFile dst [O_RDWR, O_CREATE, O_TRUNC] perm) (\<lambda>fout. deferE (f_Close fout)
        (thenE (io_Copy fout (file_of w src)) (returnE ())))) u (\<lambda>_. alive)" for perm
      by (simp add: moved_fs [OF wu])
    then show "works (deferE (f_Close (file_of w src))
      (bindE (os_OpenFile dst [O_RDWR, O_CREATE, O_TRUNC] (fi_perm (node_info (File m b)))) (\<lambda>fout. deferE (f_Close fout)
        (thenE (io_Copy fout (file_of w src)) (returnE ()))))) u (\<lambda>_. alive)"
      by (intro works_defer_Close)
  qed
qed

lemma WriteFile_works:
  assumes "alive w" and "writable w p"
  shows "works (os_WriteFile p bs perm) w (\<lambda>_. alive)"
  unfolding os_WriteFile_def works_bind
proof (rule works_OpenFile [OF assms])
  fix v m
  assume "moved w v (fs_put (path_key w p) (File m []) (fs w))"
  then have a: "alive v" by (rule alive_put [OF assms])
  show "works (f_Write (file_of w p) bs) v (\<lambda>x v. works (case x of (n, err) \<Rightarrow>
      bindE (attemptE (f_Close (file_of w p))) (\<lambda>cerr. case err of Some e \<Rightarrow> throwE e
        | None \<Rightarrow> (case cerr of Inl e \<Rightarrow> throwE e | Inr u \<Rightarrow> returnE ()))) v (\<lambda>_. alive))"
  proof (rule works_Write [OF a])
    fix u
    assume "moved v u (fs (append_file (f_key (file_of w p)) bs v))"
    then have "alive u" by (rule alive_append [OF a])
    then show "works (case (length bs, None) of (n, err) \<Rightarrow>
      bindE (attemptE (f_Close (file_of w p))) (\<lambda>cerr. case err of Some e \<Rightarrow> throwE e
        | None \<Rightarrow> (case cerr of Inl e \<Rightarrow> throwE e | Inr u \<Rightarrow> returnE ()))) u (\<lambda>_. alive)"
      by (auto simp: works_bind intro!: works_attempt works_Close intro: alive_same)
  qed
qed simp_all

end
