(* ===== verification/Esp_Image.thy ===== *)
theory Esp_Image
  imports Efi_Tree Tree_Oci
begin

text \<open>
  The image genESP makes: getDirSize is the sum of the sizes of the files below a directory, the
  image is at least that large, and what mcopy puts into it is the directory efi only.
\<close>

section \<open>getDirSize\<close>

definition tree_bytes :: "filesys \<Rightarrow> key \<Rightarrow> nat" where
  "tree_bytes m k = (\<Sum>r \<leftarrow> walk_rels m k. case node_at m (k @ r) of Some n \<Rightarrow> fi_size (node_info n) | None \<Rightarrow> 0)"

lemma Stat_OkD:
  assumes "os_Stat p w = (Ok i, w')"
  shows "moved w w' (fs w)" and "\<exists>n. node_at (fs w) (path_key w p) = Some n \<and> i = node_info n"
  using assms by (auto simp: os_Stat_def sys_Ok find_node_def split: sum.splits if_splits dest: resolve_node_Inr)

lemma dir_size [simp]: "fi_dir (node_info n) \<Longrightarrow> fi_size (node_info n) = 0"
  by (cases n) auto

lemma node_size: "(if fi_dir (node_info n) then sz else sz + word_of_nat (fi_size (node_info n))) =
    sz + (word_of_nat (fi_size (node_info n)) :: 64 word)"
  by (cases n) auto

lemma size_fold_Ok:
  assumes "foldE (\<lambda>sz rel. bindE (attemptE (os_Stat (path_Join [p, join_with ''/'' rel]))) (size_fn sz)) sz rels w = (Ok s, w')"
    and "p \<noteq> []" and "list_all (\<lambda>r. list_all proper_comp r \<and> r \<noteq> []) rels"
  shows "moved w w' (fs w) \<and> s = sz + word_of_nat
    (\<Sum>r \<leftarrow> rels. case node_at (fs w) (path_key w p @ r) of Some n \<Rightarrow> fi_size (node_info n) | None \<Rightarrow> 0)"
  using assms
proof (induction rels arbitrary: sz w)
  case Nil
  then show ?case by (simp add: returnE_Ok)
next
  case (Cons r rels)
  from Cons.prems(1) obtain q v sz' v' where st: "attemptE (os_Stat (path_Join [p, join_with ''/'' r])) w = (Ok q, v)"
    and sz': "size_fn sz q v = (Ok sz', v')"
    and rest: "foldE (\<lambda>sz rel. bindE (attemptE (os_Stat (path_Join [p, join_with ''/'' rel]))) (size_fn sz)) sz' rels v' = (Ok s, w')"
    by (auto simp: bindE_Ok)
  from sz' obtain i where q: "q = Inr i" and v': "v' = v"
    and s: "sz' = (if fi_dir i then sz else sz + word_of_nat (fi_size i))"
    by (cases q) (auto simp: size_fn_def io_ok)
  with st have "os_Stat (path_Join [p, join_with ''/'' r]) w = (Ok i, v)" by (auto simp: attemptE_Ok)
  note S = Stat_OkD [OF this]
  from Cons.prems have key: "path_key w (path_Join [p, join_with ''/'' r]) = path_key w p @ r"
    by (intro path_key_Join_rel) auto
  from S(2) key obtain n where n: "node_at (fs w) (path_key w p @ r) = Some n" and i: "i = node_info n" by auto
  from Cons.IH [OF rest Cons.prems(2)] Cons.prems(3) S(1)
  have "moved v w' (fs v)" and "s = sz' + word_of_nat
    (\<Sum>r \<leftarrow> rels. case node_at (fs w) (path_key w p @ r) of Some n \<Rightarrow> fi_size (node_info n) | None \<Rightarrow> 0)"
    by (simp_all add: v' moved_fs [OF S(1)] moved_key [OF S(1)])
  with S(1) show ?case
    by (auto simp: n s i node_size moved_fs [OF S(1)] intro: moved_trans)
qed

lemma walk_rels_proper:
  assumes "wf_fs m"
  shows "list_all (\<lambda>r. list_all proper_comp r \<and> r \<noteq> []) (walk_rels m k)"
proof -
  have "list_all proper_comp (drop (length k) q) \<and> drop (length k) q \<noteq> []"
    if "q \<in> fst ` set m" and "take (length k) q = k" and "q \<noteq> k" for q
  proof
    have "list_all proper_comp q" using assms that(1) by (auto simp: wf_fs_def list_all_iff)
    then show "list_all proper_comp (drop (length k) q)" by (auto simp: list_all_iff dest: in_set_dropD)
    show "drop (length k) q \<noteq> []" using that(2,3) by (metis append_Nil2 append_take_drop_id)
  qed
  then show ?thesis by (auto simp: walk_rels_def list_all_iff)
qed

lemma getDirSize_sum:
  assumes "getDirSize p w = (Ok sz, w')" and "p \<noteq> []" and "wf_fs (fs w)" and "is_dir_at (fs w) (path_key w p)"
  shows "moved w w' (fs w)" and "sz = word_of_nat (tree_bytes (fs w) (path_key w p))"
proof -
  from assms(1) obtain q v sz0 v' where st: "attemptE (os_Stat p) w = (Ok q, v)" and s0: "size_fn 0 q v = (Ok sz0, v')"
    and rest: "foldE (\<lambda>sz rel. bindE (attemptE (os_Stat (path_Join [p, join_with ''/'' rel]))) (size_fn sz)) sz0
      (case q of Inr i \<Rightarrow> if fi_dir i then walk_rels (fs v') (path_key v' p) else [] | Inl e \<Rightarrow> []) v' = (Ok sz, w')"
    by (auto simp: getDirSize_def bindE_Ok getE_Ok)
  from s0 obtain i where q: "q = Inr i" and v': "v' = v" and s: "sz0 = (if fi_dir i then 0 else word_of_nat (fi_size i))"
    by (cases q) (auto simp: size_fn_def io_ok)
  with st have "os_Stat p w = (Ok i, v)" by (auto simp: attemptE_Ok)
  note S = Stat_OkD [OF this]
  from S(2) assms(4) have i: "fi_dir i" by (auto simp: is_dir_at_iff)
  have "list_all (\<lambda>r. list_all proper_comp r \<and> r \<noteq> []) (walk_rels (fs w) (path_key w p))"
    by (rule walk_rels_proper [OF assms(3)])
  with size_fold_Ok [OF rest assms(2)] i q
  have "moved v w' (fs v)" and "sz = word_of_nat (tree_bytes (fs w) (path_key w p))"
    by (auto simp: v' s moved_fs [OF S(1)] moved_key [OF S(1)] tree_bytes_def)
  with S(1) show "moved w w' (fs w)" and "sz = word_of_nat (tree_bytes (fs w) (path_key w p))"
    by (auto simp: moved_fs [OF S(1)] intro: moved_trans)
qed

section \<open>The image\<close>

lemma OpenFile_new:
  assumes "os_OpenFile p fl perm w = (Ok f, w')" and "O_CREATE \<in> set fl" and "O_EXCL \<in> set fl"
  shows "f = file_of w p" and "node_at (fs w) (path_key w p) = None"
    and "moved w w' (fs_put (path_key w p) (File (perm AND NOT (umask w)) []) (fs w))"
  using assms
  by (auto simp: os_OpenFile_def sys_Ok open_step_def Let_def file_of_def put_node_def moved_def
      split: option.splits if_splits node.splits)

lemma fTruncate_OkD:
  assumes "f_Truncate f n w = (Ok u, w')"
  obtains m b where "0 \<le> n" and "node_at (fs w) (f_key f) = Some (File m b)"
    and "moved w w' (fs_put (f_key f) (File m (resize (nat n) b)) (fs w))"
  using assms
  by (auto simp: f_Truncate_def sys_Ok put_node_def moved_def not_less split: if_splits option.splits node.splits)

lemma catch_exit_Ok: "catchE m (\<lambda>e. exitE n) w = (Ok x, w') \<longleftrightarrow> m w = (Ok x, w')"
  by (auto simp: catchE_def exitE_def split: prod.splits outcome.splits)

text \<open>
  C17: When genESP returns nil, the image was a new file of zero bytes when mkfs.fat ran on it, and
  at least as large as all files of the tree together, and at most five percent larger (rounded
  up); no other file had been touched. Then mcopy ran and succeeded, with the directory efi of
  the tree as the only thing to copy.
\<close>

theorem genESP_image_fits:
  assumes "genESP P fname baseDir w = (Ok (), w')" and "baseDir \<noteq> []" and "wf_fs (fs w)"
    and "is_dir_at (fs w) (path_key w baseDir)" and "tree_bytes (fs w) (path_key w baseDir) < 2 ^ 52"
  shows "\<exists>n v1 v2. node_at (fs w) (path_key w fname) = None \<and> file_content v1 fname = Some (replicate n 0) \<and>
    tree_bytes (fs w) (path_key w baseDir) \<le> n \<and> 20 * n \<le> 21 * tree_bytes (fs w) (path_key w baseDir) + 20 \<and>
    (\<forall>k. k \<noteq> path_key w fname \<longrightarrow> node_at (fs v1) k = node_at (fs w) k) \<and>
    ran_ok P [] [''mkfs.fat'', ''-s'', ''1'', ''-F'', ''32'', ''-n'', ''EFIBOOT'', fname] v1 v2 \<and>
    ran_ok P [] [''env'', ''MTOOLS_SKIP_CHECK=1'', ''mcopy'', ''-s'', ''-v'', ''-i'', fname,
      path_Join [baseDir, ''efi''], ''::efi''] v2 w'"
proof -
  let ?k = "path_key w fname" and ?t = "tree_bytes (fs w) (path_key w baseDir)"
  from assms(1) obtain sz u fp u1 u2 v1 v2 where ds: "getDirSize baseDir w = (Ok sz, u)"
    and op: "os_OpenFile fname [O_RDWR, O_CREATE, O_EXCL] mode_0644 u = (Ok fp, u1)"
    and tr: "f_Truncate fp (esp_size sz) u1 = (Ok (), u2)" and cl: "f_Close fp u2 = (Ok (), v1)"
    and mk: "ran_ok P [] [''mkfs.fat'', ''-s'', ''1'', ''-F'', ''32'', ''-n'', ''EFIBOOT'', fname] v1 v2"
    and mc: "ran_ok P [] (esp_mcopy_args fname baseDir) v2 w'"
    by (auto simp: genESP_def bindE_Ok wrapE_Ok RunCommand_Ok catch_exit_Ok)
  note D = getDirSize_sum [OF ds assms(2-4)] and O = OpenFile_new [OF op, simplified] and C = Close_OkD [OF cl]
  have sz: "unat sz = ?t" using assms(5) by (simp add: D(2) unat_of_nat)
  from esp_size_bounds [of sz] assms(5) have b: "int ?t \<le> esp_size sz" "20 * esp_size sz \<le> 21 * int ?t + 20"
    by (simp_all add: sz)
  have k: "path_key u fname = ?k" and fu: "fs u = fs w"
    by (simp_all add: moved_key [OF D(1)] moved_fs [OF D(1)])
  have new: "node_at (fs w) ?k = None" using O(2) by (simp add: k fu)
  then have ne: "?k \<noteq> []" by auto
  from fTruncate_OkD [OF tr] obtain m c where "node_at (fs u1) (f_key fp) = Some (File m c)"
    and m: "moved u1 u2 (fs_put (f_key fp) (File m (resize (nat (esp_size sz)) c)) (fs u1))" by blast
  then have u2: "fs u2 = fs_put ?k (File m (replicate (nat (esp_size sz)) 0)) (fs u1)"
    using ne by (auto simp: O(1) k moved_fs [OF O(3)] fu moved_fs [OF m])
  have key: "path_key v1 fname = ?k" by (simp add: moved_key [OF C] moved_key [OF m] moved_key [OF O(3)] k)
  have "file_content v1 fname = Some (replicate (nat (esp_size sz)) 0)"
    using ne by (simp add: file_content_node key moved_fs [OF C] u2)
  moreover have "node_at (fs v1) q = node_at (fs w) q" if "q \<noteq> ?k" for q
    using that by (simp add: moved_fs [OF C] u2 moved_fs [OF O(3)] k fu)
  ultimately show ?thesis
    using new b mk mc [unfolded esp_mcopy_args_def]
    by (intro exI [of _ "nat (esp_size sz)"] exI [of _ v1] exI [of _ v2]) auto
qed

theorem genESP_image_fits_witness:
  "\<exists>n v1 v2. node_at (fs (sample_world kit_fs)) (path_key (sample_world kit_fs) ''/img'') = None \<and>
    file_content v1 ''/img'' = Some (replicate n 0) \<and>
    tree_bytes (fs (sample_world kit_fs)) (path_key (sample_world kit_fs) ''/k'') \<le> n \<and>
    20 * n \<le> 21 * tree_bytes (fs (sample_world kit_fs)) (path_key (sample_world kit_fs) ''/k'') + 20 \<and>
    (\<forall>k. k \<noteq> path_key (sample_world kit_fs) ''/img'' \<longrightarrow> node_at (fs v1) k = node_at (fs (sample_world kit_fs)) k) \<and>
    ran_ok idle_programs [] [''mkfs.fat'', ''-s'', ''1'', ''-F'', ''32'', ''-n'', ''EFIBOOT'', ''/img''] v1 v2 \<and>
    ran_ok idle_programs [] [''env'', ''MTOOLS_SKIP_CHECK=1'', ''mcopy'', ''-s'', ''-v'', ''-i'', ''/img'',
      path_Join [''/k'', ''efi''], ''::efi''] v2 (snd (genESP idle_programs ''/img'' ''/k'' (sample_world kit_fs)))"
proof (rule genESP_image_fits)
  show "genESP idle_programs ''/img'' ''/k'' (sample_world kit_fs) =
      (Ok (), snd (genESP idle_programs ''/img'' ''/k'' (sample_world kit_fs)))" by (rule run_pair, code_simp)
  show "wf_fs (fs (sample_world kit_fs))" and "is_dir_at (fs (sample_world kit_fs)) (path_key (sample_world kit_fs) ''/k'')"
    and "tree_bytes (fs (sample_world kit_fs)) (path_key (sample_world kit_fs) ''/k'') < 2 ^ 52" by code_simp+
qed simp

section \<open>The EFI partition of an iso in kernel mode\<close>

lemma beside_new_dir:
  assumes "wf_fs m" and "node_at m k = None" and "node_at m q \<noteq> None"
  shows "beside k q"
proof (rule ccontr)
  assume "\<not> beside k q"
  then obtain r where "q = k @ r" and "efi_part r" by (rule not_besideE)
  moreover from this have "r \<noteq> []" by auto
  ultimately show False using wf_fs_parent [OF assms(1), of k r] assms(2,3) by (simp add: is_dir_at_iff)
qed

text \<open>
  C18: With --cdrom and --boot=efi-kernel the kernel does not get onto the EFI partition: when genESP
  (the method) returns nil, genESP (the function) was run on a tree with kernel.efi at its root and
  with startup.nsh as the only file below efi, and efi is all that it copies into the image.
\<close>

theorem genESP_leaves_out_kernel:
  assumes "OciBoot_genESP T b opts fname w = (Ok (), w')" and "iso_EFIBootMode opts = EFIKernel"
    and "wf_fs (fs w)" and "path_IsAbs (cwd w)" and "\<And>xs. mset (t_iter T xs) = mset xs"
    and "krnp = path_Join [bootKitDir b, ''bootkit/kernel.efi'']" and "file_content w krnp = Some k"
  shows "\<exists>tmpd v v1 v2. genESP (t_progs T) fname tmpd v = (Ok (), v2) \<and>
    (\<exists>p. node_at (fs v) (path_key v tmpd @ [''kernel.efi'']) = Some (File p k)) \<and>
    (\<forall>q c. (\<exists>p. node_at (fs v) (path_key v tmpd @ [''efi''] @ q) = Some (File p c)) \<longleftrightarrow>
      q = [''boot'', ''startup.nsh''] \<and>
      c = bytes_of_string (join_with [CHR 0x0A] (startup_nsh EFIKernel (full_cmdline b (iso_CommandLine opts))))) \<and>
    ran_ok (t_progs T) [] [''env'', ''MTOOLS_SKIP_CHECK=1'', ''mcopy'', ''-s'', ''-v'', ''-i'', fname,
      path_Join [tmpd, ''efi''], ''::efi''] v1 v2 \<and>
    (\<exists>r. os_RemoveAll tmpd v2 = (r, w'))"
proof -
  from assms(1,2) obtain tmpd u v v2 r where mk: "os_MkdirTemp [] ''genESP-'' w = (Ok tmpd, u)"
    and ef: "PopulateEFI T b EFIKernel (iso_CommandLine opts) tmpd u = (Ok (), v)"
    and ge: "genESP (t_progs T) fname tmpd v = (Ok (), v2)" and rm: "os_RemoveAll tmpd v2 = (r, w')"
    by (auto simp: OciBoot_genESP_def bindE_Ok deferE_Ok)
  have wf: "wf_world w" using assms(3,4) by (simp add: wf_world_def)
  from MkdirTemp_run [OF mk] have ne: "tmpd \<noteq> []" and env: "same_env w u"
    and new: "node_at (fs w) (path_key w tmpd) = None"
    and fu: "fs u = fs_put (path_key w tmpd) (Dir (mode_0700 AND NOT (umask w))) (fs w)"
    by (auto simp: temp_path_ends)
  have key: "path_key u p = path_key w p" for p by (rule same_env_path_key [OF env])
  have fresh: "efi_free u (path_key u tmpd)"
    using MkdirTemp_fresh [OF mk wf] by (auto simp: efi_free_def efi_part_def)
  from assms(7) obtain m where m: "node_at (fs w) (path_key w krnp) = Some (File m k)" by (auto simp: file_content_node)
  with new have ku: "node_at (fs u) (path_key u krnp) = Some (File m k)" by (auto simp: fu key)
  have out: "beside (path_key u tmpd) (path_key u krnp) \<and> \<not> is_special u krnp"
    using beside_new_dir [OF assms(3) new, of "path_key w krnp"] m ku by (simp add: key is_special_iff)
  from PopulateEFI_files [OF ef ne fresh _ assms(5,6) refl out] obtain k' s where
    k': "file_content u krnp = Some k'" and files: "\<forall>q c. efi_part q \<longrightarrow>
      ((\<exists>p. node_at (fs v) (path_key u tmpd @ q) = Some (File p c)) \<longleftrightarrow> (q, c) \<in> efi_files EFIKernel
        (bytes_of_string (join_with [CHR 0x0A] (startup_nsh EFIKernel (full_cmdline b (iso_CommandLine opts))))) k' s)"
    by (auto simp: EFIKernel_def EFIAuto_def)
  have "k' = k" using k' ku by (simp add: file_content_def)
  have kv: "path_key v p = path_key u p" for p
    using io_respectsD [OF quiet_PopulateEFI ef] by (simp add: quiet_rel_def same_env_path_key)
  from ge obtain v1 where mc: "ran_ok (t_progs T) [] (esp_mcopy_args fname tmpd) v1 v2"
    by (auto simp: genESP_def bindE_Ok RunCommand_Ok)
  have "\<exists>p. node_at (fs v) (path_key v tmpd @ [''kernel.efi'']) = Some (File p k)"
    using files [rule_format, of "[''kernel.efi'']" k] by (simp add: kv efi_files_def EFIKernel_def EFIShim_def \<open>k' = k\<close>)
  moreover have "(\<exists>p. node_at (fs v) (path_key v tmpd @ [''efi''] @ q) = Some (File p c)) \<longleftrightarrow>
      q = [''boot'', ''startup.nsh''] \<and>
      c = bytes_of_string (join_with [CHR 0x0A] (startup_nsh EFIKernel (full_cmdline b (iso_CommandLine opts))))" for q c
    using files [rule_format, of "''efi'' # q" c] by (simp add: kv efi_files_def EFIKernel_def EFIShim_def)
  ultimately show ?thesis
    using ge mc [unfolded esp_mcopy_args_def] rm by blast
qed

abbreviation kernel_iso :: ISOOptions where
  "kernel_iso \<equiv> \<lparr>iso_EFIBootMode = EFIKernel, iso_CommandLine = ''c''\<rparr>"

theorem genESP_leaves_out_kernel_witness:
  "\<exists>tmpd v v1 v2. genESP (t_progs sample_tools) ''/img'' tmpd v = (Ok (), v2) \<and>
    (\<exists>p. node_at (fs v) (path_key v tmpd @ [''kernel.efi'']) = Some (File p [1])) \<and>
    (\<forall>q c. (\<exists>p. node_at (fs v) (path_key v tmpd @ [''efi''] @ q) = Some (File p c)) \<longleftrightarrow>
      q = [''boot'', ''startup.nsh''] \<and>
      c = bytes_of_string (join_with [CHR 0x0A] (startup_nsh EFIKernel (full_cmdline kit_boot (iso_CommandLine kernel_iso))))) \<and>
    ran_ok (t_progs sample_tools) [] [''env'', ''MTOOLS_SKIP_CHECK=1'', ''mcopy'', ''-s'', ''-v'', ''-i'', ''/img'',
      path_Join [tmpd, ''efi''], ''::efi''] v1 v2 \<and>
    (\<exists>r. os_RemoveAll tmpd v2 = (r, snd (OciBoot_genESP sample_tools kit_boot kernel_iso ''/img'' (sample_world kit_fs))))"
proof (rule genESP_leaves_out_kernel)
  show "OciBoot_genESP sample_tools kit_boot kernel_iso ''/img'' (sample_world kit_fs) =
      (Ok (), snd (OciBoot_genESP sample_tools kit_boot kernel_iso ''/img'' (sample_world kit_fs)))"
    by (rule run_pair, code_simp)
  show "wf_fs (fs (sample_world kit_fs))" and "path_IsAbs (cwd (sample_world kit_fs))" by code_simp+
  show "mset (t_iter sample_tools xs) = mset xs" for xs by (simp add: sample_tools_def)
  show "''/k/bootkit/kernel.efi'' = path_Join [bootKitDir kit_boot, ''bootkit/kernel.efi'']"
    and "file_content (sample_world kit_fs) ''/k/bootkit/kernel.efi'' = Some [1]" by code_simp+
qed simp

end
