(* ===== verification/Efi_Live.thy ===== *)
theory Efi_Live
  imports OS_Live Esp_Image
begin

text \<open>PopulateEFI returns nil on every machine where nothing fails, given a bootkit and a directory with room for its files.\<close>

section \<open>Directories\<close>

lemma mkdirs_ok:
  assumes "\<forall>i n. 0 < i \<longrightarrow> i \<le> length cs \<longrightarrow> node_at m (pre @ take i cs) = Some n \<longrightarrow> (\<exists>q. n = Dir q)"
  shows "\<exists>m'. mkdirs perm pre cs m = Inr m'"
  using assms
proof (induction cs arbitrary: pre m)
  case (Cons c cs)
  have first: "\<exists>q. n = Dir q" if "node_at m (pre @ [c]) = Some n" for n
    using Cons.prems [rule_format, of 1] that by simp
  have later: "\<exists>q. n = Dir q" if "0 < i" "i \<le> length cs" "node_at m ((pre @ [c]) @ take i cs) = Some n" for i n
    using Cons.prems [rule_format, of "Suc i"] that by simp
  show ?case
  proof (cases "node_at m (pre @ [c])")
    case None
    with later Cons.IH [of "fs_put (pre @ [c]) (Dir perm) m" "pre @ [c]"] show ?thesis by auto
  next
    case (Some n)
    with first later Cons.IH [of m "pre @ [c]"] show ?thesis by auto
  qed
qed simp

lemma alive_quiet:
  "alive w \<Longrightarrow> io_respects keeps_rel m \<Longrightarrow> io_respects quiet_rel m \<Longrightarrow> m w = (Ok x, w') \<Longrightarrow> alive w'"
  using alive_step [of w m "Ok x" w'] io_respectsD [of quiet_rel m w "Ok x" w'] by (simp add: quiet_rel_def)

lemma works_MkdirAll:
  assumes "alive w" and "p \<noteq> []"
    and "\<And>i n. node_at (fs w) (take i (path_key w p)) = Some n \<Longrightarrow> \<exists>q. n = Dir q"
  shows "\<exists>w'. os_MkdirAll p perm w = (Ok (), w') \<and> alive w'"
proof -
  from mkdirs_ok [of "path_key w p" "fs w" "[]" "perm AND NOT (umask w)"] assms(3)
  obtain m' where "mkdirs (perm AND NOT (umask w)) [] (path_key w p) (fs w) = Inr m'" by auto
  with assms(1,2) have "os_MkdirAll p perm w = (Ok (), w\<lparr>tick := Suc (tick w), fs := m'\<rparr>)"
    by (simp add: os_MkdirAll_def sysp_Ok alive_def)
  with alive_quiet [OF assms(1) keeps_MkdirAll quiet_MkdirAll this] show ?thesis by blast
qed

text \<open>Where the part of PopulateEFI is free, every directory in it can be made.\<close>

lemma efi_prefix:
  assumes "alive w" and "is_dir_at (fs w) k" and "efi_free w k" and "efi_part r"
    and "node_at (fs w) (take i (k @ r)) = Some n"
  shows "\<exists>q. n = Dir q"
proof (cases "i \<le> length k")
  case True
  have "node_at (fs w) (take i k @ drop i k) \<noteq> None" using assms(2) by (auto simp: is_dir_at_iff)
  with assms(1,2) wf_fs_parent [of "fs w" "take i k" "drop i k"] have "is_dir_at (fs w) (take i k)"
    by (cases "drop i k = []") (auto simp: alive_def wf_world_def)
  with assms(5) True show ?thesis by (auto simp: is_dir_at_iff)
next
  case False
  with assms(4) have "efi_part (take (i - length k) r)" by (cases r) (auto simp: efi_part_def take_Cons')
  with assms(3,5) False show ?thesis by (auto simp: efi_free_def)
qed

section \<open>Copies\<close>

lemma writable_moved: "moved w v (fs w) \<Longrightarrow> writable v p = writable w p"
  by (simp add: writable_def moved_fs moved_key is_special_iff)

lemma copies_to_works:
  assumes "alive w" and "distinct (dest_keys g w xs)"
    and "list_all (\<lambda>(s, d). s \<noteq> [] \<and> file_content w s \<noteq> None \<and> path_key w s \<notin> set (dest_keys g w xs) \<and> writable w (g d)) xs"
  shows "\<exists>w'. copies_to g xs w = (Ok (), w')"
  using assms
proof (induction xs arbitrary: w)
  case Nil
  then show ?case by (simp add: copies_to_def io_run)
next
  case (Cons x xs)
  obtain s d where x: "x = (s, d)" by (cases x)
  from Cons.prems(3) obtain b where b: "file_content w s = Some b" and s: "s \<noteq> []" and d: "writable w (g d)"
    and ne: "path_key w s \<noteq> path_key w (g d)" by (auto simp: x dest_keys_def)
  from copyFile_works [OF Cons.prems(1) b s d] obtain v where cp: "copyFile s (g d) w = (Ok (), v)" and v: "alive v"
    by (auto elim: worksE)
  from b obtain m where m: "node_at (fs w) (path_key w s) = Some (File m b)" by (auto simp: file_content_node)
  note N = copyFile_node [OF cp m ne] 
  have ns: "\<not> is_special w (g d)" using d by (simp add: writable_def)
  have key: "path_key v p = path_key w p" for p by (rule same_env_path_key [OF N(2) [OF ns]])
  have dk: "dest_keys g v xs = dest_keys g w xs" by (simp add: dest_keys_def key)
  have dk2: "dest_keys g w (x # xs) = path_key w (g d) # dest_keys g w xs" by (simp add: x dest_keys_def)
  have new: "path_key w (g d) \<notin> set (dest_keys g w xs)" using Cons.prems(2) by (simp add: dk2)
  have other: "node_at (fs v) q = node_at (fs w) q" if "q \<noteq> path_key w (g d)" for q using N(1) [OF ns] that by simp
  have "s' \<noteq> [] \<and> file_content v s' \<noteq> None \<and> path_key v s' \<notin> set (dest_keys g v xs) \<and> writable v (g d')"
    if "(s', d') \<in> set xs" for s' d'
  proof -
    from Cons.prems(3) that have h: "s' \<noteq> []" "file_content w s' \<noteq> None" "path_key w s' \<notin> set (dest_keys g w (x # xs))"
      "writable w (g d')" by (auto simp: list_all_iff)
    have "path_key w (g d') \<in> set (dest_keys g w xs)" using that by (auto simp: dest_keys_def)
    with new have k': "path_key w (g d') \<noteq> path_key w (g d)" by auto
    have par: "butlast (path_key w (g d')) \<noteq> path_key w (g d)" using h(4) d by (auto simp: writable_def)
    have "writable v (g d')"
      using h(4) other [OF k'] other [OF par] by (simp add: writable_def key is_dir_at_def is_special_def)
    moreover have "file_content v s' = file_content w s'"
      using h(3) other [of "path_key w s'"] by (simp add: dk2 file_content_def key)
    ultimately show ?thesis using h by (simp add: dk dk2 key)
  qed
  then have "list_all (\<lambda>(s, d). s \<noteq> [] \<and> file_content v s \<noteq> None \<and> path_key v s \<notin> set (dest_keys g v xs) \<and> writable v (g d)) xs"
    by (auto simp: list_all_iff)
  moreover have "distinct (dest_keys g v xs)" using Cons.prems(2) by (simp add: dk dk2)
  ultimately obtain w' where "copies_to g xs v = (Ok (), w')" using Cons.IH [OF v] by blast
  with cp show ?case by (auto simp: copies_to_def x thenE_Ok)
qed

section \<open>PopulateEFI\<close>

lemma free_excludes:
  assumes "efi_free w k" and "file_content w p = Some b"
  shows "beside k (path_key w p) \<and> \<not> is_special w p"
proof -
  from assms(2) obtain m where m: "node_at (fs w) (path_key w p) = Some (File m b)" by (auto simp: file_content_node)
  have "beside k (path_key w p)"
    by (rule ccontr, erule not_besideE) (use assms(1) m in \<open>auto simp: efi_free_def\<close>)
  with m show ?thesis by (simp add: is_special_iff)
qed

lemma efi_mode_works:
  assumes "alive w" and "mode0 \<in> {EFIAuto, EFIShim, EFIKernel}" and "bootKitDir b \<noteq> []"
    and "mode0 = EFIKernel \<or> file_content w (path_Join [bootKitDir b, ''bootkit/shim.efi'']) \<noteq> None"
  shows "\<exists>mode v. efi_mode b mode0 w = (Ok mode, v) \<and> alive v \<and> moved w v (fs w) \<and>
    mode = (if mode0 = EFIKernel then EFIKernel else EFIShim)"
proof (cases "mode0 = EFIAuto")
  case False
  with assms(1,2) show ?thesis by (auto simp: efi_mode_def io_run EFIShim_def EFIKernel_def)
next
  case True
  let ?p = "path_Join [bootKitDir b, ''bootkit/shim.efi'']"
  have "mode0 \<noteq> EFIKernel" using True by (simp add: EFIAuto_def EFIKernel_def)
  with assms(4) obtain m c where n: "node_at (fs w) (path_key w ?p) = Some (File m c)" by (auto simp: file_content_node)
  have ne: "?p \<noteq> []" using assms(3) by simp
  have "works (efi_mode b mode0) w (\<lambda>mode v. mode = EFIShim \<and> moved w v (fs w))"
    using True by (auto simp: efi_mode_def oci_PathExists_def works_bind intro!: works_attempt works_Stat [OF assms(1) ne n])
  with \<open>mode0 \<noteq> EFIKernel\<close> alive_same [OF assms(1)] show ?thesis by (auto elim!: worksE)
qed

lemma PopulateEFI_works:
  assumes "alive w" and "destd \<noteq> []" and "is_dir_at (fs w) (path_key w destd)" and "efi_free w (path_key w destd)"
    and "mode0 \<in> {EFIAuto, EFIShim, EFIKernel}" and "\<And>xs. mset (t_iter T xs) = mset xs" and "bootKitDir b \<noteq> []"
    and krn: "file_content w (path_Join [bootKitDir b, ''bootkit/kernel.efi'']) \<noteq> None"
    and shm: "mode0 = EFIKernel \<or> file_content w (path_Join [bootKitDir b, ''bootkit/shim.efi'']) \<noteq> None"
  shows "\<exists>w'. PopulateEFI T b mode0 cmdline destd w = (Ok (), w')"
proof -
  let ?K = "path_key w destd" and ?g = "\<lambda>d. path_Join [destd, d]"
  from efi_mode_works [OF assms(1,5,7) shm] obtain mode v0 where em: "efi_mode b mode0 w = (Ok mode, v0)"
    and v0: "alive v0" "moved w v0 (fs w)" and mode: "mode = (if mode0 = EFIKernel then EFIKernel else EFIShim)" by blast
  note k0 = moved_key [OF v0(2)] and f0 = moved_fs [OF v0(2)]
  have fr0: "efi_free v0 (path_key v0 destd)" using assms(4) by (simp add: efi_free_def k0 f0)
  have dir0: "is_dir_at (fs v0) (path_key v0 destd)" using assms(3) by (simp add: k0 f0)
  obtain v1 where md: "os_MkdirAll (path_Join [destd, EFIBootDir]) mode_0755 v0 = (Ok (), v1)" and v1: "alive v1"
    using works_MkdirAll [OF v0(1), of "path_Join [destd, EFIBootDir]" mode_0755]
      efi_prefix [OF v0(1) dir0 fr0, of "[''efi'', ''boot'']"] assms(2) by (auto simp: efi_paths)
  note D = efi_dirs [OF assms(2) fr0 md, unfolded k0]
  have k1: "path_key v1 p = path_key w p" for p using moved_key [OF MkdirAll_OkD(1) [OF md]] k0 by simp
  have "writable v1 (path_Join [path_Join [destd, EFIBootDir], StartupNSHPath])"
    using D [of "[''efi'', ''boot'']"] D [of "[''efi'', ''boot'', ''startup.nsh'']"] assms(2)
    by (simp add: writable_def is_special_def is_dir_at_def k1 efi_paths butlast_append)
  from worksE [OF WriteFile_works [OF v1 this]] obtain v2 where
    wr: "os_WriteFile (path_Join [path_Join [destd, EFIBootDir], StartupNSHPath])
        (bytes_of_string (join_with [CHR 0x0A] (startup_nsh mode (full_cmdline b cmdline)))) mode_0644 v1 = (Ok (), v2)"
    and v2: "alive v2" by (metis (full_types) unit.exhaust)
  note S = efi_skeleton [OF assms(2) fr0 md wr, unfolded k0 f0]
  have k2: "path_key v2 p = path_key w p" for p using same_env_path_key [OF S(1)] k0 by simp
  let ?xs = "t_iter T (efi_copies b mode)"
  note P = efi_copies_perm [OF assms(6) [of "efi_copies b mode"] assms(2)]
  have nodes: "node_at (fs v2) (?K @ q) = (if q = [''efi''] \<or> q = [''efi'', ''boot'']
      then Some (Dir (mode_0755 AND NOT (umask v0))) else None)" if "efi_part q" "q \<noteq> [''efi'', ''boot'', ''startup.nsh'']" for q
  proof -
    have "\<not> is_special v1 (path_Join [path_Join [destd, EFIBootDir], StartupNSHPath])"
      using D by (simp add: is_special_iff k1 efi_paths [OF assms(2)])
    from WriteFile_OkD(2) [OF wr this, of "?K @ q"] D [OF that(1)] that(2) show ?thesis
      by (simp add: k1 efi_paths [OF assms(2)])
  qed
  have K2: "is_dir_at (fs v2) ?K" using assms(3) S(4) [of ?K] by (auto simp: is_dir_at_iff)
  have dest: "writable v2 (?g d)" if "(s, d) \<in> set ?xs" for s d
  proof -
    have boot: "is_dir_at (fs v2) (?K @ [''efi'', ''boot''])" by (simp add: is_dir_at_iff nodes)
    have leaf: "node_at (fs v2) (?K @ r) = None"
      if "r = [''efi'', ''boot'', ''shim.efi''] \<or> r = [''efi'', ''boot'', ''kernel.efi''] \<or> r = [''kernel.efi'']" for r
      using that nodes [of r] by (elim disjE) simp_all
    from that have "(s, d) \<in> set (efi_copies b mode)" by (simp only: P(3))
    then have "d = EFIBootDir @ ShimEFI \<or> d = EFIBootDir @ KernelEFI \<or> d = KernelEFI"
      unfolding efi_copies_eq by (auto split: if_splits)
    then show ?thesis
      using boot K2 leaf assms(2) by (elim disjE)
        (simp_all add: writable_def is_special_def is_dir_at_def [of _ "_ # _"] k2 efi_paths butlast_append is_dir_at_iff)
  qed
  have src: "s \<noteq> [] \<and> file_content v2 s \<noteq> None \<and> path_key v2 s \<notin> set (dest_keys ?g v2 ?xs)" if "(s, d) \<in> set ?xs" for s d
  proof -
    from that have "(s, d) \<in> set (efi_copies b mode)" by (simp only: P(3))
    with krn shm mode obtain c where c: "file_content w s = Some c" and ne: "s \<noteq> []"
      using assms(7) unfolding efi_copies_eq by (auto simp: EFIShim_def EFIKernel_def split: if_splits)
    from free_excludes [OF assms(4) c] have out: "beside ?K (path_key w s)" ..
    have "file_content v2 s = Some c"
      using c S(7) [OF out] by (auto simp: file_content_node k2)
    moreover have "path_key w s \<notin> set (efi_dests ?K mode)"
      using out efi_dests_below by fastforce
    ultimately show ?thesis using ne P(1) [of v2] by (simp add: k2)
  qed
  obtain w' where "copies_to ?g ?xs v2 = (Ok (), w')"
    using copies_to_works [OF v2 P(2)] src dest by (fastforce simp: list_all_iff)
  with em md wr show ?thesis by (auto simp: PopulateEFI_def bindE_Ok copies_to_def)
qed

text \<open>
  C16: PopulateEFI makes its tree whenever it can: on a machine where no call fails and the file
  system is well formed, with a directory that has neither efi nor kernel.efi and a bootkit that holds kernel.efi and, unless
  the mode is efi-kernel, shim.efi, it returns nil.
\<close>

theorem PopulateEFI_succeeds:
  assumes "\<And>i. faults w i = None" and "wf_fs (fs w)" and "path_IsAbs (cwd w)"
    and "destd \<noteq> []" and "is_dir_at (fs w) (path_key w destd)" and "efi_free w (path_key w destd)"
    and "mode0 \<in> {EFIAuto, EFIShim, EFIKernel}" and "\<And>xs. mset (t_iter T xs) = mset xs" and "bootKitDir b \<noteq> []"
    and "file_content w (path_Join [bootKitDir b, ''bootkit/kernel.efi'']) \<noteq> None"
    and "mode0 = EFIKernel \<or> file_content w (path_Join [bootKitDir b, ''bootkit/shim.efi'']) \<noteq> None"
  shows "\<exists>w'. PopulateEFI T b mode0 cmdline destd w = (Ok (), w')"
  using assms(1-3) by (intro PopulateEFI_works assms) (simp add: alive_def wf_world_def)

theorem PopulateEFI_succeeds_witness:
  "\<exists>w'. PopulateEFI sample_tools kit_boot EFIAuto ''c'' ''/t'' (sample_world kit_fs) = (Ok (), w')"
proof (rule PopulateEFI_succeeds)
  show "faults (sample_world kit_fs) i = None" for i by (simp add: sample_world_def)
  show "wf_fs (fs (sample_world kit_fs))" and "path_IsAbs (cwd (sample_world kit_fs))"
    and "is_dir_at (fs (sample_world kit_fs)) (path_key (sample_world kit_fs) ''/t'')"
    and "file_content (sample_world kit_fs) (path_Join [bootKitDir kit_boot, ''bootkit/kernel.efi'']) \<noteq> None"
    and "EFIAuto = EFIKernel \<or> file_content (sample_world kit_fs) (path_Join [bootKitDir kit_boot, ''bootkit/shim.efi'']) \<noteq> None"
    by code_simp+
  have k: "path_key (sample_world kit_fs) ''/t'' = [''t'']" by code_simp
  show "efi_free (sample_world kit_fs) (path_key (sample_world kit_fs) ''/t'')"
    unfolding k efi_free_def by (simp add: node_at_def kit_fs_def sample_world_def)
  show "mset (t_iter sample_tools xs) = mset xs" for xs by (simp add: sample_tools_def)
qed simp_all

end
