(* ===== verification/Populate_Tree.thy ===== *)
theory Populate_Tree
  imports Efi_Tree Tree_Inv
begin

text \<open>
  What Populate puts on the medium: the images it copies, from where and to where, in which order,
  and the files it copies, with the bytes they have.
\<close>

section \<open>Characters of joined paths\<close>

lemma no_char_foldl:
  assumes "list_all (\<lambda>x. c \<notin> set x) acc" and "list_all (\<lambda>x. c \<notin> set x) cs"
  shows "list_all (\<lambda>x. c \<notin> set x) (foldl (clean_step r) acc cs)"
  using assms
proof (induction cs arbitrary: acc)
  case (Cons x cs)
  have "set (clean_step r acc x) \<subseteq> set acc \<union> {x}"
    by (auto simp: clean_step_def dest: in_set_butlastD)
  with Cons.prems have "list_all (\<lambda>x. c \<notin> set x) (clean_step r acc x)"
    unfolding list_all_iff by auto
  with Cons.IH Cons.prems(2) show ?case by simp
qed simp

lemma no_char_join: "c \<notin> set sep \<Longrightarrow> c \<notin> set (join_with sep xs) \<longleftrightarrow> list_all (\<lambda>x. c \<notin> set x) xs"
  by (induction sep xs rule: join_with.induct) auto

lemma no_char_Clean:
  assumes "c \<notin> set p" and "c \<noteq> slash" and "c \<noteq> CHR ''.''"
  shows "c \<notin> set (path_Clean p)"
proof -
  have "list_all (\<lambda>x. c \<notin> set x) (split_on slash p)"
    using assms(1,2) no_char_join [of c "[slash]" "split_on slash p"] by simp
  then have "list_all (\<lambda>x. c \<notin> set x) (path_comps p)"
    unfolding path_comps_def clean_comps_def by (intro no_char_foldl) simp_all
  with assms(2,3) show ?thesis
    using no_char_join [of c "''/''" "path_comps p"] by (auto simp: path_Clean_def path_of_comps_def)
qed

lemma no_colon_Join: "list_all (\<lambda>x. colon \<notin> set x) ps \<Longrightarrow> colon \<notin> set (path_Join ps)"
proof -
  assume "list_all (\<lambda>x. colon \<notin> set x) ps"
  then have "list_all (\<lambda>x. colon \<notin> set x) (dropWhile (\<lambda>e. e = []) ps)"
    by (auto simp: list_all_iff dest: set_dropWhileD)
  then have "colon \<notin> set (path_Clean (join_with ''/'' (dropWhile (\<lambda>e. e = []) ps)))"
    by (intro no_char_Clean) (simp_all add: no_char_join)
  then show ?thesis by (simp add: path_Join_def split: list.split)
qed

text \<open>The directory of a file that is named below another directory.\<close>

lemma path_of_comps_snoc: "ds \<noteq> [] \<Longrightarrow> path_of_comps r (ds @ [c]) = path_of_comps r ds @ ''/'' @ c"
  by (simp add: path_of_comps_def join_with_append)

lemma path_Dir_slash: "slash \<notin> set c \<Longrightarrow> path_Dir (p @ ''/'' @ c) = path_Clean (p @ ''/'')"
  by (simp add: path_Dir_def dropWhile_append)

lemma path_key_Dir:
  assumes "p \<noteq> []" and "plain_path q" and "plain_path (q @ ''/'' @ c)"
    and "plain_comps (q @ ''/'' @ c) = plain_comps q @ [c]" and "plain_comps q \<noteq> []" and "slash \<notin> set c"
  shows "path_key w (path_Dir (path_Join [p, q @ ''/'' @ c])) = path_key w p @ plain_comps q"
proof -
  have ne: "path_Join [p, q] \<noteq> []" using assms(1) by simp
  have "path_Join [p, q @ ''/'' @ c] = path_Join [p, q] @ ''/'' @ c"
    unfolding path_Join_plain [OF assms(1,2)] path_Join_plain [OF assms(1,3)] assms(4)
    using path_of_comps_snoc [of "path_comps p @ plain_comps q" "path_IsAbs p" c] assms(5) by simp
  then have "path_Dir (path_Join [p, q @ ''/'' @ c]) = path_Join [path_Join [p, q], []]"
    using path_Dir_slash [OF assms(6)] path_Join2 [OF ne, of "[]"] by simp
  moreover have "path_key w (path_Join [path_Join [p, q], []]) = path_key w (path_Join [p, q]) @ plain_comps []"
    by (rule path_key_Join_plain [OF ne]) code_simp
  ultimately show ?thesis using path_key_Join_plain [OF assms(1,2)] by (simp add: plain_comps_def)
qed

section \<open>References\<close>

text \<open>The parts of a reference \<open>scheme:dir:[name:]tag\<close>.\<close>

definition ref_dir :: "string \<Rightarrow> string" where
  "ref_dir ref = split_on colon ref ! 1"

definition ref_name :: "string \<Rightarrow> string" where
  "ref_name ref = (let toks = split_on colon ref in if length toks = 3 then [] else toks ! 2)"

definition ref_tag :: "string \<Rightarrow> string" where
  "ref_tag ref = (let toks = split_on colon ref in if length toks = 3 then toks ! 2 else toks ! 3)"

text \<open>Where an image is copied from, by the layout found there, and to.\<close>

definition image_source :: "bool \<Rightarrow> string \<Rightarrow> string" where
  "image_source flat ref = ''oci:'' @
     (if flat then ref_dir ref @ '':'' @ (if ref_name ref = [] then [] else ref_name ref @ '':'') @ ref_tag ref
      else path_Join [ref_dir ref, ref_name ref] @ '':'' @ ref_tag ref)"

definition image_dest :: "string \<Rightarrow> string \<Rightarrow> string \<Rightarrow> string" where
  "image_dest target name tag = ''oci:'' @ path_Join [path_Join [target, ''oci''], name] @ '':'' @ tag"

lemma newOciPath_Ok:
  assumes "newOciPath ref lay w = (Ok p, w')"
  shows "p = \<lparr>Repo = ref_dir ref, oci_Name = ref_name ref, Tag = ref_tag ref, layout = layout p\<rparr>"
    and "lay \<noteq> layoutNone \<Longrightarrow> layout p = lay" and "layout p \<in> {layoutTree, layoutFlat}"
    and "length (split_on colon ref) \<in> {3, 4}"
  using assms
  by (auto simp: newOciPath_def Let_def bindE_Ok returnE_Ok throwE_Ok ref_dir_def ref_name_def ref_tag_def
      split: if_splits)

lemma String_source:
  assumes "newOciPath ref lay w = (Ok p, w')"
  shows "\<exists>flat. ociPath_String p = image_source flat ref"
proof -
  from newOciPath_Ok(1) [OF assms]
  have "Repo p = ref_dir ref" "oci_Name p = ref_name ref" "Tag p = ref_tag ref" by (metis ociPath.select_convs)+
  then show ?thesis
    by (intro exI [of _ "layout p \<noteq> layoutTree"])
      (simp add: ociPath_String_def image_source_def OciDir_def RefName_def)
qed

lemma ref_no_colon:
  assumes "length (split_on colon ref) \<in> {3, 4}"
  shows "colon \<notin> set (ref_name ref)" and "colon \<notin> set (ref_tag ref)"
  using assms split_on_no_sep [of colon ref] by (auto simp: ref_name_def ref_tag_def Let_def)

text \<open>The destination that Populate prints is parsed back to the same directory, name and tag.\<close>

lemma newOciPath_dest:
  assumes "colon \<notin> set d" and "colon \<notin> set n" and "colon \<notin> set t"
  shows "newOciPath (''oci:'' @ d @ '':'' @ (if n = [] then t else n @ '':'' @ t)) layoutTree w =
    (Ok \<lparr>Repo = d, oci_Name = n, Tag = t, layout = layoutTree\<rparr>, w)"
  using newOciPath_parts [OF _ _ assms, of layoutTree "''oci''" w] by simp

lemma reads_newOciPath [respects_intros]: "io_respects reads_rel (newOciPath ref lay)"
  unfolding newOciPath_def Let_def oci_PathExists_def by (intro respects_intros)

section \<open>Copies of images\<close>

definition image_copy :: "string \<Rightarrow> string \<Rightarrow> event" where
  "image_copy src dest = EvCall ''lib.ImageCopy'' [src, dest]"

text \<open>The copies that bring a list of references, one after the other, into the tree.\<close>

definition copies_of :: "string \<Rightarrow> (string \<times> string \<times> string) list \<Rightarrow> event list \<Rightarrow> bool" where
  "copies_of target refs evs \<longleftrightarrow>
     list_all2 (\<lambda>(ref, name, tag) ev. \<exists>flat. ev = image_copy (image_source flat ref) (image_dest target name tag)) refs evs"

lemma doCopy_run:
  assumes "doCopy L src (''oci:'' @ path_Join [target, ''oci''] @ '':'' @ (if n = [] then t else n @ '':'' @ t)) w = (Ok u, w')"
    and "colon \<notin> set (path_Join [target, ''oci''])" and "colon \<notin> set n" and "colon \<notin> set t"
  shows "same_env w w'"
    and "\<exists>flat. trace w' = trace w @ [image_copy (image_source flat src) (image_dest target n t)]"
proof -
  from assms(1) obtain p v v' where p: "newOciPath src layoutNone w = (Ok p, v)"
    and md: "os_MkdirAll (path_Join [path_Join [target, ''oci''], n]) mode_0755 v = (Ok (), v')"
    and cp: "lib_call ''lib.ImageCopy'' [ociPath_String p, image_dest target n t]
               (ImageCopy L (ociPath_String p) (image_dest target n t)) v' = (Ok (), w')"
    unfolding doCopy_def bindE_Ok wrapE_Ok newOciPath_dest [OF assms(2-4)]
    by (auto simp: OciDir_def RefName_def ociPath_String_def image_dest_def)
  from String_source [OF p] obtain flat where "ociPath_String p = image_source flat src" ..
  moreover have "trace v' = trace w" "same_env w v'"
    using io_respectsD [OF quiet_newOciPath p] io_respectsD [OF quiet_MkdirAll md] same_env_trans
    by (auto simp: quiet_rel_def)
  ultimately show "same_env w w'"
    and "\<exists>flat. trace w' = trace w @ [image_copy (image_source flat src) (image_dest target n t)]"
    using cp by (auto simp: lib_call_Ok log_event_def image_copy_def same_env_def)
qed

lemma populate_layer_Ok:
  "populate_layer L d src w = (Ok u, w') \<longleftrightarrow> (\<exists>p v. newOciPath src layoutNone w = (Ok p, v) \<and>
     doCopy L src (d @ NameAndTag p) v = (Ok u, w'))"
  by (auto simp: populate_layer_def Let_def bindE_Ok wrapE_Ok)

lemma layers_run:
  assumes "forE refs (populate_layer L (''oci:'' @ path_Join [target, ''oci''] @ '':'')) w = (Ok u, w')"
    and "colon \<notin> set (path_Join [target, ''oci''])"
  shows "same_env w w' \<and> (\<exists>evs. trace w' = trace w @ evs \<and>
    copies_of target (map (\<lambda>ref. (ref, ref_name ref, ref_tag ref)) refs) evs)"
  using assms(1)
proof (induction refs arbitrary: w)
  case Nil
  then show ?case by (simp add: io_run copies_of_def)
next
  case (Cons ref refs)
  from Cons.prems obtain p v v' where p: "newOciPath ref layoutNone w = (Ok p, v)"
    and cp: "doCopy L ref ((''oci:'' @ path_Join [target, ''oci''] @ '':'') @ NameAndTag p) v = (Ok (), v')"
    and rest: "forE refs (populate_layer L (''oci:'' @ path_Join [target, ''oci''] @ '':'')) v' = (Ok u, w')"
    unfolding forE.simps thenE_Ok populate_layer_Ok by (metis (full_types) unit.exhaust)
  note N = newOciPath_Ok [OF p]
  have "NameAndTag p = (if ref_name ref = [] then ref_tag ref else ref_name ref @ '':'' @ ref_tag ref)"
    by (subst N(1)) (simp add: NameAndTag_def)
  with cp have "doCopy L ref (''oci:'' @ path_Join [target, ''oci''] @ '':'' @
      (if ref_name ref = [] then ref_tag ref else ref_name ref @ '':'' @ ref_tag ref)) v = (Ok (), v')" by simp
  note C = doCopy_run [OF this assms(2) ref_no_colon [OF N(4)]]
  have "trace v = trace w" "same_env w v"
    using io_respectsD [OF quiet_newOciPath p] by (simp_all add: quiet_rel_def)
  with C Cons.IH [OF rest] show ?case
    by (fastforce simp: copies_of_def intro: same_env_trans)
qed

section \<open>Populate, step by step\<close>

lemma unit_ex: "(\<exists>x :: unit. f x) \<longleftrightarrow> f ()"
  by (metis (full_types) unit.exhaust)

lemma if_run: "(if c then m else returnE ()) w = (Ok (), v) \<longleftrightarrow> (if c then m w = (Ok (), v) else v = w)"
  by (auto simp: returnE_Ok)

lemma PopulateE:
  assumes "Populate T b target w = (Ok (), w')"
  obtains v1 v2 v3 v4 v5 where
    "if BootLayer b \<noteq> [] then doCopy (t_oci T) (BootLayer b)
       (''oci:'' @ path_Join [target, ''oci''] @ '':'' @ BootLayerName) w = (Ok (), v1) else v1 = w"
    and "if RepoDir b \<noteq> [] then ran_ok (t_progs T) [] [''rsync'', ''-va'', RepoDir b @ ''/'',
       path_Join [target, ''zot-cache''] @ ''/''] v1 v2 else v2 = v1"
    and "forE (Layers b) (populate_layer (t_oci T) (''oci:'' @ path_Join [target, ''oci''] @ '':'')) v2 = (Ok (), v3)"
    and "os_MkdirAll (path_Dir (path_Join [target, ''krd'', ''modules.squashfs''])) mode_0755 v3 = (Ok (), v4)"
    and "copyFile (path_Join [bootKitDir b, ''bootkit/modules.squashfs''])
       (path_Join [target, ''krd'', ''modules.squashfs'']) v4 = (Ok (), v5)"
    and "copies_to (\<lambda>d. path_Join [target, d]) (t_iter T (Files b)) v5 = (Ok (), w')"
proof -
  have wrapped: "forE xs (\<lambda>(src, dest). wrapE (f src dest) (copyFile src (path_Join [target, dest]))) v = (Ok (), v') \<longleftrightarrow>
      copies_to (\<lambda>d. path_Join [target, d]) xs v = (Ok (), v')" for xs f v v'
    unfolding copies_to_def by (induction xs arbitrary: v) (auto simp: io_run thenE_Ok wrapE_Ok)
  have layers: "(if length xs \<noteq> 0 then forE xs f v = (Ok (), v') else v' = v) \<longleftrightarrow> forE xs f v = (Ok (), v')"
    for xs :: "string list" and f v v'
    by (auto simp: io_run)
  from assms show thesis
    unfolding Populate_def Let_def bindE_Ok unit_ex wrapped if_run wrapE_Ok RunCommand_Ok layers
    by (elim exE conjE) (rule that, assumption+)
qed

lemma quiet_copies_to [respects_intros]: "io_respects quiet_rel (copies_to g xs)"
  unfolding copies_to_def by (intro respects_intros)

lemma quiet_run: "io_respects quiet_rel m \<Longrightarrow> m w = (r, w') \<Longrightarrow> same_env w w' \<and> trace w' = trace w"
  by (drule (1) io_respectsD) (simp add: quiet_rel_def)

lemma Populate_env:
  assumes "Populate T b target w = (Ok (), w')" and "colon \<notin> set (path_Join [target, ''oci''])"
  shows "same_env w w' \<and> (\<exists>bs ls. trace w' = trace w @ bs @
      (if RepoDir b = [] then [] else [EvExec (cwd w) [''rsync'', ''-va'', RepoDir b @ ''/'',
        path_Join [target, ''zot-cache''] @ ''/'']]) @ ls \<and>
    copies_of target (if BootLayer b = [] then [] else [(BootLayer b, ''live-boot'', ''latest'')]) bs \<and>
    copies_of target (map (\<lambda>ref. (ref, ref_name ref, ref_tag ref)) (Layers b)) ls)"
proof -
  from assms(1) obtain v1 v2 v3 v4 v5 where
    boot: "if BootLayer b \<noteq> [] then doCopy (t_oci T) (BootLayer b)
       (''oci:'' @ path_Join [target, ''oci''] @ '':'' @ BootLayerName) w = (Ok (), v1) else v1 = w"
    and sync: "if RepoDir b \<noteq> [] then ran_ok (t_progs T) [] [''rsync'', ''-va'', RepoDir b @ ''/'',
       path_Join [target, ''zot-cache''] @ ''/''] v1 v2 else v2 = v1"
    and lay: "forE (Layers b) (populate_layer (t_oci T) (''oci:'' @ path_Join [target, ''oci''] @ '':'')) v2 = (Ok (), v3)"
    and md: "os_MkdirAll (path_Dir (path_Join [target, ''krd'', ''modules.squashfs''])) mode_0755 v3 = (Ok (), v4)"
    and cp: "copyFile (path_Join [bootKitDir b, ''bootkit/modules.squashfs''])
       (path_Join [target, ''krd'', ''modules.squashfs'']) v4 = (Ok (), v5)"
    and files: "copies_to (\<lambda>d. path_Join [target, d]) (t_iter T (Files b)) v5 = (Ok (), w')"
    by (rule PopulateE)
  have name: "BootLayerName = (if ''live-boot'' = [] then ''latest'' else ''live-boot'' @ '':'' @ ''latest'')"
    by (simp add: BootLayerName_def)
  have b: "same_env w v1 \<and> (\<exists>bs. trace v1 = trace w @ bs \<and>
      copies_of target (if BootLayer b = [] then [] else [(BootLayer b, ''live-boot'', ''latest'')]) bs)"
  proof (cases "BootLayer b = []")
    case False
    with boot have "doCopy (t_oci T) (BootLayer b) (''oci:'' @ path_Join [target, ''oci''] @ '':'' @
        (if ''live-boot'' = [] then ''latest'' else ''live-boot'' @ '':'' @ ''latest'')) w = (Ok (), v1)"
      unfolding name by simp
    from doCopy_run [OF this assms(2)] False show ?thesis by (auto simp: copies_of_def)
  qed (use boot in \<open>simp add: copies_of_def\<close>)
  have s: "same_env v1 v2 \<and> trace v2 = trace v1 @ (if RepoDir b = [] then [] else [EvExec (cwd v1) [''rsync'', ''-va'', RepoDir b @ ''/'',
        path_Join [target, ''zot-cache''] @ ''/'']])"
    using sync ran_ok_trace [of "t_progs T" "[]" "[''rsync'', ''-va'', RepoDir b @ ''/'', path_Join [target, ''zot-cache''] @ ''/'']" v1 v2]
    by (cases "RepoDir b = []") auto
  have q: "same_env v3 w' \<and> trace w' = trace v3"
    using quiet_run [OF quiet_MkdirAll md] quiet_run [OF quiet_copyFile cp]
      quiet_run [OF quiet_copies_to files] same_env_trans [of v3 v4 v5] same_env_trans [of v3 v5 w'] by simp
  have "cwd v1 = cwd w" using b by (simp add: same_env_def)
  moreover obtain ls where l: "same_env v2 v3" "trace v3 = trace v2 @ ls"
    "copies_of target (map (\<lambda>ref. (ref, ref_name ref, ref_tag ref)) (Layers b)) ls"
    using layers_run [OF lay assms(2)] by blast
  moreover have "same_env w w'"
    using same_env_trans [OF same_env_trans [OF same_env_trans]] b s l(1) q by blast
  moreover obtain bs where "trace v1 = trace w @ bs"
    "copies_of target (if BootLayer b = [] then [] else [(BootLayer b, ''live-boot'', ''latest'')]) bs"
    using b by blast
  ultimately show ?thesis using s q by (intro conjI exI [of _ bs] exI [of _ ls]) simp_all
qed

text \<open>
  C12: When Populate returns nil, it has copied the images it was given and nothing else, in this
  order: first the boot layer, as live-boot:latest, then, if a repository is to be synced, rsync has run
  on it, and then each layer, in the order of the command line, under the name and tag of its
  reference. Every image comes from an OCI directory, whatever the scheme of the reference, and
  goes into the directory named by it below oci/ in the tree.
\<close>

theorem Populate_copies_images:
  assumes "Populate T b target w = (Ok (), w')" and "colon \<notin> set (path_Join [target, ''oci''])"
  shows "\<exists>bs ls. trace w' = trace w @ bs @
      (if RepoDir b = [] then [] else [EvExec (cwd w) [''rsync'', ''-va'', RepoDir b @ ''/'',
        path_Join [target, ''zot-cache''] @ ''/'']]) @ ls \<and>
    copies_of target (if BootLayer b = [] then [] else [(BootLayer b, ''live-boot'', ''latest'')]) bs \<and>
    copies_of target (map (\<lambda>ref. (ref, ref_name ref, ref_tag ref)) (Layers b)) ls"
  using Populate_env [OF assms] by (rule conjunct2)

section \<open>The files of the medium\<close>

definition below :: "key \<Rightarrow> key \<Rightarrow> bool" where
  "below k q \<longleftrightarrow> take (length k) q = k"

text \<open>
  What the code relies on: copying an image into a directory and rsync change nothing but what
  is in that directory.
\<close>

definition images_stay :: "('e, 'm) oci_lib \<Rightarrow> world \<Rightarrow> bool" where
  "images_stay L w \<longleftrightarrow> (\<forall>src dir tag m q. colon \<notin> set dir \<longrightarrow> \<not> below (path_key w dir) q \<longrightarrow>
     node_at (snd (ImageCopy L src (''oci:'' @ dir @ '':'' @ tag) m)) q = node_at m q)"

definition syncs_stay :: "programs \<Rightarrow> world \<Rightarrow> bool" where
  "syncs_stay P w \<longleftrightarrow> (\<forall>src dir m q. \<not> below (path_key w dir) q \<longrightarrow>
     node_at (snd (P (cwd w) [''rsync'', ''-va'', src @ ''/'', dir @ ''/''] m)) q = node_at m q)"

text \<open>The part of the tree that images and the synced repository go to, and the other files.\<close>

definition image_part :: "world \<Rightarrow> string \<Rightarrow> key \<Rightarrow> bool" where
  "image_part w target q \<longleftrightarrow> below (path_key w (path_Join [target, ''oci''])) q \<or>
     below (path_key w (path_Join [target, ''zot-cache''])) q"

definition medium_files :: "OciBoot \<Rightarrow> (string \<times> string) list" where
  "medium_files b = (path_Join [bootKitDir b, ''bootkit/modules.squashfs''], ''krd/modules.squashfs'') # Files b"

abbreviation medium_keys :: "world \<Rightarrow> string \<Rightarrow> OciBoot \<Rightarrow> key list" where
  "medium_keys w target b \<equiv> dest_keys (\<lambda>d. path_Join [target, d]) w (medium_files b)"

text \<open>
  Files can be copied independently of each other and of the images: no two go to the same place,
  none is copied over another's source, and none comes from or goes to the image part.
\<close>

definition medium_ok :: "world \<Rightarrow> string \<Rightarrow> OciBoot \<Rightarrow> bool" where
  "medium_ok w target b \<longleftrightarrow> distinct (medium_keys w target b) \<and>
     list_all (\<lambda>k. \<not> image_part w target k \<and> k \<noteq> path_key w target @ [''krd''] \<and> (case node_at (fs w) k of Some (Special m) \<Rightarrow> False | _ \<Rightarrow> True))
       (medium_keys w target b) \<and>
     list_all (\<lambda>(src, dst). \<not> image_part w target (path_key w src) \<and>
       path_key w src \<noteq> path_key w target @ [''krd''] \<and> \<not> is_special w src \<and>
       path_key w src \<notin> set (medium_keys w target b)) (medium_files b) \<and>
     list_all (\<lambda>ref. plain_path (ref_name ref)) (Layers b)"

text \<open>Two file systems with the same nodes wherever A holds.\<close>

definition same_nodes :: "(key \<Rightarrow> bool) \<Rightarrow> filesys \<Rightarrow> filesys \<Rightarrow> bool" where
  "same_nodes A m m' \<longleftrightarrow> (\<forall>q. A q \<longrightarrow> node_at m' q = node_at m q)"

lemma same_nodes_refl: "same_nodes A m m"
  by (simp add: same_nodes_def)

lemma same_nodes_trans: "same_nodes A m m' \<Longrightarrow> same_nodes A m' m'' \<Longrightarrow> same_nodes A m m''"
  by (simp add: same_nodes_def)

lemma same_nodes_D: "same_nodes A m m' \<Longrightarrow> A q \<Longrightarrow> node_at m' q = node_at m q"
  by (simp add: same_nodes_def)

lemma same_nodes_MkdirAll:
  assumes "os_MkdirAll p perm w = (Ok u, w')"
    and "\<forall>i. A (take i (path_key w p)) \<longrightarrow> node_at (fs w) (take i (path_key w p)) \<noteq> None"
  shows "same_nodes A (fs w) (fs w')"
  using MkdirAll_OkD(2) [OF assms(1)] assms(2) by (auto simp: same_nodes_def)

lemma same_nodes_content:
  "same_nodes A (fs w) (fs v) \<Longrightarrow> same_env w v \<Longrightarrow> A (path_key w p) \<Longrightarrow> file_content v p = file_content w p"
  using same_env_path_key [of w v p] by (simp add: file_content_def same_nodes_def)

lemma same_nodes_special:
  "same_nodes A (fs w) (fs v) \<Longrightarrow> same_env w v \<Longrightarrow> A (path_key w p) \<Longrightarrow> is_special v p \<longleftrightarrow> is_special w p"
  using same_env_path_key [of w v p] by (simp add: is_special_iff same_nodes_def)

text \<open>The tree is there, with all directories that lead to it.\<close>

definition made :: "filesys \<Rightarrow> key \<Rightarrow> bool" where
  "made m k \<longleftrightarrow> list_all (\<lambda>i. node_at m (take i k) \<noteq> None) [0..<Suc (length k)]"

lemma made_iff: "made m k \<longleftrightarrow> (\<forall>i \<le> length k. node_at m (take i k) \<noteq> None)"
  unfolding made_def list_all_iff by (simp add: atLeastLessThanSuc_atLeastAtMost Ball_def del: upt_Suc)

lemma made_take: "made m k \<Longrightarrow> node_at m (take i k) \<noteq> None"
  by (cases "i \<le> length k") (auto simp: made_iff)

lemma below_iff: "below k q \<longleftrightarrow> (\<exists>r. q = k @ r)"
  unfolding below_def by (metis append_eq_conv_conj)

lemma below_trans: "below k k' \<Longrightarrow> below k' q \<Longrightarrow> below k q"
  by (auto simp: below_iff)

lemma take_below: "i \<le> length k \<Longrightarrow> below (k @ c # r) (take i k) \<longleftrightarrow> False"
  by (auto simp: below_def dest: arg_cong [of _ _ length])

lemma tree_paths:
  assumes "target \<noteq> []"
  shows "path_key w (path_Join [target, ''oci'']) = path_key w target @ [''oci'']"
    and "path_key w (path_Join [target, ''zot-cache'']) = path_key w target @ [''zot-cache'']"
    and "path_key w (path_Join [target, ''krd/modules.squashfs'']) = path_key w target @ [''krd'', ''modules.squashfs'']"
    and "path_key w (path_Dir (path_Join [target, ''krd/modules.squashfs''])) = path_key w target @ [''krd'']"
proof -
  have p: "plain_path ''oci''" "plain_comps ''oci'' = [''oci'']" "plain_path ''zot-cache''"
    "plain_comps ''zot-cache'' = [''zot-cache'']" "plain_path ''krd/modules.squashfs''"
    "plain_comps ''krd/modules.squashfs'' = [''krd'', ''modules.squashfs'']" "plain_path ''krd''" "plain_comps ''krd'' = [''krd'']"
    "slash \<notin> set ''modules.squashfs''"
    by code_simp+
  then show "path_key w (path_Join [target, ''oci'']) = path_key w target @ [''oci'']"
    and "path_key w (path_Join [target, ''zot-cache'']) = path_key w target @ [''zot-cache'']"
    and "path_key w (path_Join [target, ''krd/modules.squashfs'']) = path_key w target @ [''krd'', ''modules.squashfs'']"
    using assms by (simp_all add: path_key_Join_plain)
  show "path_key w (path_Dir (path_Join [target, ''krd/modules.squashfs''])) = path_key w target @ [''krd'']"
    using path_key_Dir [OF assms p(7), of "''modules.squashfs''" w] p by simp
qed

lemma image_part_iff:
  "target \<noteq> [] \<Longrightarrow> image_part w target q \<longleftrightarrow>
     below (path_key w target @ [''oci'']) q \<or> below (path_key w target @ [''zot-cache'']) q"
  by (simp add: image_part_def tree_paths)

lemma not_image_part: "target \<noteq> [] \<Longrightarrow> i \<le> length (path_key w target) \<Longrightarrow> \<not> image_part w target (take i (path_key w target))"
  by (simp add: image_part_iff take_below)

lemma medium_dest: "path_Join [target, ''krd'', ''modules.squashfs''] = path_Join [target, ''krd/modules.squashfs'']"
  by (cases target) (simp_all add: path_Join_def)

lemma made_same:
  assumes "made m (path_key w target)" and "same_nodes (\<lambda>q. \<not> image_part w target q) m m'" and "target \<noteq> []"
  shows "made m' (path_key w target)"
  using assms(1) same_nodes_D [OF assms(2) not_image_part [OF assms(3)]] by (simp add: made_iff)

lemma sync_files:
  assumes "ran_ok P [] [''rsync'', ''-va'', src @ ''/'', path_Join [target, ''zot-cache''] @ ''/''] v v'"
    and "syncs_stay P w" and "cwd v = cwd w"
  shows "same_nodes (\<lambda>q. \<not> image_part w target q) (fs v) (fs v')"
  unfolding same_nodes_def
proof (intro allI impI)
  fix q
  assume "\<not> image_part w target q"
  then have "\<not> below (path_key w (path_Join [target, ''zot-cache''])) q" by (simp add: image_part_def)
  moreover have "snd (P (cwd w) [''rsync'', ''-va'', src @ ''/'', path_Join [target, ''zot-cache''] @ ''/''] (fs v)) = fs v'"
    using assms(1,3) unfolding ran_ok_def by (auto intro: snd_conv)
  ultimately show "node_at (fs v') q = node_at (fs v) q"
    using assms(2) unfolding syncs_stay_def by metis
qed

lemma doCopy_files:
  assumes "doCopy L src (''oci:'' @ path_Join [target, ''oci''] @ '':'' @ (if n = [] then t else n @ '':'' @ t)) v = (Ok u, v')"
    and "target \<noteq> []" and "colon \<notin> set target" and "colon \<notin> set n" and "colon \<notin> set t"
    and "images_stay L w" and "plain_path n" and "same_env w v" and "made (fs v) (path_key w target)"
  shows "same_nodes (\<lambda>q. \<not> image_part w target q) (fs v) (fs v')"
proof -
  let ?dir = "path_Join [path_Join [target, ''oci''], n]" and ?K = "path_key w target"
  have nc: "colon \<notin> set (path_Join [target, ''oci''])" using assms(3) by (intro no_colon_Join) simp
  from assms(1) obtain p u1 u2 where p: "newOciPath src layoutNone v = (Ok p, u1)"
    and md: "os_MkdirAll ?dir mode_0755 u1 = (Ok (), u2)"
    and cp: "lib_call ''lib.ImageCopy'' [ociPath_String p, image_dest target n t]
               (ImageCopy L (ociPath_String p) (image_dest target n t)) u2 = (Ok (), v')"
    unfolding doCopy_def bindE_Ok wrapE_Ok newOciPath_dest [OF nc assms(4,5)]
    by (auto simp: OciDir_def RefName_def ociPath_String_def image_dest_def)
  note m1 = reads_moved [OF reads_newOciPath p]
  have dir: "path_key w ?dir = ?K @ ''oci'' # plain_comps n"
    using assms(2,7) by (simp add: path_key_Join_plain tree_paths)
  have k1: "path_key u1 ?dir = ?K @ ''oci'' # plain_comps n"
    using dir by (simp add: moved_key [OF m1] same_env_path_key [OF assms(8)])
  have "node_at (fs u1) (take i (?K @ ''oci'' # plain_comps n)) \<noteq> None"
    if "\<not> image_part w target (take i (?K @ ''oci'' # plain_comps n))" for i
  proof (cases "i \<le> length ?K")
    case True
    with made_take [OF assms(9), of i] show ?thesis by (simp add: moved_fs [OF m1])
  next
    case False
    then have "below (?K @ [''oci'']) (take i (?K @ ''oci'' # plain_comps n))" by (simp add: below_def take_Cons')
    with that assms(2) show ?thesis by (simp add: image_part_iff)
  qed
  then have S: "same_nodes (\<lambda>q. \<not> image_part w target q) (fs u1) (fs u2)"
    by (intro same_nodes_MkdirAll [OF md]) (simp add: k1)
  have "snd (ImageCopy L (ociPath_String p) (''oci:'' @ ?dir @ '':'' @ t) (fs u2)) = fs v'"
    using cp by (auto simp: lib_call_Ok image_dest_def)
  moreover have "colon \<notin> set ?dir" using nc assms(4) by (intro no_colon_Join) simp
  moreover have "below (path_key w (path_Join [target, ''oci''])) (path_key w ?dir)"
    by (simp add: dir tree_paths assms(2) below_iff)
  ultimately have "node_at (fs v') q = node_at (fs u2) q" if "\<not> image_part w target q" for q
    using assms(6) [unfolded images_stay_def, rule_format, of ?dir q "ociPath_String p" t "fs u2"] that
      below_trans [of _ "path_key w ?dir" q] by (metis image_part_def)
  with S show ?thesis by (simp add: same_nodes_def moved_fs [OF m1])
qed

lemma layers_files:
  assumes "forE refs (populate_layer L (''oci:'' @ path_Join [target, ''oci''] @ '':'')) v = (Ok u, v')"
    and "target \<noteq> []" and "colon \<notin> set target" and "images_stay L w"
    and "list_all (\<lambda>ref. plain_path (ref_name ref)) refs" and "same_env w v" and "made (fs v) (path_key w target)"
  shows "same_nodes (\<lambda>q. \<not> image_part w target q) (fs v) (fs v')"
  using assms(1,5-)
proof (induction refs arbitrary: v)
  case Nil
  then show ?case by (simp add: io_run same_nodes_refl)
next
  case (Cons ref refs)
  have nc: "colon \<notin> set (path_Join [target, ''oci''])" using assms(3) by (intro no_colon_Join) simp
  from Cons.prems(1) obtain p v1 v2 where p: "newOciPath ref layoutNone v = (Ok p, v1)"
    and cp: "doCopy L ref ((''oci:'' @ path_Join [target, ''oci''] @ '':'') @ NameAndTag p) v1 = (Ok (), v2)"
    and rest: "forE refs (populate_layer L (''oci:'' @ path_Join [target, ''oci''] @ '':'')) v2 = (Ok u, v')"
    unfolding forE.simps thenE_Ok populate_layer_Ok by (metis (full_types) unit.exhaust)
  note N = newOciPath_Ok [OF p] and m = reads_moved [OF reads_newOciPath p]
  have env: "same_env w v1" using Cons.prems(3) m same_env_trans by (simp add: moved_def)
  have md: "made (fs v1) (path_key w target)" using Cons.prems(4) by (simp add: moved_fs [OF m])
  have "NameAndTag p = (if ref_name ref = [] then ref_tag ref else ref_name ref @ '':'' @ ref_tag ref)"
    by (subst N(1)) (simp add: NameAndTag_def)
  with cp have c: "doCopy L ref (''oci:'' @ path_Join [target, ''oci''] @ '':'' @
      (if ref_name ref = [] then ref_tag ref else ref_name ref @ '':'' @ ref_tag ref)) v1 = (Ok (), v2)" by simp
  have S: "same_nodes (\<lambda>q. \<not> image_part w target q) (fs v1) (fs v2)"
    by (rule doCopy_files [OF c assms(2,3) ref_no_colon [OF N(4)] assms(4) _ env md])
      (use Cons.prems(2) in simp)
  have "same_nodes (\<lambda>q. \<not> image_part w target q) (fs v2) (fs v')"
    by (rule Cons.IH [OF rest])
      (use Cons.prems(2) same_env_trans [OF env doCopy_run(1) [OF c nc ref_no_colon [OF N(4)]]]
        made_same [OF md S assms(2)] in simp_all)
  with S show ?case
    using same_nodes_trans [of "\<lambda>q. \<not> image_part w target q" "fs v" "fs v2" "fs v'"] by (simp add: moved_fs [OF m])
qed

text \<open>Everything before the copies of files.\<close>

lemma Populate_before:
  assumes "Populate T b target w = (Ok (), w')" and "target \<noteq> []" and "colon \<notin> set target"
    and "list_all (\<lambda>ref. plain_path (ref_name ref)) (Layers b)" and "made (fs w) (path_key w target)"
    and "images_stay (t_oci T) w" and "RepoDir b = [] \<or> syncs_stay (t_progs T) w"
  shows "\<exists>v. same_env w v \<and> copies_to (\<lambda>d. path_Join [target, d])
      ((path_Join [bootKitDir b, ''bootkit/modules.squashfs''], ''krd/modules.squashfs'') # t_iter T (Files b)) v = (Ok (), w') \<and>
    same_nodes (\<lambda>q. \<not> image_part w target q \<and> q \<noteq> path_key w target @ [''krd'']) (fs w) (fs v) \<and>
    (node_at (fs w) (path_key w target @ [''krd'']) = None \<longrightarrow> is_dir_at (fs v) (path_key w target @ [''krd'']))"
proof -
  let ?K = "path_key w target" and ?S = "same_nodes (\<lambda>q. \<not> image_part w target q)"
  have nc: "colon \<notin> set (path_Join [target, ''oci''])" using assms(3) by (intro no_colon_Join) simp
  from assms(1) obtain v1 v2 v3 v4 v5 where
    boot: "if BootLayer b \<noteq> [] then doCopy (t_oci T) (BootLayer b)
       (''oci:'' @ path_Join [target, ''oci''] @ '':'' @ BootLayerName) w = (Ok (), v1) else v1 = w"
    and sync: "if RepoDir b \<noteq> [] then ran_ok (t_progs T) [] [''rsync'', ''-va'', RepoDir b @ ''/'',
       path_Join [target, ''zot-cache''] @ ''/''] v1 v2 else v2 = v1"
    and lay: "forE (Layers b) (populate_layer (t_oci T) (''oci:'' @ path_Join [target, ''oci''] @ '':'')) v2 = (Ok (), v3)"
    and md: "os_MkdirAll (path_Dir (path_Join [target, ''krd'', ''modules.squashfs''])) mode_0755 v3 = (Ok (), v4)"
    and cp: "copyFile (path_Join [bootKitDir b, ''bootkit/modules.squashfs''])
       (path_Join [target, ''krd'', ''modules.squashfs'']) v4 = (Ok (), v5)"
    and files: "copies_to (\<lambda>d. path_Join [target, d]) (t_iter T (Files b)) v5 = (Ok (), w')"
    by (rule PopulateE)
  have b: "?S (fs w) (fs v1) \<and> same_env w v1"
  proof (cases "BootLayer b = []")
    case True
    with boot show ?thesis by (simp add: same_nodes_refl)
  next
    case False
    have p: "plain_path ''live-boot''" by code_simp
    have c: "doCopy (t_oci T) (BootLayer b) (''oci:'' @ path_Join [target, ''oci''] @ '':'' @
        (if ''live-boot'' = [] then ''latest'' else ''live-boot'' @ '':'' @ ''latest'')) w = (Ok (), v1)"
      using boot False by (simp add: BootLayerName_def)
    have "?S (fs w) (fs v1)"
      by (rule doCopy_files [OF c assms(2,3) _ _ assms(6) p _ assms(5)]) simp_all
    with doCopy_run(1) [OF c nc] show ?thesis by simp
  qed
  have s: "?S (fs v1) (fs v2) \<and> same_env v1 v2"
    using sync sync_files [of "t_progs T" "RepoDir b" target v1 v2 w] assms(7) b
      ran_ok_trace(2) [of "t_progs T" "[]" "[''rsync'', ''-va'', RepoDir b @ ''/'', path_Join [target, ''zot-cache''] @ ''/'']" v1 v2]
    by (cases "RepoDir b = []") (simp_all add: same_nodes_refl same_env_def)
  have S2: "?S (fs w) (fs v2)" and e2: "same_env w v2" using b s same_nodes_trans same_env_trans by blast+
  have l: "?S (fs v2) (fs v3) \<and> same_env v2 v3"
    using layers_files [OF lay assms(2,3,6,4) e2 made_same [OF assms(5) S2 assms(2)]] layers_run [OF lay nc] by blast
  then have S3: "?S (fs w) (fs v3)" and e3: "same_env w v3" using S2 e2 same_nodes_trans same_env_trans by blast+
  have "same_nodes (\<lambda>q. q \<noteq> ?K @ [''krd'']) (fs v3) (fs v4)"
    by (rule same_nodes_MkdirAll [OF md])
      (use made_take [OF made_same [OF assms(5) S3 assms(2)]] in
        \<open>auto simp: medium_dest tree_paths assms(2) same_env_path_key [OF e3] take_Cons' split: if_splits\<close>)
  then have "same_nodes (\<lambda>q. \<not> image_part w target q \<and> q \<noteq> ?K @ [''krd'']) (fs w) (fs v4)"
    using S3 by (simp add: same_nodes_def)
  moreover have "is_dir_at (fs v4) (?K @ [''krd''])" if "node_at (fs w) (?K @ [''krd'']) = None"
  proof -
    have "\<not> image_part w target (?K @ [''krd''])" using assms(2) by (simp add: image_part_iff below_def)
    with that same_nodes_D [OF S3, of "?K @ [''krd'']"] have "node_at (fs v3) (?K @ [''krd'']) = None" by simp
    with MkdirAll_OkD(2) [OF md, of "?K @ [''krd'']"] assms(2) show ?thesis
      by (auto simp: medium_dest tree_paths same_env_path_key [OF e3] is_dir_at_iff)
  qed
  moreover have "same_env w v4" using e3 quiet_run [OF quiet_MkdirAll md] same_env_trans by blast
  ultimately show ?thesis using cp files by (auto simp: copies_to_def thenE_Ok medium_dest)
qed

lemma Populate_medium:
  assumes "Populate T b target w = (Ok (), w')" and "target \<noteq> []" and "colon \<notin> set target"
    and "made (fs w) (path_key w target)" and "medium_ok w target b"
    and "images_stay (t_oci T) w" and "RepoDir b = [] \<or> syncs_stay (t_progs T) w"
    and "\<And>xs. mset (t_iter T xs) = mset xs"
  shows "same_env w w' \<and> list_all (\<lambda>(src, dst). file_content w src \<noteq> None \<and>
      file_content w' (path_Join [target, dst]) = file_content w src) (medium_files b) \<and>
    same_nodes (\<lambda>q. \<not> image_part w target q \<and> q \<noteq> path_key w target @ [''krd''] \<and>
      q \<notin> set (medium_keys w target b)) (fs w) (fs w') \<and>
    (node_at (fs w) (path_key w target @ [''krd'']) = None \<longrightarrow> is_dir_at (fs w') (path_key w target @ [''krd'']))"
proof -
  let ?A = "\<lambda>q. \<not> image_part w target q \<and> q \<noteq> path_key w target @ [''krd'']" and ?g = "\<lambda>d. path_Join [target, d]"
  define xs where "xs = (path_Join [bootKitDir b, ''bootkit/modules.squashfs''], ''krd/modules.squashfs'') # t_iter T (Files b)"
  have ok: "distinct (medium_keys w target b)"
    "\<forall>k \<in> set (medium_keys w target b). ?A k \<and> (\<forall>m. node_at (fs w) k \<noteq> Some (Special m))"
    "\<forall>(src, dst) \<in> set (medium_files b). ?A (path_key w src) \<and> \<not> is_special w src \<and>
       path_key w src \<notin> set (medium_keys w target b)"
    "list_all (\<lambda>ref. plain_path (ref_name ref)) (Layers b)"
    using assms(5) by (auto simp: medium_ok_def list_all_iff split: option.splits node.splits)
  from Populate_before [OF assms(1-3) ok(4) assms(4,6,7), folded xs_def] obtain v where env: "same_env w v"
    and sf: "same_nodes ?A (fs w) (fs v)" and cp: "copies_to ?g xs v = (Ok (), w')"
    and krd: "node_at (fs w) (path_key w target @ [''krd'']) = None \<longrightarrow> is_dir_at (fs v) (path_key w target @ [''krd''])"
    by (elim exE conjE) (rule that, assumption+)
  have key: "path_key v p = path_key w p" for p by (rule same_env_path_key [OF env])
  have m: "mset xs = mset (medium_files b)" by (simp add: xs_def medium_files_def assms(8))
  then have set_xs: "set xs = set (medium_files b)" by (metis set_mset_mset)
  have mk: "mset (dest_keys ?g v xs) = mset (medium_keys w target b)"
    unfolding dest_keys_def key using arg_cong [OF m, of "image_mset (\<lambda>(src, dst). path_key w (?g dst))"] by simp
  then have keys: "set (dest_keys ?g v xs) = set (medium_keys w target b)" by (metis set_mset_mset)
  have d: "distinct (dest_keys ?g v xs)" using ok(1) mset_eq_imp_distinct_iff [OF mk] by simp
  have C: "same_env v w' \<and> trace w' = trace v \<and>
    (\<forall>q. q \<notin> set (dest_keys ?g v xs) \<longrightarrow> node_at (fs w') q = node_at (fs v) q) \<and>
    list_all (\<lambda>(src, dst). file_content v src \<noteq> None \<and> file_content w' (?g dst) = file_content v src) xs"
  proof (rule copies_to_node [OF cp _ _ d])
    show "list_all (\<lambda>(src, dst). \<not> is_special v src \<and> path_key v src \<notin> set (dest_keys ?g v xs)) xs"
      using ok(3) same_nodes_special [OF sf env] unfolding keys list_all_iff set_xs key by fastforce
    show "list_all (\<lambda>k. \<not> (\<exists>m. node_at (fs v) k = Some (Special m))) (dest_keys ?g v xs)"
      using ok(2) sf unfolding keys list_all_iff same_nodes_def by simp
  qed
  have "list_all (\<lambda>(src, dst). file_content w src \<noteq> None \<and> file_content w' (?g dst) = file_content w src) (medium_files b)"
    using C ok(3) same_nodes_content [OF sf env] unfolding list_all_iff set_xs by fastforce
  moreover have "same_nodes (\<lambda>q. ?A q \<and> q \<notin> set (medium_keys w target b)) (fs w) (fs w')"
    using C sf by (simp add: same_nodes_def keys)
  moreover have "same_env w w'" using env C same_env_trans by blast
  moreover have "node_at (fs w') (path_key w target @ [''krd'']) = node_at (fs v) (path_key w target @ [''krd''])"
    using C ok(2) unfolding keys by blast
  ultimately show ?thesis using krd by (simp add: is_dir_at_def)
qed

text \<open>
  C13: When Populate returns nil, the tree has the modules of the bootkit at krd/modules.squashfs and
  every file of --insert at its place, with the bytes they had when it started; except for the
  directory krd and what is in oci and zot-cache nothing else is different, if copying images and
  rsync keep to the directories they are given.
\<close>

theorem Populate_files:
  assumes "Populate T b target w = (Ok (), w')" and "target \<noteq> []" and "colon \<notin> set target"
    and "made (fs w) (path_key w target)" and "medium_ok w target b"
    and "images_stay (t_oci T) w" and "RepoDir b = [] \<or> syncs_stay (t_progs T) w"
    and "\<And>xs. mset (t_iter T xs) = mset xs"
  shows "list_all (\<lambda>(src, dst). file_content w src \<noteq> None \<and>
      file_content w' (path_Join [target, dst]) = file_content w src)
      ((path_Join [bootKitDir b, ''bootkit/modules.squashfs''], ''krd/modules.squashfs'') # Files b) \<and>
    same_nodes (\<lambda>q. \<not> image_part w target q \<and> q \<noteq> path_key w target @ [''krd''] \<and>
      q \<notin> set (medium_keys w target b)) (fs w) (fs w')"
  using Populate_medium [OF assms] by (simp add: medium_files_def)

text \<open>A run with a boot layer, two layers, a repository to sync and a file to insert.\<close>

abbreviation full_boot :: OciBoot where
  "full_boot \<equiv> kit_boot\<lparr>BootLayer := ''oci:/r:live:1'', Layers := [''oci:/r:a:1'', ''docker:/q:b''],
     Files := [(''/k/bootkit/shim.efi'', ''x/s.efi''), (''/k/bootkit/kernel.efi'', ''k.efi'')], RepoDir := ''/z''\<rparr>"

abbreviation insert_world :: world where
  "insert_world \<equiv> sample_world (fs_put [''t'', ''x''] (Dir mode_0755) kit_fs)"

abbreviation populated :: world where
  "populated \<equiv> snd (Populate sample_tools full_boot ''/t'' insert_world)"

lemma sample_stay: "images_stay (t_oci sample_tools) w" "syncs_stay (t_progs sample_tools) w"
  by (simp_all add: images_stay_def syncs_stay_def sample_tools_def sample_oci_def idle_programs_def)

lemma full_boot_run: "Populate sample_tools full_boot ''/t'' insert_world =
    (Ok (), populated)"
  by (rule run_pair, code_simp)

theorem Populate_copies_images_witness:
  "\<exists>bs ls. trace populated = trace insert_world @ bs @
      (if RepoDir full_boot = [] then [] else
        [EvExec (cwd insert_world) [''rsync'', ''-va'', RepoDir full_boot @ ''/'',
        path_Join [''/t'', ''zot-cache''] @ ''/'']]) @ ls \<and>
    copies_of ''/t'' (if BootLayer full_boot = [] then [] else [(BootLayer full_boot, ''live-boot'', ''latest'')]) bs \<and>
    copies_of ''/t'' (map (\<lambda>ref. (ref, ref_name ref, ref_tag ref)) (Layers full_boot)) ls"
  by (rule Populate_copies_images [OF full_boot_run]) code_simp

theorem Populate_files_witness:
  "list_all (\<lambda>(src, dst). file_content insert_world src \<noteq> None \<and>
      file_content populated (path_Join [''/t'', dst]) =
        file_content insert_world src)
      ((path_Join [bootKitDir full_boot, ''bootkit/modules.squashfs''], ''krd/modules.squashfs'') # Files full_boot) \<and>
    same_nodes (\<lambda>q. \<not> image_part insert_world ''/t'' q \<and>
        q \<noteq> path_key insert_world ''/t'' @ [''krd''] \<and>
        q \<notin> set (medium_keys insert_world ''/t'' full_boot))
      (fs insert_world) (fs populated)"
proof (rule Populate_files [OF full_boot_run])
  show "made (fs insert_world)
      (path_key insert_world ''/t'')"
    and "medium_ok insert_world ''/t'' full_boot" by code_simp+
  show "mset (t_iter sample_tools xs) = mset xs" for xs by (simp add: sample_tools_def)
qed (simp_all add: sample_stay)

end
