(* ===== verification/Disk_Tree.thy ===== *)
theory Disk_Tree
  imports Populate_Tree Esp_Image
begin

text \<open>
  The medium of CreateDisk: Populate and PopulateEFI fill one new temporary directory, and what is
  in it when the disk image is made and filled.
\<close>

section \<open>A new directory\<close>

text \<open>Nothing that exists is below a directory that has just been made.\<close>

lemma not_below_new:
  assumes "wf_fs m" and "node_at m k = None" and "node_at m q \<noteq> None"
  shows "\<not> below k q"
proof
  assume "below k q"
  then obtain r where "q = k @ r" by (auto simp: below_iff)
  with assms wf_fs_parent [of m k r] show False by (cases "r = []") (auto simp: is_dir_at_iff)
qed

lemma made_wf: "wf_fs m \<Longrightarrow> node_at m k \<noteq> None \<Longrightarrow> made m k"
proof -
  assume wf: "wf_fs m" and k: "node_at m k \<noteq> None"
  have "node_at m (take i k) \<noteq> None" if "i \<le> length k" for i
  proof (cases "drop i k = []")
    case False
    from wf_fs_parent [OF wf _ this, of "take i k"] k show ?thesis by (auto simp: is_dir_at_iff)
  qed (use k that in simp)
  then show ?thesis by (simp add: made_iff)
qed

text \<open>A new temporary directory, and what is outside of it.\<close>

lemma new_tempdir:
  assumes "os_MkdirTemp [] pat w = (Ok d, u)" and "wf_world w"
  shows "same_env w u" and "d \<noteq> []" and "\<exists>n. d = temp_path w [] pat n" and "wf_world u"
    and "node_at (fs w) (path_key w d) = None" and "is_dir_at (fs u) (path_key w d)" and "made (fs u) (path_key w d)"
    and "\<And>q. q \<noteq> [] \<Longrightarrow> node_at (fs u) (path_key w d @ q) = None"
    and "\<And>q. \<not> below (path_key w d) q \<Longrightarrow> node_at (fs u) q = node_at (fs w) q"
    and "\<And>q. node_at (fs w) q \<noteq> None \<Longrightarrow> \<not> below (path_key w d) q"
    and "\<And>p c. file_content w p = Some c \<Longrightarrow> file_content u p = Some c \<and> \<not> below (path_key w d) (path_key w p)"
proof -
  let ?K = "path_key w d"
  from MkdirTemp_run [OF assms(1)] obtain n where t: "d = temp_path w [] pat n" and env: "same_env w u"
    and new: "node_at (fs w) ?K = None"
    and fu: "fs u = fs_put ?K (Dir (mode_0700 AND NOT (umask w))) (fs w)" by auto
  show "same_env w u" and "d \<noteq> []" and "\<exists>n. d = temp_path w [] pat n" and "node_at (fs w) ?K = None"
    using env t new temp_path_ends by auto
  have ku: "path_key u p = path_key w p" for p by (rule same_env_path_key [OF env])
  show wfu: "wf_world u" using keeps_runD [OF keeps_temp(1) assms(1,2)] .
  have "?K \<noteq> []" using new by auto
  then show dir: "is_dir_at (fs u) ?K" by (simp add: fu is_dir_at_iff)
  with wfu show "made (fs u) ?K" by (auto intro: made_wf simp: wf_world_def is_dir_at_iff)
  show "node_at (fs u) (?K @ q) = None" if "q \<noteq> []" for q
    using MkdirTemp_fresh [OF assms, of q] that by (simp add: ku)
  show eq: "node_at (fs u) q = node_at (fs w) q" if "\<not> below ?K q" for q using that by (auto simp: fu below_iff)
  show out: "\<not> below ?K q" if "node_at (fs w) q \<noteq> None" for q
    using not_below_new [OF _ new that] assms(2) by (simp add: wf_world_def)
  show "file_content u p = Some c \<and> \<not> below ?K (path_key w p)" if "file_content w p = Some c" for p c
    using that eq out by (auto simp: file_content_node ku)
qed

text \<open>
  The options of a run do not collide in a new directory: the files of --insert go to different plain
  places, apart from those of the images, of the EFI files and of the modules, and the names
  of the layers are plain.
\<close>

definition insert_ok :: "OciBoot \<Rightarrow> bool" where
  "insert_ok b \<longleftrightarrow> distinct (map (\<lambda>(src, dst). plain_comps dst) (medium_files b)) \<and>
     list_all (\<lambda>(src, dst). plain_path dst \<and> plain_comps dst \<noteq> [] \<and> plain_comps dst \<noteq> [''krd''] \<and>
       hd (plain_comps dst) \<notin> set [''oci'', ''zot-cache'', ''efi'', ''kernel.efi'']) (Files b) \<and>
     list_all (\<lambda>ref. plain_path (ref_name ref)) (Layers b)"

lemma medium_dests:
  assumes "insert_ok b" and "(src, dst) \<in> set (medium_files b)"
  shows "plain_path dst" and "plain_comps dst \<noteq> []" and "plain_comps dst \<noteq> [''krd'']"
    and "hd (plain_comps dst) \<notin> {''oci'', ''zot-cache'', ''efi'', ''kernel.efi''}"
proof -
  have "plain_path ''krd/modules.squashfs''" "plain_comps ''krd/modules.squashfs'' = [''krd'', ''modules.squashfs'']"
    by code_simp+
  with assms show "plain_path dst" "plain_comps dst \<noteq> []" "plain_comps dst \<noteq> [''krd'']"
    and "hd (plain_comps dst) \<notin> {''oci'', ''zot-cache'', ''efi'', ''kernel.efi''}"
    by (auto simp: insert_ok_def medium_files_def list_all_iff)
qed

lemma medium_keys_eq:
  assumes "insert_ok b" and "target \<noteq> []"
  shows "medium_keys w target b = map (\<lambda>(src, dst). path_key w target @ plain_comps dst) (medium_files b)"
  using medium_dests [OF assms(1)] assms(2) by (auto simp: dest_keys_def path_key_Join_plain)

lemma new_medium_ok:
  assumes "insert_ok b" and "target \<noteq> []"
    and "\<forall>q. q \<noteq> [] \<longrightarrow> hd q \<notin> L \<longrightarrow> node_at (fs w) (path_key w target @ q) = None"
    and "list_all (\<lambda>(src, dst). hd (plain_comps dst) \<notin> L) (medium_files b)"
    and "list_all (\<lambda>(src, dst). file_content w src \<noteq> None \<and> \<not> below (path_key w target) (path_key w src)) (medium_files b)"
  shows "medium_ok w target b"
proof -
  let ?K = "path_key w target"
  have part: "image_part w target (?K @ q) \<longleftrightarrow> q \<noteq> [] \<and> (hd q = ''oci'' \<or> hd q = ''zot-cache'')" for q
    using assms(2) by (cases q) (auto simp: image_part_iff below_def)
  have keys: "\<exists>src dst. (src, dst) \<in> set (medium_files b) \<and> k = ?K @ plain_comps dst \<and> hd (plain_comps dst) \<notin> L"
    if "k \<in> set (medium_keys w target b)" for k
    using that assms(4) unfolding medium_keys_eq [OF assms(1,2)] by (fastforce simp: list_all_iff)
  have dist: "distinct (medium_keys w target b)"
    using assms(1) unfolding medium_keys_eq [OF assms(1,2)]
    by (simp add: insert_ok_def distinct_map inj_on_def split_def)
  have dest: "\<not> image_part w target k \<and> k \<noteq> ?K @ [''krd''] \<and> node_at (fs w) k = None"
    if "k \<in> set (medium_keys w target b)" for k
    using keys [OF that] medium_dests [OF assms(1)] assms(3) by (auto simp: part)
  have src: "\<not> image_part w target (path_key w s) \<and> path_key w s \<noteq> ?K @ [''krd''] \<and> \<not> is_special w s \<and>
      path_key w s \<notin> set (medium_keys w target b)" if "(s, d) \<in> set (medium_files b)" for s d
  proof -
    from assms(5) that obtain m c where n: "node_at (fs w) (path_key w s) = Some (File m c)"
      by (auto simp: list_all_iff file_content_node)
    have ne: "path_key w s \<noteq> ?K @ q" for q using that assms(5) by (auto simp: list_all_iff below_iff)
    with n dest show ?thesis using assms(2) by (auto simp: is_special_iff image_part_iff below_iff)
  qed
  show ?thesis
    using dist dest src assms(1) by (auto simp: medium_ok_def list_all_iff insert_ok_def)
qed

text \<open>The nodes that Populate leaves alone.\<close>

lemma outside_medium:
  assumes "insert_ok b" and "target \<noteq> []"
    and "same_nodes (\<lambda>q. \<not> image_part u target q \<and> q \<noteq> path_key u target @ [''krd''] \<and> q \<notin> set (medium_keys u target b))
      (fs u) (fs v)"
  shows "\<And>q. \<not> below (path_key u target) q \<Longrightarrow> node_at (fs v) q = node_at (fs u) q"
    and "node_at (fs v) (path_key u target) = node_at (fs u) (path_key u target)"
    and "\<And>q. efi_part q \<Longrightarrow> node_at (fs v) (path_key u target @ q) = node_at (fs u) (path_key u target @ q)"
    and "\<And>q. q \<noteq> [] \<Longrightarrow> hd q \<noteq> ''oci'' \<Longrightarrow> hd q \<noteq> ''zot-cache'' \<Longrightarrow> q \<noteq> [''krd''] \<Longrightarrow>
      \<forall>(src, dst) \<in> set (medium_files b). q \<noteq> plain_comps dst \<Longrightarrow>
      node_at (fs v) (path_key u target @ q) = node_at (fs u) (path_key u target @ q)"
proof -
  let ?K = "path_key u target"
  have keys: "medium_keys u target b = map (\<lambda>(src, dst). ?K @ plain_comps dst) (medium_files b)"
    by (rule medium_keys_eq [OF assms(1,2)])
  have part: "image_part u target (?K @ q) \<longleftrightarrow> q \<noteq> [] \<and> (hd q = ''oci'' \<or> hd q = ''zot-cache'')" for q
    using assms(2) by (cases q) (auto simp: image_part_iff below_def)
  show inside: "node_at (fs v) (?K @ q) = node_at (fs u) (?K @ q)"
    if "q \<noteq> []" "hd q \<noteq> ''oci''" "hd q \<noteq> ''zot-cache''" "q \<noteq> [''krd'']"
      and "\<forall>(src, dst) \<in> set (medium_files b). q \<noteq> plain_comps dst" for q
    using that by (intro same_nodes_D [OF assms(3)]) (auto simp: part keys)
  show "node_at (fs v) (?K @ q) = node_at (fs u) (?K @ q)" if "efi_part q" for q
    using that medium_dests(4) [OF assms(1)] by (intro inside) (auto simp: efi_part_def)
  show "node_at (fs v) ?K = node_at (fs u) ?K"
    using medium_dests(2) [OF assms(1)] part [of "[]"] by (intro same_nodes_D [OF assms(3)]) (auto simp: keys)
  show "node_at (fs v) q = node_at (fs u) q" if "\<not> below ?K q" for q
    using that assms(2) by (intro same_nodes_D [OF assms(3)]) (auto simp: keys image_part_iff below_iff)
qed

section \<open>What both passes leave in a new directory\<close>

lemma dec_no_colon: "colon \<notin> set (dec n)"
proof -
  have digit: "digit_char k \<noteq> colon" if "k < 10" for k
  proof
    assume "digit_char k = colon"
    then have "(of_char (digit_char k) :: nat) = of_char colon" by simp
    moreover have "(of_char (digit_char k) :: nat) = 48 + k" using that by (simp add: digit_char_def)
    moreover have "(of_char colon :: nat) = 58" by simp
    ultimately show False using that by linarith
  qed
  have "b = 10 \<Longrightarrow> colon \<notin> set (digits_base b n)" for b
  proof (induction b n rule: digits_base.induct)
    case (1 b n)
    then show ?case
      using digit [of n] digit [of "n mod 10"] by (subst digits_base.simps) auto
  qed
  then show ?thesis by (simp add: dec_def)
qed

lemma temp_no_colon:
  assumes "colon \<notin> set (tmp_root w)" and "colon \<notin> set pat"
  shows "colon \<notin> set (temp_path w [] pat n)"
proof -
  from assms dec_no_colon show ?thesis by (auto simp: temp_path_def Let_def)
qed

text \<open>The bootkit is a directory with what the boot mode needs, outside of any new directory.\<close>

lemma kit_beside:
  assumes "wf_fs m" and "node_at m k = None" and "is_dir_at m d"
  shows "beside k (d @ [c])"
proof (rule ccontr)
  assume "\<not> beside k (d @ [c])"
  then obtain q where q: "d @ [c] = k @ q" and "efi_part q" by (rule not_besideE)
  then have "q \<noteq> []" by auto
  with q have "d = k @ butlast q" by (metis butlast_append butlast_snoc)
  with not_below_new [OF assms(1,2), of d] assms(3) show False by (auto simp: is_dir_at_iff below_iff)
qed

text \<open>So the files of the bootkit are what they were, as long as only the new directory changes.\<close>

lemma kit_far:
  assumes "wf_fs m" and "node_at m k = None" and "is_dir_at m d"
    and "\<forall>q. \<not> below k q \<longrightarrow> node_at m' q = node_at m q" and "is_dir_at m' k" and "r = d @ [c]"
  shows "beside k r \<and> ((\<nexists>p. nd = Dir p) \<longrightarrow> (node_at m' r = Some nd \<longleftrightarrow> node_at m r = Some nd))"
proof
  show "beside k r" unfolding assms(6) by (rule kit_beside [OF assms(1-3)])
  show "(\<nexists>p. nd = Dir p) \<longrightarrow> (node_at m' r = Some nd \<longleftrightarrow> node_at m r = Some nd)"
  proof (cases "r = k")
    case True
    with assms(2,5) show ?thesis by (auto simp: is_dir_at_iff)
  next
    case False
    have "\<not> below k r"
    proof
      assume "below k r"
      with False obtain q where "r = k @ q" "q \<noteq> []" by (auto simp: below_iff)
      with assms(6) have "d = k @ butlast q" by (metis butlast_append butlast_snoc)
      with not_below_new [OF assms(1,2), of d] assms(3) show False by (auto simp: is_dir_at_iff below_iff)
    qed
    with assms(4) show ?thesis by simp
  qed
qed

lemma kit_paths:
  assumes "kitd \<noteq> []"
  shows "path_key w (path_Join [kitd, ''bootkit/kernel.efi'']) = path_key w (path_Join [kitd, ''bootkit'']) @ [''kernel.efi'']"
    and "path_key w (path_Join [kitd, ''bootkit/shim.efi'']) = path_key w (path_Join [kitd, ''bootkit'']) @ [''shim.efi'']"
proof -
  have p: "plain_path ''bootkit''" "plain_comps ''bootkit'' = [''bootkit'']" "plain_path ''bootkit/kernel.efi''"
    "plain_comps ''bootkit/kernel.efi'' = [''bootkit'', ''kernel.efi'']" "plain_path ''bootkit/shim.efi''"
    "plain_comps ''bootkit/shim.efi'' = [''bootkit'', ''shim.efi'']" by code_simp+
  with assms show "path_key w (path_Join [kitd, ''bootkit/kernel.efi'']) = path_key w (path_Join [kitd, ''bootkit'']) @ [''kernel.efi'']"
    and "path_key w (path_Join [kitd, ''bootkit/shim.efi'']) = path_key w (path_Join [kitd, ''bootkit'']) @ [''shim.efi'']"
    by (simp_all add: path_key_Join_plain)
qed

lemma filled_tree:
  assumes mk: "os_MkdirTemp [] pat w = (Ok tmpd, u)" and "Populate T b tmpd u = (Ok (), v0)"
    and "PopulateEFI T b mode0 cmdline tmpd v0 = (Ok (), v)"
    and "wf_fs (fs w)" and "path_IsAbs (cwd w)" and "colon \<notin> set (tmp_root w)" and "colon \<notin> set pat"
    and "images_stay (t_oci T) w" and "RepoDir b = [] \<or> syncs_stay (t_progs T) w"
    and "\<And>xs. mset (t_iter T xs) = mset xs" and "insert_ok b"
    and "list_all (\<lambda>(src, dst). file_content w src \<noteq> None) (medium_files b)"
    and "mode0 \<in> {EFIAuto, EFIShim, EFIKernel}" and "bootKitDir b \<noteq> []"
    and "is_dir_at (fs w) (path_key w (path_Join [bootKitDir b, ''bootkit'']))"
    and krnp: "krnp = path_Join [bootKitDir b, ''bootkit/kernel.efi'']" and "\<not> is_special w krnp"
    and shimp: "shimp = path_Join [bootKitDir b, ''bootkit/shim.efi'']" and "\<not> is_special w shimp"
  shows "\<exists>mode k s. (if mode0 = EFIAuto then mode \<in> {EFIShim, EFIKernel} else mode = mode0) \<and>
    file_content w krnp = Some k \<and> (mode = EFIShim \<longrightarrow> file_content w shimp = Some s) \<and>
    (\<forall>q c. efi_part q \<longrightarrow> ((\<exists>p. node_at (fs v) (path_key w tmpd @ q) = Some (File p c)) \<longleftrightarrow>
       (q, c) \<in> efi_files mode (bytes_of_string (join_with [CHR 0x0A] (startup_nsh mode (full_cmdline b cmdline)))) k s)) \<and>
    list_all (\<lambda>(src, dst). file_content v (path_Join [tmpd, dst]) = file_content w src) (medium_files b) \<and>
    (\<forall>q p c. node_at (fs v) (path_key w tmpd @ q) = Some (File p c) \<longrightarrow>
       efi_part q \<or> hd q = ''oci'' \<or> hd q = ''zot-cache'' \<or> (\<exists>(src, dst) \<in> set (medium_files b). q = plain_comps dst))"
proof -
  let ?K = "path_key w tmpd"
  have wf: "wf_world w" using assms(4,5) by (simp add: wf_world_def)
  note N = new_tempdir [OF mk wf]
  have ku: "path_key u p = path_key w p" for p by (rule same_env_path_key [OF N(1)])
  have nc: "colon \<notin> set tmpd" using N(3) temp_no_colon [OF assms(6,7)] by auto
  have stay: "images_stay (t_oci T) u" "RepoDir b = [] \<or> syncs_stay (t_progs T) u"
    using assms(8,9) N(1) by (simp_all add: images_stay_def syncs_stay_def ku same_env_def)
  have mok: "medium_ok u tmpd b"
  proof (rule new_medium_ok [where L = "{}", OF assms(11) N(2)])
    show "list_all (\<lambda>(src, dst). file_content u src \<noteq> None \<and> \<not> below (path_key u tmpd) (path_key u src)) (medium_files b)"
      using assms(12) N(11) by (fastforce simp: list_all_iff ku)
  qed (simp_all add: ku N(8) list_all_iff)
  have mdK: "made (fs u) (path_key u tmpd)" using N(7) by (simp add: ku)
  from Populate_medium [OF assms(2) N(2) nc mdK mok stay assms(10)]
  have e0: "same_env u v0"
    and copied: "list_all (\<lambda>(src, dst). file_content v0 (path_Join [tmpd, dst]) = file_content u src) (medium_files b)"
    and S: "same_nodes (\<lambda>q. \<not> image_part u tmpd q \<and> q \<noteq> path_key u tmpd @ [''krd''] \<and> q \<notin> set (medium_keys u tmpd b)) (fs u) (fs v0)"
    and krd: "is_dir_at (fs v0) (?K @ [''krd''])"
    by (auto simp: list_all_iff ku N(8))
  note O = outside_medium [OF assms(11) N(2) S, unfolded ku]
  have k0: "path_key v0 p = path_key w p" for p using same_env_path_key [OF e0] ku by simp
  have free: "efi_free v0 (path_key v0 tmpd)"
    unfolding efi_free_def k0 using O(3) N(8) by (auto simp: efi_part_def)
  have kit: "path_key w krnp = path_key w (path_Join [bootKitDir b, ''bootkit'']) @ [''kernel.efi'']"
    "path_key w shimp = path_key w (path_Join [bootKitDir b, ''bootkit'']) @ [''shim.efi'']"
    unfolding krnp shimp using kit_paths [OF assms(14)] by simp_all
  have dir0: "is_dir_at (fs v0) ?K" using O(2) N(6) by (simp add: is_dir_at_def)
  have same: "\<forall>q. \<not> below ?K q \<longrightarrow> node_at (fs v0) q = node_at (fs w) q" using O(1) N(9) by simp
  note far = kit_far [OF assms(4) N(5) assms(15) same dir0]
  have bk: "beside (path_key v0 tmpd) (path_key v0 krnp) \<and> \<not> is_special v0 krnp"
    and bs: "beside (path_key v0 tmpd) (path_key v0 shimp) \<and> \<not> is_special v0 shimp"
    using far [OF kit(1)] far [OF kit(2)] assms(17,19) by (auto simp: is_special_iff k0)
  from PopulateEFI_files [OF assms(3) N(2) free assms(13,10) krnp shimp bk disjI2 [OF bs]] obtain mode k s where
    mode: "if mode0 = EFIAuto then mode \<in> {EFIShim, EFIKernel} else mode = mode0"
    and k: "file_content v0 krnp = Some k" and sh: "mode = EFIShim \<longrightarrow> file_content v0 shimp = Some s"
    and files: "\<forall>q c. efi_part q \<longrightarrow> ((\<exists>p. node_at (fs v) (path_key v0 tmpd @ q) = Some (File p c)) \<longleftrightarrow>
       (q, c) \<in> efi_files mode (bytes_of_string (join_with [CHR 0x0A] (startup_nsh mode (full_cmdline b cmdline)))) k s)"
    and kept: "\<forall>q. node_at (fs v0) q \<noteq> None \<longrightarrow> node_at (fs v) q = node_at (fs v0) q"
    and only: "\<forall>q p c. beside (path_key v0 tmpd) q \<longrightarrow> node_at (fs v) q = Some (File p c) \<longrightarrow> node_at (fs v0) q = Some (File p c)"
    by (elim exE conjE) (rule that, assumption+)
  have kv: "path_key v p = path_key w p" for p
    using quiet_run [OF quiet_PopulateEFI assms(3)] same_env_path_key [of v0 v p] k0 by simp
  have fk: "file_content w krnp = Some k" and fsh: "mode = EFIShim \<longrightarrow> file_content w shimp = Some s"
    using k sh far [OF kit(1)] far [OF kit(2)] by (auto simp: file_content_node k0)
  have med: "file_content v (path_Join [tmpd, dst]) = file_content w src" if "(src, dst) \<in> set (medium_files b)" for src dst
  proof -
    from assms(12) that obtain c where c: "file_content w src = Some c" by (auto simp: list_all_iff)
    with copied that N(11) have "file_content v0 (path_Join [tmpd, dst]) = Some c" by (auto simp: list_all_iff)
    with kept have "file_content v (path_Join [tmpd, dst]) = Some c" by (auto simp: file_content_node k0 kv)
    with c show ?thesis by simp
  qed
  have rest: "efi_part q \<or> hd q = ''oci'' \<or> hd q = ''zot-cache'' \<or> (\<exists>(src, dst) \<in> set (medium_files b). q = plain_comps dst)"
    if n: "node_at (fs v) (?K @ q) = Some (File p c)" for q p c
  proof (rule ccontr)
    assume no: "\<not> ?thesis"
    with only n have v0: "node_at (fs v0) (?K @ q) = Some (File p c)" by (simp add: k0)
    then have "q \<noteq> []" "q \<noteq> [''krd'']" using krd dir0 by (auto simp: is_dir_at_iff)
    with O(4) [of q] N(8) [of q] no v0 show False by auto
  qed
  have "list_all (\<lambda>(src, dst). file_content v (path_Join [tmpd, dst]) = file_content w src) (medium_files b)"
    using med by (auto simp: list_all_iff)
  then show ?thesis using mode fk fsh files [unfolded k0] rest by blast
qed

section \<open>The medium of CreateDisk\<close>

text \<open>
  C10: When CreateDisk, after getBootKit, returns nil, the partition was filled from one new temporary
  directory that held: the modules of the bootkit in krd, the files of --insert at their places and
  the EFI files of the boot mode, all with the bytes they had at the start; what the copies of images
  put in oci and zot-cache; and no other file. In the end the directory is removed.
\<close>

theorem disk_body_medium:
  assumes "disk_body T diskFile opts b w = (Ok (), w')"
    and "wf_fs (fs w)" and "path_IsAbs (cwd w)" and "colon \<notin> set (tmp_root w)"
    and "images_stay (t_oci T) w" and "RepoDir b = [] \<or> syncs_stay (t_progs T) w"
    and "\<And>xs. mset (t_iter T xs) = mset xs" and "insert_ok b"
    and "list_all (\<lambda>(src, dst). file_content w src \<noteq> None) (medium_files b)"
    and "dsk_EFIBootMode opts \<in> {EFIAuto, EFIShim, EFIKernel}" and "bootKitDir b \<noteq> []"
    and "is_dir_at (fs w) (path_key w (path_Join [bootKitDir b, ''bootkit'']))"
    and "krnp = path_Join [bootKitDir b, ''bootkit/kernel.efi'']" and "\<not> is_special w krnp"
    and "shimp = path_Join [bootKitDir b, ''bootkit/shim.efi'']" and "\<not> is_special w shimp"
  shows "\<exists>tmpd mode k s disk v v1 v2 start len. node_at (fs w) (path_key w tmpd) = None \<and>
    (if dsk_EFIBootMode opts = EFIAuto then mode \<in> {EFIShim, EFIKernel} else mode = dsk_EFIBootMode opts) \<and>
    file_content w krnp = Some k \<and> (mode = EFIShim \<longrightarrow> file_content w shimp = Some s) \<and>
    (\<forall>q c. efi_part q \<longrightarrow> ((\<exists>p. node_at (fs v) (path_key w tmpd @ q) = Some (File p c)) \<longleftrightarrow>
       (q, c) \<in> efi_files mode
         (bytes_of_string (join_with [CHR 0x0A] (startup_nsh mode (full_cmdline b (dsk_CommandLine opts))))) k s)) \<and>
    list_all (\<lambda>(src, dst). file_content v (path_Join [tmpd, dst]) = file_content w src) (medium_files b) \<and>
    (\<forall>q p c. node_at (fs v) (path_key w tmpd @ q) = Some (File p c) \<longrightarrow>
       efi_part q \<or> hd q = ''oci'' \<or> hd q = ''zot-cache'' \<or> (\<exists>(src, dst) \<in> set (medium_files b). q = plain_comps dst)) \<and>
    genGptDisk (t_disko T) diskFile (if dsk_Size opts = 0 then default_size else dsk_Size opts) v = (Ok disk, v1) \<and>
    (if dsk_Impl opts = ImplDiskfs then createAndCopyToFat32DiskFS (t_fat T) tmpd diskFile start len
     else createAndCopyToFat32Mtools (t_progs T) tmpd diskFile start len) v1 = (Ok (), v2) \<and>
    (\<exists>r. os_RemoveAll tmpd v2 = (r, w'))"
proof -
  from assms(1) obtain tmpd u v0 v disk v1 start len v2 r where mk: "os_MkdirTemp [] ''OciBootCreate-'' w = (Ok tmpd, u)"
    and po: "Populate T b tmpd u = (Ok (), v0)"
    and ef: "PopulateEFI T b (dsk_EFIBootMode opts) (dsk_CommandLine opts) tmpd v0 = (Ok (), v)"
    and gp: "genGptDisk (t_disko T) diskFile (if dsk_Size opts = 0 then default_size else dsk_Size opts) v = (Ok disk, v1)"
    and fill: "(if dsk_Impl opts = ImplDiskfs then createAndCopyToFat32DiskFS (t_fat T) tmpd diskFile start len
       else createAndCopyToFat32Mtools (t_progs T) tmpd diskFile start len) v1 = (Ok (), v2)"
    and rm: "os_RemoveAll tmpd v2 = (r, w')"
    unfolding disk_body_def Let_def bindE_Ok deferE_Ok unit_ex by blast
  have new: "node_at (fs w) (path_key w tmpd) = None" using MkdirTemp_run [OF mk] by auto
  have pat: "colon \<notin> set ''OciBootCreate-''" by simp
  from filled_tree [OF mk po ef assms(2-4) pat assms(5-16)] new gp fill rm show ?thesis by blast
qed

abbreviation medium_boot :: OciBoot where
  "medium_boot \<equiv> full_boot\<lparr>Files := [(''/k/bootkit/kernel.efi'', ''k.efi'')]\<rparr>"

abbreviation medium_run :: "unit outcome \<times> world" where
  "medium_run \<equiv> disk_body sample_tools ''/d'' small_disk medium_boot (sample_world kit_fs)"

theorem disk_body_medium_witness:
  "\<exists>tmpd mode k s disk v v1 v2 start len. node_at (fs (sample_world kit_fs)) (path_key (sample_world kit_fs) tmpd) = None \<and>
    (if dsk_EFIBootMode small_disk = EFIAuto then mode \<in> {EFIShim, EFIKernel} else mode = dsk_EFIBootMode small_disk) \<and>
    file_content (sample_world kit_fs) ''/k/bootkit/kernel.efi'' = Some k \<and>
    (mode = EFIShim \<longrightarrow> file_content (sample_world kit_fs) ''/k/bootkit/shim.efi'' = Some s) \<and>
    (\<forall>q c. efi_part q \<longrightarrow> ((\<exists>p. node_at (fs v) (path_key (sample_world kit_fs) tmpd @ q) = Some (File p c)) \<longleftrightarrow>
       (q, c) \<in> efi_files mode
         (bytes_of_string (join_with [CHR 0x0A] (startup_nsh mode (full_cmdline medium_boot (dsk_CommandLine small_disk))))) k s)) \<and>
    list_all (\<lambda>(src, dst). file_content v (path_Join [tmpd, dst]) = file_content (sample_world kit_fs) src)
      (medium_files medium_boot) \<and>
    (\<forall>q p c. node_at (fs v) (path_key (sample_world kit_fs) tmpd @ q) = Some (File p c) \<longrightarrow>
       efi_part q \<or> hd q = ''oci'' \<or> hd q = ''zot-cache'' \<or> (\<exists>(src, dst) \<in> set (medium_files medium_boot). q = plain_comps dst)) \<and>
    genGptDisk (t_disko sample_tools) ''/d'' (if dsk_Size small_disk = 0 then default_size else dsk_Size small_disk) v = (Ok disk, v1) \<and>
    (if dsk_Impl small_disk = ImplDiskfs then createAndCopyToFat32DiskFS (t_fat sample_tools) tmpd ''/d'' start len
     else createAndCopyToFat32Mtools (t_progs sample_tools) tmpd ''/d'' start len) v1 = (Ok (), v2) \<and>
    (\<exists>r. os_RemoveAll tmpd v2 = (r, snd medium_run))"
proof (rule disk_body_medium)
  show "medium_run = (Ok (), snd medium_run)" by (rule run_pair, code_simp)
  show "wf_fs (fs (sample_world kit_fs))" and "path_IsAbs (cwd (sample_world kit_fs))"
    and "colon \<notin> set (tmp_root (sample_world kit_fs))" and "insert_ok medium_boot"
    and "list_all (\<lambda>(src, dst). file_content (sample_world kit_fs) src \<noteq> None) (medium_files medium_boot)"
    and "is_dir_at (fs (sample_world kit_fs)) (path_key (sample_world kit_fs) (path_Join [bootKitDir medium_boot, ''bootkit'']))"
    and "''/k/bootkit/kernel.efi'' = path_Join [bootKitDir medium_boot, ''bootkit/kernel.efi'']"
    and "\<not> is_special (sample_world kit_fs) ''/k/bootkit/kernel.efi''"
    and "''/k/bootkit/shim.efi'' = path_Join [bootKitDir medium_boot, ''bootkit/shim.efi'']"
    and "\<not> is_special (sample_world kit_fs) ''/k/bootkit/shim.efi''"
    by code_simp+
  show "mset (t_iter sample_tools xs) = mset xs" for xs by (simp add: sample_tools_def)
qed (simp_all add: sample_stay small_disk_def)

end
