(* ===== verification/Iso_Tree.thy ===== *)
theory Iso_Tree
  imports Disk_Tree
begin

text \<open>
  The medium of Create: the image of the EFI partition is made from a temporary directory of its own
  and put into the tree before Populate fills the rest, and xorriso makes the iso of the result.
\<close>

section \<open>Temporary directories side by side\<close>

lemma path_key_child:
  assumes "proper_comp c"
  shows "path_key w (d @ slash # c) = (if d = [] then [] else path_key w d) @ [c]"
proof -
  have c: "split_on slash c = [c]" using assms by (simp add: proper_comp_def split_on_single)
  have step: "foldl (clean_step r) acc [c] = acc @ [c]" for r acc
    using assms by (simp add: proper_comp_def clean_step_def)
  have comps: "path_comps (p @ slash # c) = path_comps p @ [c]" if "p \<noteq> []" for p
    using path_comps_append_slash [OF that] step by (simp add: c)
  show ?thesis
  proof (cases "d = []")
    case True
    have "path_comps (slash # c) = [c]"
      using assms by (simp add: path_comps_def c clean_comps_def proper_comp_def clean_step_def)
    moreover have "path_IsAbs (slash # c)" by (simp add: path_IsAbs_def HasPrefix_def)
    ultimately show ?thesis using True by (simp add: path_key_def)
  next
    case False
    have "path_IsAbs (d @ slash # c) = path_IsAbs d" using False by (cases d) (auto simp: path_IsAbs_def HasPrefix_def)
    with False comps [of d] comps [of "cwd w @ ''/'' @ d"] show ?thesis by (simp add: path_key_def)
  qed
qed

text \<open>All temporary directories are made in one directory.\<close>

lemma temp_key:
  "\<exists>X. \<forall>pat n. slash \<notin> set pat \<longrightarrow> path_key w (temp_path w [] pat n) = X @ [pat @ dec n]"
proof -
  have proper: "proper_comp (pat @ dec n)" if "slash \<notin> set pat" for pat n
  proof -
    have "last (pat @ dec n) \<in> set (dec n)" using dec_ne [of n] by simp
    moreover have "CHR ''.'' \<notin> set (dec n)" by (rule dec_not_in) simp
    ultimately have "last (pat @ dec n) \<noteq> CHR ''.''" by metis
    moreover have "last ''.'' = CHR ''.''" "last ''..'' = CHR ''.''" by simp_all
    ultimately have "pat @ dec n \<noteq> ''.''" "pat @ dec n \<noteq> ''..''" by metis+
    with that dec_ne [of n] show ?thesis unfolding proper_comp_def by auto
  qed
  show ?thesis
  proof (cases "tmp_root w \<noteq> [] \<and> last (tmp_root w) = slash")
    case True
    then obtain d where "tmp_root w = d @ [slash]" by (metis append_butlast_last_id)
    then have "temp_path w [] pat n = d @ slash # (pat @ dec n)" for pat n
      by (simp add: temp_path_def)
    with path_key_child [OF proper] show ?thesis by metis
  next
    case False
    then have "temp_path w [] pat n = tmp_root w @ slash # (pat @ dec n)" for pat n
      by (auto simp: temp_path_def)
    with path_key_child [OF proper] show ?thesis by metis
  qed
qed

lemma temp_keys_apart:
  assumes "slash \<notin> set pat" and "slash \<notin> set pat'"
    and "path_key w (temp_path w [] pat n) \<noteq> path_key w (temp_path w [] pat' n')"
  shows "\<not> below (path_key w (temp_path w [] pat n)) (path_key w (temp_path w [] pat' n') @ r)"
proof -
  from temp_key obtain X where "\<forall>pat n. slash \<notin> set pat \<longrightarrow> path_key w (temp_path w [] pat n) = X @ [pat @ dec n]" by blast
  with assms show ?thesis by (auto simp: below_iff)
qed

section \<open>PopulateEFI stays in its directory\<close>

lemma PopulateEFI_below:
  assumes "PopulateEFI T b mode0 cmdline destd w = (Ok (), w')"
    and "destd \<noteq> []" and "efi_free w (path_key w destd)" and "made (fs w) (path_key w destd)"
    and "mode0 \<in> {EFIAuto, EFIShim, EFIKernel}" and "\<And>xs. mset (t_iter T xs) = mset xs"
    and "krnp = path_Join [bootKitDir b, ''bootkit/kernel.efi'']" and "shimp = path_Join [bootKitDir b, ''bootkit/shim.efi'']"
    and "beside (path_key w destd) (path_key w krnp) \<and> \<not> is_special w krnp"
    and "beside (path_key w destd) (path_key w shimp) \<and> \<not> is_special w shimp"
    and "\<not> below (path_key w destd) q"
  shows "node_at (fs w') q = node_at (fs w) q"
proof -
  let ?K = "path_key w destd" and ?g = "\<lambda>d. path_Join [destd, d]"
  from assms(1) obtain mode w1 w2 w3 where em: "efi_mode b mode0 w = (Ok mode, w1)"
    and md: "os_MkdirAll (path_Join [destd, EFIBootDir]) mode_0755 w1 = (Ok (), w2)"
    and wr: "os_WriteFile (path_Join [path_Join [destd, EFIBootDir], StartupNSHPath])
        (bytes_of_string (join_with [CHR 0x0A] (startup_nsh mode (full_cmdline b cmdline)))) mode_0644 w2 = (Ok (), w3)"
    and cp: "copies_to ?g (t_iter T (efi_copies b mode)) w3 = (Ok (), w')"
    by (auto simp: PopulateEFI_def bindE_Ok copies_to_def)
  note E = efi_mode_Ok [OF em]
  have k1: "path_key w1 p = path_key w p" for p by (rule moved_key [OF E(1)])
  have f1: "fs w1 = fs w" by (rule moved_fs [OF E(1)])
  have fr: "efi_free w1 (path_key w1 destd)" using assms(3) by (simp add: efi_free_def k1 f1)
  note M = MkdirAll_OkD [OF md, unfolded efi_paths [OF assms(2)] k1 f1]
  note S = efi_skeleton [OF assms(2) fr md wr, unfolded k1 f1]
  have k2: "path_key w2 p = path_key w p" for p using moved_key [OF M(1)] k1 by simp
  have k3: "path_key w3 p = path_key w p" for p using same_env_path_key [OF S(1)] k1 by simp
  have plain: "\<forall>q p. efi_part q \<longrightarrow> node_at (fs w3) (?K @ q) \<noteq> Some (Special p)" using S(6) by blast
  have far: "\<forall>r nd. beside ?K r \<longrightarrow> (\<nexists>m. nd = Dir m) \<longrightarrow> (node_at (fs w3) r = Some nd \<longleftrightarrow> node_at (fs w) r = Some nd)"
    using S(7) by blast
  have safe: "\<forall>s d. (s, d) \<in> set (efi_copies b mode) \<longrightarrow> beside ?K (path_key w s) \<and> \<not> is_special w s"
    unfolding efi_copies_eq using assms(7-10) by auto
  have "q \<notin> set (efi_dests ?K mode)" using efi_dests_below assms(11) by (force simp: below_iff)
  with efi_copied(1) [OF cp assms(2,6) allI [OF k3] far plain safe]
  have a: "node_at (fs w') q = node_at (fs w3) q" by blast
  have sk: "path_key w2 (path_Join [path_Join [destd, EFIBootDir], StartupNSHPath]) = ?K @ [''efi'', ''boot'', ''startup.nsh'']"
    by (simp only: k2 efi_paths(2) [OF assms(2)])
  have "node_at (fs w2) (?K @ [''efi'', ''boot'', ''startup.nsh'']) = None"
    using efi_dirs [OF assms(2) fr md, of "[''efi'', ''boot'', ''startup.nsh'']"] by (simp add: k1)
  then have ns: "\<not> is_special w2 (path_Join [path_Join [destd, EFIBootDir], StartupNSHPath])"
    by (simp add: is_special_iff sk)
  have "q \<noteq> ?K @ [''efi'', ''boot'', ''startup.nsh'']" using assms(11) by (auto simp: below_iff)
  with WriteFile_OkD(2) [OF wr ns] have b: "node_at (fs w3) q = node_at (fs w2) q" by (simp only: sk)
  have "node_at (fs w) q \<noteq> None" if "q = take i (?K @ [''efi'', ''boot''])" for i
    using assms(11) made_take [OF assms(4), of i] that by (cases "i \<le> length ?K") (auto simp: below_iff)
  then have "node_at (fs w2) q = node_at (fs w) q" using M(2) [of q] by auto
  with a b show ?thesis by simp
qed

section \<open>The image of the EFI partition\<close>

text \<open>What the code relies on: mkfs.fat and mcopy change nothing but the image they are given.\<close>

definition fat_tools_stay :: "programs \<Rightarrow> world \<Rightarrow> bool" where
  "fat_tools_stay P w \<longleftrightarrow> (\<forall>fname base m q. q \<noteq> path_key w fname \<longrightarrow>
     node_at (snd (P (cwd w) [''mkfs.fat'', ''-s'', ''1'', ''-F'', ''32'', ''-n'', ''EFIBOOT'', fname] m)) q = node_at m q \<and>
     node_at (snd (P (cwd w) (esp_mcopy_args fname base) m)) q = node_at m q)"

lemma ran_ok_snd:
  "ran_ok P [] args v v' \<Longrightarrow> same_env v v' \<and> snd (P (cwd v) args (fs v)) = fs v'"
proof -
  assume r: "ran_ok P [] args v v'"
  from r have "snd (P (cwd v) args (fs v)) = fs v'" unfolding ran_ok_def by (auto intro: snd_conv)
  with ran_ok_trace(2) [OF r] show ?thesis ..
qed

lemma genESP_only_image:
  assumes "genESP P fname baseDir w = (Ok (), w')" and "baseDir \<noteq> []" and "wf_fs (fs w)"
    and "is_dir_at (fs w) (path_key w baseDir)" and "fat_tools_stay P w"
  shows "same_env w w' \<and> node_at (fs w) (path_key w fname) = None \<and>
    (\<forall>q. q \<noteq> path_key w fname \<longrightarrow> node_at (fs w') q = node_at (fs w) q)"
proof -
  let ?k = "path_key w fname"
  from assms(1) obtain sz u fp u1 u2 v1 v2 where ds: "getDirSize baseDir w = (Ok sz, u)"
    and op: "os_OpenFile fname [O_RDWR, O_CREATE, O_EXCL] mode_0644 u = (Ok fp, u1)"
    and tr: "f_Truncate fp (esp_size sz) u1 = (Ok (), u2)" and cl: "f_Close fp u2 = (Ok (), v1)"
    and mk: "ran_ok P [] [''mkfs.fat'', ''-s'', ''1'', ''-F'', ''32'', ''-n'', ''EFIBOOT'', fname] v1 v2"
    and mc: "ran_ok P [] (esp_mcopy_args fname baseDir) v2 w'"
    by (auto simp: genESP_def bindE_Ok wrapE_Ok RunCommand_Ok catch_exit_Ok)
  note D = getDirSize_sum [OF ds assms(2-4)] and O = OpenFile_new [OF op, simplified] and C = Close_OkD [OF cl]
  have k: "path_key u fname = ?k" and fu: "fs u = fs w"
    by (simp_all add: moved_key [OF D(1)] moved_fs [OF D(1)])
  from fTruncate_OkD [OF tr] obtain m c where m: "moved u1 u2 (fs_put (f_key fp) (File m (resize (nat (esp_size sz)) c)) (fs u1))"
    by blast
  have v1: "node_at (fs v1) q = node_at (fs w) q" if "q \<noteq> ?k" for q
    using that by (simp add: moved_fs [OF C] moved_fs [OF m] O(1) moved_fs [OF O(3)] k fu)
  have e1: "same_env w v1" using D(1) O(3) m C same_env_trans unfolding moved_def by metis
  note R = ran_ok_snd [OF mk] and R' = ran_ok_snd [OF mc]
  have e2: "same_env w v2" using e1 R same_env_trans by blast
  have c: "cwd v1 = cwd w" "cwd v2 = cwd w" using e1 e2 by (simp_all add: same_env_def)
  have "node_at (fs w') q = node_at (fs w) q" if "q \<noteq> ?k" for q
  proof -
    have "node_at (fs v2) q = node_at (fs v1) q" and "node_at (fs w') q = node_at (fs v2) q"
      using assms(5) R R' c that unfolding fat_tools_stay_def by metis+
    with v1 [OF that] show ?thesis by simp
  qed
  moreover have "node_at (fs w) ?k = None" using O(2) by (simp add: k fu)
  ultimately show ?thesis using e2 R' same_env_trans by blast
qed

lemma map_of_filter_same: "(\<And>n. f (q, n)) \<Longrightarrow> map_of (filter f m) q = map_of m q"
  by (induction m) auto

lemma RemoveAll_outside:
  assumes "os_RemoveAll p w = (r, w')" and "\<not> below (path_key w p) q"
  shows "node_at (fs w') q = node_at (fs w) q"
  using assms
  by (auto simp: os_RemoveAll_def sysp_def Let_def log_event_def path_key_def below_def node_at_def map_of_remove_tree map_of_filter_same
      split: option.splits if_splits sum.splits)

section \<open>The phase of genESP\<close>

lemma iso_paths:
  assumes "tmpd \<noteq> []"
  shows "path_key w (path_Join [tmpd, PathESPImage]) = path_key w tmpd @ [''loader'', ''images'', ''efi-esp.img'']"
    and "path_key w (path_Dir (path_Join [tmpd, PathESPImage])) = path_key w tmpd @ [''loader'', ''images'']"
proof -
  have p: "plain_path PathESPImage" "plain_comps PathESPImage = [''loader'', ''images'', ''efi-esp.img'']"
    "plain_path ''loader/images''" "plain_comps ''loader/images'' = [''loader'', ''images'']"
    "slash \<notin> set ''efi-esp.img''" "PathESPImage = ''loader/images'' @ ''/'' @ ''efi-esp.img''" by code_simp+
  with assms show "path_key w (path_Join [tmpd, PathESPImage]) = path_key w tmpd @ [''loader'', ''images'', ''efi-esp.img'']"
    by (simp add: path_key_Join_plain)
  show "path_key w (path_Dir (path_Join [tmpd, PathESPImage])) = path_key w tmpd @ [''loader'', ''images'']"
    using path_key_Dir [OF assms p(3), of "''efi-esp.img''" w] p by simp
qed

text \<open>
  Everything genESP does to the nodes that were there, apart from the image and from its own
  temporary directory: nothing.
\<close>

lemma OciBoot_genESP_run:
  assumes "OciBoot_genESP T b opts img w = (Ok (), w')" and wf: "wf_world w"
    and "\<And>xs. mset (t_iter T xs) = mset xs" and "fat_tools_stay (t_progs T) w"
    and "iso_EFIBootMode opts \<in> {EFIAuto, EFIShim, EFIKernel}" and "bootKitDir b \<noteq> []"
    and "is_dir_at (fs w) (path_key w (path_Join [bootKitDir b, ''bootkit'']))"
    and krnp: "krnp = path_Join [bootKitDir b, ''bootkit/kernel.efi'']" and "\<not> is_special w krnp"
    and shimp: "shimp = path_Join [bootKitDir b, ''bootkit/shim.efi'']" and "\<not> is_special w shimp"
  shows "\<exists>tmpe n mode k s e1 e2. tmpe = temp_path w [] ''genESP-'' n \<and> node_at (fs w) (path_key w tmpe) = None \<and>
    (if iso_EFIBootMode opts = EFIAuto then mode \<in> {EFIShim, EFIKernel} else mode = iso_EFIBootMode opts) \<and>
    file_content w krnp = Some k \<and> (mode = EFIShim \<longrightarrow> file_content w shimp = Some s) \<and>
    (\<forall>q c. q \<noteq> [] \<longrightarrow> ((\<exists>p. node_at (fs e1) (path_key w tmpe @ q) = Some (File p c)) \<longleftrightarrow>
       (q, c) \<in> efi_files mode
         (bytes_of_string (join_with [CHR 0x0A] (startup_nsh mode (full_cmdline b (iso_CommandLine opts))))) k s)) \<and>
    genESP (t_progs T) img tmpe e1 = (Ok (), e2) \<and> same_env w e1 \<and> same_env w w' \<and>
    (\<not> below (path_key w tmpe) (path_key w img) \<longrightarrow> node_at (fs w') (path_key w img) = node_at (fs e2) (path_key w img)) \<and>
    (\<forall>q. q \<noteq> path_key w img \<longrightarrow> \<not> below (path_key w tmpe) q \<longrightarrow> node_at (fs w') q = node_at (fs w) q)"
proof -
  from assms(1) obtain tmpe u e1 e2 r where mk: "os_MkdirTemp [] ''genESP-'' w = (Ok tmpe, u)"
    and ef: "PopulateEFI T b (iso_EFIBootMode opts) (iso_CommandLine opts) tmpe u = (Ok (), e1)"
    and ge: "genESP (t_progs T) img tmpe e1 = (Ok (), e2)" and rm: "os_RemoveAll tmpe e2 = (r, w')"
    by (auto simp: OciBoot_genESP_def bindE_Ok deferE_Ok)
  let ?E = "path_key w tmpe"
  note N = new_tempdir [OF mk wf]
  note env = N(1) and ne = N(2) and wfu = N(4)
  from N(3) obtain n where t: "tmpe = temp_path w [] ''genESP-'' n" by blast
  have key: "path_key u p = path_key w p" for p by (rule same_env_path_key [OF env])
  have wff: "wf_fs (fs w)" using wf by (simp add: wf_world_def)
  have free: "efi_free u (path_key u tmpe)" using N(8) by (auto simp: efi_free_def efi_part_def key)
  have mdE: "made (fs u) (path_key u tmpe)" using N(7) by (simp add: key)
  have kit: "path_key w krnp = path_key w (path_Join [bootKitDir b, ''bootkit'']) @ [''kernel.efi'']"
    "path_key w shimp = path_key w (path_Join [bootKitDir b, ''bootkit'']) @ [''shim.efi'']"
    unfolding krnp shimp using kit_paths [OF assms(6)] by simp_all
  have same: "\<forall>q. \<not> below ?E q \<longrightarrow> node_at (fs u) q = node_at (fs w) q" using N(9) by simp
  note far = kit_far [OF wff N(5) assms(7) same N(6)]
  have out: "beside (path_key u tmpe) (path_key u p) \<and> \<not> is_special u p"
    if "path_key w p = path_key w (path_Join [bootKitDir b, ''bootkit'']) @ [c]" and "\<not> is_special w p" for p c
    using far [OF that(1)] that(2) by (auto simp: key is_special_iff)
  note bk = out [OF kit(1) assms(9)] and bs = out [OF kit(2) assms(11)]
  from PopulateEFI_files [OF ef ne free assms(5,3) krnp shimp bk disjI2 [OF bs]] obtain mode k s where
    mode: "if iso_EFIBootMode opts = EFIAuto then mode \<in> {EFIShim, EFIKernel} else mode = iso_EFIBootMode opts"
    and k: "file_content u krnp = Some k" and sh: "mode = EFIShim \<longrightarrow> file_content u shimp = Some s"
    and files: "\<forall>q c. efi_part q \<longrightarrow> ((\<exists>p. node_at (fs e1) (path_key u tmpe @ q) = Some (File p c)) \<longleftrightarrow>
       (q, c) \<in> efi_files mode
         (bytes_of_string (join_with [CHR 0x0A] (startup_nsh mode (full_cmdline b (iso_CommandLine opts))))) k s)"
    and kept: "\<forall>q. node_at (fs u) q \<noteq> None \<longrightarrow> node_at (fs e1) q = node_at (fs u) q"
    and only: "\<forall>q p c. beside (path_key u tmpe) q \<longrightarrow> node_at (fs e1) q = Some (File p c) \<longrightarrow> node_at (fs u) q = Some (File p c)"
    by (elim exE conjE) (rule that, assumption+)
  have krnw: "file_content w krnp = Some k" and shw: "mode = EFIShim \<longrightarrow> file_content w shimp = Some s"
    using k sh far [OF kit(1)] far [OF kit(2)] by (auto simp: file_content_node key)
  have e1: "same_env u e1" using quiet_run [OF quiet_PopulateEFI ef] by blast
  have we1: "same_env w e1" using env e1 by (rule same_env_trans)
  have ke: "path_key e1 p = path_key w p" for p by (rule same_env_path_key [OF we1])
  have wfe: "wf_world e1" using keeps_runD [OF keeps_PopulateEFI ef wfu] .
  have st: "fat_tools_stay (t_progs T) e1"
    using assms(4) we1 by (simp add: fat_tools_stay_def ke same_env_def)
  have dire: "is_dir_at (fs e1) (path_key e1 tmpe)" using kept N(6) by (auto simp: ke is_dir_at_iff)
  from genESP_only_image [OF ge ne _ dire st] wfe
  have g: "same_env e1 e2" "\<forall>q. q \<noteq> path_key w img \<longrightarrow> node_at (fs e2) q = node_at (fs e1) q"
    by (simp_all add: wf_world_def ke)
  have we2: "same_env w e2" using we1 g(1) by (rule same_env_trans)
  have k2: "path_key e2 p = path_key w p" for p by (rule same_env_path_key [OF we2])
  have rest: "node_at (fs w') q = node_at (fs w) q" if "q \<noteq> path_key w img" and "\<not> below ?E q" for q
  proof -
    have "node_at (fs w') q = node_at (fs e2) q" by (rule RemoveAll_outside [OF rm]) (simp add: k2 that)
    also have "\<dots> = node_at (fs e1) q" using g(2) that(1) by simp
    also have "\<dots> = node_at (fs u) q"
      by (rule PopulateEFI_below [OF ef ne free mdE assms(5,3) krnp shimp bk bs]) (simp add: key that)
    also have "\<dots> = node_at (fs w) q" using that(2) by (rule N(9))
    finally show ?thesis .
  qed
  have im: "node_at (fs w') (path_key w img) = node_at (fs e2) (path_key w img)" if "\<not> below ?E (path_key w img)"
    using RemoveAll_outside [OF rm] that by (simp add: k2)
  have all: "(\<exists>p. node_at (fs e1) (?E @ q) = Some (File p c)) \<longleftrightarrow> (q, c) \<in> efi_files mode
      (bytes_of_string (join_with [CHR 0x0A] (startup_nsh mode (full_cmdline b (iso_CommandLine opts))))) k s"
    if "q \<noteq> []" for q c
  proof (cases "efi_part q")
    case True
    with files show ?thesis by (simp add: key)
  next
    case False
    have "node_at (fs e1) (?E @ q) \<noteq> Some (File p c)" for p
      using only N(8) [OF that] False by (auto simp: key)
    with False show ?thesis by (auto simp: efi_files_def split: if_splits)
  qed
  have w': "same_env w w'" using we2 RemoveAll_env [of e2 tmpe] rm same_env_trans by (metis snd_conv)
  show ?thesis
    by (rule exI [of _ tmpe], rule exI [of _ n], rule exI [of _ mode], rule exI [of _ k], rule exI [of _ s],
        rule exI [of _ e1], rule exI [of _ e2], intro conjI allI impI)
      (rule t N(5) mode krnw shw [rule_format] all ge we1 w' im rest; assumption)+
qed

section \<open>The medium of Create\<close>

text \<open>Besides insert_ok, nothing is inserted where the image of the EFI partition goes.\<close>

definition iso_insert_ok :: "OciBoot \<Rightarrow> bool" where
  "iso_insert_ok b \<longleftrightarrow> insert_ok b \<and> list_all (\<lambda>(src, dst). hd (plain_comps dst) \<noteq> ''loader'') (Files b)"

lemma iso_medium_dests: "iso_insert_ok b \<Longrightarrow> list_all (\<lambda>(src, dst). hd (plain_comps dst) \<notin> {''loader''}) (medium_files b)"
proof -
  have "plain_comps ''krd/modules.squashfs'' = [''krd'', ''modules.squashfs'']" by code_simp
  then show "iso_insert_ok b \<Longrightarrow> ?thesis" by (auto simp: iso_insert_ok_def medium_files_def list_all_iff)
qed

lemma take_image_dirs:
  assumes "k @ q = take i (k @ [''loader'', ''images''])"
  shows "q = [] \<or> hd q = ''loader''"
proof (cases "i \<le> length k")
  case True
  from arg_cong [OF assms, of length] have "length k + length q \<le> i" by simp
  with True have "length q = 0" by linarith
  then show ?thesis by simp
next
  case False
  with assms have "q = take (i - length k) [''loader'', ''images'']" by simp
  with False show ?thesis by (simp add: take_Cons')
qed

text \<open>The directory of the image, in a new directory.\<close>

lemma image_dirs:
  assumes mk: "os_MkdirTemp [] pat w = (Ok tmpd, u)" and wf: "wf_world w"
    and md: "os_MkdirAll (path_Dir (path_Join [tmpd, PathESPImage])) mode_0755 u = (Ok (), u1)"
  shows "same_env w u1" and "wf_world u1" and "is_dir_at (fs u1) (path_key w tmpd)"
    and "\<And>q. q \<noteq> [] \<Longrightarrow> hd q \<noteq> ''loader'' \<Longrightarrow> node_at (fs u1) (path_key w tmpd @ q) = None"
    and "\<And>q p c. node_at (fs u1) (path_key w tmpd @ q) \<noteq> Some (File p c)"
    and "\<And>q. node_at (fs w) q \<noteq> None \<Longrightarrow> node_at (fs u1) q = node_at (fs w) q"
proof -
  let ?K = "path_key w tmpd"
  note N = new_tempdir [OF mk wf]
  note env = N(1) and ne = N(2) and wfu = N(4) and dirK = N(6) and empty = N(8)
  have ku: "path_key u p = path_key w p" for p by (rule same_env_path_key [OF env])
  note M = MkdirAll_OkD [OF md, unfolded iso_paths(2) [OF ne] ku]
  show "same_env w u1" using env M(1) same_env_trans unfolding moved_def by blast
  show "wf_world u1" using keeps_runD [OF keeps_MkdirAll md wfu] .
  have kept: "node_at (fs u1) q = node_at (fs u) q" if "node_at (fs u) q \<noteq> None" for q using M(2) [of q] that by simp
  show "is_dir_at (fs u1) ?K" using dirK kept by (auto simp: is_dir_at_iff)
  show "node_at (fs u1) (?K @ q) = None" if "q \<noteq> []" and "hd q \<noteq> ''loader''" for q
  proof -
    have "\<not> (\<exists>i. ?K @ q = take i (?K @ [''loader'', ''images'']))"
      using that take_image_dirs by blast
    with M(2) [of "?K @ q"] empty [OF that(1)] show ?thesis by auto
  qed
  show "node_at (fs u1) (?K @ q) \<noteq> Some (File p c)" for q p c
    using M(2) [of "?K @ q"] empty [of q] dirK by (cases "q = []") (auto simp: is_dir_at_iff)
  show "node_at (fs u1) q = node_at (fs w) q" if "node_at (fs w) q \<noteq> None" for q
    using kept [of q] N(9) [OF N(10) [OF that]] that by simp
qed

text \<open>The tree of Create when xorriso runs.\<close>

lemma iso_filled:
  assumes mk: "os_MkdirTemp [] ''OciBootCreate-'' w = (Ok tmpd, u)"
    and md: "os_MkdirAll (path_Dir (path_Join [tmpd, PathESPImage])) mode_0755 u = (Ok (), u1)"
    and ge: "OciBoot_genESP T b opts (path_Join [tmpd, PathESPImage]) u1 = (Ok (), u2)"
    and po: "Populate T b tmpd u2 = (Ok (), v)"
    and "wf_fs (fs w)" and "path_IsAbs (cwd w)" and "colon \<notin> set (tmp_root w)"
    and "images_stay (t_oci T) w" and "RepoDir b = [] \<or> syncs_stay (t_progs T) w" and "fat_tools_stay (t_progs T) w"
    and "\<And>xs. mset (t_iter T xs) = mset xs" and "iso_insert_ok b"
    and "list_all (\<lambda>(src, dst). file_content w src \<noteq> None) (medium_files b)"
    and "iso_EFIBootMode opts \<in> {EFIAuto, EFIShim, EFIKernel}" and "bootKitDir b \<noteq> []"
    and kit: "is_dir_at (fs w) (path_key w (path_Join [bootKitDir b, ''bootkit'']))"
    and krnp: "krnp = path_Join [bootKitDir b, ''bootkit/kernel.efi'']" and "file_content w krnp = Some k"
    and shimp: "shimp = path_Join [bootKitDir b, ''bootkit/shim.efi'']" and "file_content w shimp = Some s"
  shows "\<exists>tmpe mode e1 e2. (if iso_EFIBootMode opts = EFIAuto then mode \<in> {EFIShim, EFIKernel} else mode = iso_EFIBootMode opts) \<and>
    (\<forall>q c. q \<noteq> [] \<longrightarrow> ((\<exists>p. node_at (fs e1) (path_key w tmpe @ q) = Some (File p c)) \<longleftrightarrow>
       (q, c) \<in> efi_files mode
         (bytes_of_string (join_with [CHR 0x0A] (startup_nsh mode (full_cmdline b (iso_CommandLine opts))))) k s)) \<and>
    genESP (t_progs T) (path_Join [tmpd, PathESPImage]) tmpe e1 = (Ok (), e2) \<and>
    node_at (fs v) (path_key w (path_Join [tmpd, PathESPImage])) = node_at (fs e2) (path_key w (path_Join [tmpd, PathESPImage])) \<and>
    list_all (\<lambda>(src, dst). file_content v (path_Join [tmpd, dst]) = file_content w src) (medium_files b) \<and>
    (\<forall>q p c. node_at (fs v) (path_key w tmpd @ q) = Some (File p c) \<longrightarrow>
       q = [''loader'', ''images'', ''efi-esp.img''] \<or> hd q = ''oci'' \<or> hd q = ''zot-cache'' \<or>
       (\<exists>(src, dst) \<in> set (medium_files b). q = plain_comps dst))"
proof -
  let ?K = "path_key w tmpd" and ?i = "[''loader'', ''images'', ''efi-esp.img'']" and ?img = "path_Join [tmpd, PathESPImage]"
  have wf: "wf_world w" using assms(5,6) by (simp add: wf_world_def)
  note N = new_tempdir [OF mk wf]
  note ne = N(2)
  from N(3) obtain n where t: "tmpd = temp_path w [] ''OciBootCreate-'' n" by blast
  have colon: "colon \<notin> set tmpd" using temp_no_colon [OF assms(7), of "''OciBootCreate-''"] by (simp add: t)
  note D = image_dirs [OF mk wf md]
  have k1: "path_key u1 p = path_key w p" for p by (rule same_env_path_key [OF D(1)])
  have img: "path_key w ?img = ?K @ ?i" by (rule iso_paths(1) [OF ne])
  have st1: "fat_tools_stay (t_progs T) u1"
    using assms(10) D(1) by (simp add: fat_tools_stay_def k1 same_env_def)
  have kit1: "is_dir_at (fs u1) (path_key u1 (path_Join [bootKitDir b, ''bootkit'']))"
    using kit D(6) by (auto simp: k1 is_dir_at_iff)
  have c1: "file_content u1 p = Some c" if "file_content w p = Some c" for p c
    using that D(6) by (auto simp: file_content_node k1)
  have sp: "\<not> is_special u1 krnp" "\<not> is_special u1 shimp"
    using c1 [OF assms(18)] c1 [OF assms(20)] by (auto simp: is_special_iff file_content_node)
  from OciBoot_genESP_run [OF ge D(2) assms(11) st1 assms(14,15) kit1 krnp sp(1) shimp sp(2)]
  obtain tmpe n' mode k' s' e1 e2 where te: "tmpe = temp_path u1 [] ''genESP-'' n'"
    and newE: "node_at (fs u1) (path_key u1 tmpe) = None"
    and mode: "if iso_EFIBootMode opts = EFIAuto then mode \<in> {EFIShim, EFIKernel} else mode = iso_EFIBootMode opts"
    and k': "file_content u1 krnp = Some k'" and s': "mode = EFIShim \<longrightarrow> file_content u1 shimp = Some s'"
    and files: "\<forall>q c. q \<noteq> [] \<longrightarrow> ((\<exists>p. node_at (fs e1) (path_key u1 tmpe @ q) = Some (File p c)) \<longleftrightarrow>
       (q, c) \<in> efi_files mode
         (bytes_of_string (join_with [CHR 0x0A] (startup_nsh mode (full_cmdline b (iso_CommandLine opts))))) k' s')"
    and gen: "genESP (t_progs T) ?img tmpe e1 = (Ok (), e2)" and "same_env u1 e1" and env2: "same_env u1 u2"
    and im: "\<not> below (path_key u1 tmpe) (path_key u1 ?img) \<longrightarrow> node_at (fs u2) (path_key u1 ?img) = node_at (fs e2) (path_key u1 ?img)"
    and same: "\<forall>q. q \<noteq> path_key u1 ?img \<longrightarrow> \<not> below (path_key u1 tmpe) q \<longrightarrow> node_at (fs u2) q = node_at (fs u1) q"
    by (elim exE conjE) (rule that, assumption+)
  let ?E = "path_key w tmpe"
  have ks: "k' = k" "mode = EFIShim \<longrightarrow> s' = s" using k' s' c1 assms(18,20) by auto
  have te': "tmpe = temp_path w [] ''genESP-'' n'" using te temp_path_env [OF D(1)] by simp
  have EK: "?E \<noteq> ?K" using newE D(3) by (auto simp: k1 is_dir_at_iff)
  have apart: "\<not> below ?E (?K @ r)" for r
    using temp_keys_apart [of "''genESP-''" "''OciBootCreate-''" w n' n r] EK by (simp add: t te')
  have K2: "node_at (fs u2) (?K @ q) = node_at (fs u1) (?K @ q)" if "q \<noteq> ?i" for q
    using same that apart by (simp add: k1 img)
  have I2: "node_at (fs u2) (?K @ ?i) = node_at (fs e2) (?K @ ?i)" using im apart by (simp add: k1 img)
  have env: "same_env w u2" using D(1) env2 by (rule same_env_trans)
  have k2: "path_key u2 p = path_key w p" for p by (rule same_env_path_key [OF env])
  have out: "node_at (fs u2) q = node_at (fs w) q \<and> \<not> below ?K q" if "node_at (fs w) q \<noteq> None" for q
  proof -
    have nK: "\<not> below ?K q" by (rule N(10) [OF that])
    have u1: "node_at (fs u1) q = node_at (fs w) q" using D(6) [OF that] .
    have "wf_fs (fs u1)" using D(2) by (simp add: wf_world_def)
    from not_below_new [OF this newE, of q] that u1 have "\<not> below ?E q" by (simp add: k1)
    with same nK u1 show ?thesis by (auto simp: k1 img below_iff)
  qed
  have src: "file_content u2 p = Some c \<and> \<not> below ?K (path_key w p)" if "file_content w p = Some c" for p c
    using that out by (auto simp: file_content_node k2)
  have stay: "images_stay (t_oci T) u2" "RepoDir b = [] \<or> syncs_stay (t_progs T) u2"
    using assms(8,9) env by (simp_all add: images_stay_def syncs_stay_def k2 same_env_def)
  have ins: "insert_ok b" using assms(12) by (simp add: iso_insert_ok_def)
  have none2: "node_at (fs u2) (?K @ q) = None" if "q \<noteq> []" "hd q \<noteq> ''loader''" for q
  proof -
    have "q \<noteq> ?i" using that(2) by auto
    with K2 D(4) [OF that] show ?thesis by simp
  qed
  have mok: "medium_ok u2 tmpd b"
  proof (rule new_medium_ok [OF ins ne _ iso_medium_dests [OF assms(12)]])
    show "\<forall>q. q \<noteq> [] \<longrightarrow> hd q \<notin> {''loader''} \<longrightarrow> node_at (fs u2) (path_key u2 tmpd @ q) = None"
      using none2 by (simp add: k2)
    show "list_all (\<lambda>(src, dst). file_content u2 src \<noteq> None \<and> \<not> below (path_key u2 tmpd) (path_key u2 src)) (medium_files b)"
      using assms(13) src by (fastforce simp: list_all_iff k2)
  qed
  have mdK: "made (fs u2) (path_key u2 tmpd)"
  proof -
    have "made (fs u1) ?K" using made_wf D(2,3) by (auto simp: wf_world_def is_dir_at_iff)
    moreover have "node_at (fs u2) (take i ?K) = node_at (fs u1) (take i ?K)" for i
    proof -
      have "take i ?K \<noteq> ?K @ ?i" by (auto dest: arg_cong [of _ _ length])
      moreover have "\<not> below ?E (take i ?K)"
        using apart [of "[]"] by (auto simp: below_iff) (metis append_assoc append_take_drop_id)
      ultimately show ?thesis using same by (simp add: k1 img)
    qed
    ultimately show ?thesis by (simp add: made_iff k2)
  qed
  from Populate_medium [OF po ne colon mdK mok stay assms(11)]
  have e0: "same_env u2 v"
    and copied: "list_all (\<lambda>(src, dst). file_content v (path_Join [tmpd, dst]) = file_content u2 src) (medium_files b)"
    and S: "same_nodes (\<lambda>q. \<not> image_part u2 tmpd q \<and> q \<noteq> path_key u2 tmpd @ [''krd''] \<and> q \<notin> set (medium_keys u2 tmpd b)) (fs u2) (fs v)"
    and krd: "is_dir_at (fs v) (?K @ [''krd''])"
    by (auto simp: list_all_iff k2 none2)
  note O = outside_medium [OF ins ne S, unfolded k2]
  have "\<forall>(src, dst) \<in> set (medium_files b). ?i \<noteq> plain_comps dst"
  proof (clarify)
    fix s d
    assume "(s, d) \<in> set (medium_files b)" and "?i = plain_comps d"
    with iso_medium_dests [OF assms(12)] show False by (auto simp: list_all_iff dest!: sym [of ?i])
  qed
  with O(4) [of ?i] I2 have I: "node_at (fs v) (?K @ ?i) = node_at (fs e2) (?K @ ?i)" by simp
  have rest: "q = ?i \<or> hd q = ''oci'' \<or> hd q = ''zot-cache'' \<or> (\<exists>(src, dst) \<in> set (medium_files b). q = plain_comps dst)"
    if nd: "node_at (fs v) (?K @ q) = Some (File p c)" for q p c
  proof (rule ccontr)
    assume no: "\<not> ?thesis"
    have "q \<noteq> [''krd'']" using krd nd by (auto simp: is_dir_at_iff)
    with O(2) O(4) [of q] K2 [of q] no nd D(5) [of q p c] show False by (cases "q = []") auto
  qed
  have med: "list_all (\<lambda>(src, dst). file_content v (path_Join [tmpd, dst]) = file_content w src) (medium_files b)"
    using copied assms(13) src by (fastforce simp: list_all_iff)
  have fl: "(\<exists>p. node_at (fs e1) (?E @ q) = Some (File p c)) \<longleftrightarrow> (q, c) \<in> efi_files mode
      (bytes_of_string (join_with [CHR 0x0A] (startup_nsh mode (full_cmdline b (iso_CommandLine opts))))) k s"
    if "q \<noteq> []" for q c
    using files that ks by (auto simp: k1 efi_files_def split: if_splits)
  show ?thesis
    by (rule exI [of _ tmpe], rule exI [of _ mode], rule exI [of _ e1], rule exI [of _ e2], intro conjI allI impI)
      (rule mode fl gen I [folded img] med rest; assumption)+
qed

text \<open>
  C11: When Create, after getBootKit, returns nil, xorriso made the iso of one new temporary directory
  that held: at loader/images/efi-esp.img the image that genESP made of a tree with exactly the EFI
  files of the boot mode; the modules of the bootkit in krd and the files of --insert at their
  places, all with the bytes they had at the start; what the copies of images put in oci and
  zot-cache; and no other file. In the end the directory is removed.
\<close>

theorem iso_body_medium:
  assumes "iso_body T isoFile opts b w = (Ok (), w')"
    and "wf_fs (fs w)" and "path_IsAbs (cwd w)" and "colon \<notin> set (tmp_root w)"
    and "images_stay (t_oci T) w" and "RepoDir b = [] \<or> syncs_stay (t_progs T) w" and "fat_tools_stay (t_progs T) w"
    and "\<And>xs. mset (t_iter T xs) = mset xs" and "iso_insert_ok b"
    and "list_all (\<lambda>(src, dst). file_content w src \<noteq> None) (medium_files b)"
    and "iso_EFIBootMode opts \<in> {EFIAuto, EFIShim, EFIKernel}" and "bootKitDir b \<noteq> []"
    and "is_dir_at (fs w) (path_key w (path_Join [bootKitDir b, ''bootkit'']))"
    and "krnp = path_Join [bootKitDir b, ''bootkit/kernel.efi'']" and "file_content w krnp = Some k"
    and "shimp = path_Join [bootKitDir b, ''bootkit/shim.efi'']" and "file_content w shimp = Some s"
  shows "\<exists>tmpd tmpe mode e1 e2 v mkopts v2. node_at (fs w) (path_key w tmpd) = None \<and>
    (if iso_EFIBootMode opts = EFIAuto then mode \<in> {EFIShim, EFIKernel} else mode = iso_EFIBootMode opts) \<and>
    (\<forall>q c. q \<noteq> [] \<longrightarrow> ((\<exists>p. node_at (fs e1) (path_key w tmpe @ q) = Some (File p c)) \<longleftrightarrow>
       (q, c) \<in> efi_files mode
         (bytes_of_string (join_with [CHR 0x0A] (startup_nsh mode (full_cmdline b (iso_CommandLine opts))))) k s)) \<and>
    genESP (t_progs T) (path_Join [tmpd, PathESPImage]) tmpe e1 = (Ok (), e2) \<and>
    node_at (fs v) (path_key w (path_Join [tmpd, PathESPImage])) = node_at (fs e2) (path_key w (path_Join [tmpd, PathESPImage])) \<and>
    list_all (\<lambda>(src, dst). file_content v (path_Join [tmpd, dst]) = file_content w src) (medium_files b) \<and>
    (\<forall>q p c. node_at (fs v) (path_key w tmpd @ q) = Some (File p c) \<longrightarrow>
       q = [''loader'', ''images'', ''efi-esp.img''] \<or> hd q = ''oci'' \<or> hd q = ''zot-cache'' \<or>
       (\<exists>(src, dst) \<in> set (medium_files b). q = plain_comps dst)) \<and>
    MkisofsArgs opts = Inr mkopts \<and> ran_ok (t_progs T) [] (xorriso_args isoFile mkopts tmpd) v v2 \<and>
    (\<exists>r. os_RemoveAll tmpd v2 = (r, w'))"
proof -
  from assms(1) obtain tmpd u u1 u2 v mkopts v2 r where mk: "os_MkdirTemp [] ''OciBootCreate-'' w = (Ok tmpd, u)"
    and md: "os_MkdirAll (path_Dir (path_Join [tmpd, PathESPImage])) mode_0755 u = (Ok (), u1)"
    and ge: "OciBoot_genESP T b opts (path_Join [tmpd, PathESPImage]) u1 = (Ok (), u2)"
    and po: "Populate T b tmpd u2 = (Ok (), v)" and mko: "MkisofsArgs opts = Inr mkopts"
    and xo: "ran_ok (t_progs T) [] (xorriso_args isoFile mkopts tmpd) v v2" and rm: "os_RemoveAll tmpd v2 = (r, w')"
    unfolding iso_body_def Let_def bindE_Ok deferE_Ok wrapE_Ok RunCommand_Ok unit_ex fromSum_Ok by blast
  have new: "node_at (fs w) (path_key w tmpd) = None" using MkdirTemp_run [OF mk] by auto
  from iso_filled [OF mk md ge po assms(2-17)] show ?thesis
    by (elim exE conjE) (rule exI [of _ tmpd], intro exI conjI, (rule new mko xo rm | assumption)+)
qed

abbreviation iso_opts :: ISOOptions where
  "iso_opts \<equiv> \<lparr>iso_EFIBootMode = EFIShim, iso_CommandLine = ''c''\<rparr>"

abbreviation iso_boot :: OciBoot where
  "iso_boot \<equiv> kit_boot\<lparr>Files := [(''/k/bootkit/kernel.efi'', ''k.efi'')]\<rparr>"

abbreviation iso_run :: "unit outcome \<times> world" where
  "iso_run \<equiv> iso_body sample_tools ''/i'' iso_opts iso_boot (sample_world kit_fs)"

theorem iso_body_medium_witness:
  "\<exists>tmpd tmpe mode e1 e2 v mkopts v2. node_at (fs (sample_world kit_fs)) (path_key (sample_world kit_fs) tmpd) = None \<and>
    (if iso_EFIBootMode iso_opts = EFIAuto then mode \<in> {EFIShim, EFIKernel} else mode = iso_EFIBootMode iso_opts) \<and>
    (\<forall>q c. q \<noteq> [] \<longrightarrow> ((\<exists>p. node_at (fs e1) (path_key (sample_world kit_fs) tmpe @ q) = Some (File p c)) \<longleftrightarrow>
       (q, c) \<in> efi_files mode
         (bytes_of_string (join_with [CHR 0x0A] (startup_nsh mode (full_cmdline iso_boot (iso_CommandLine iso_opts))))) [1] [2])) \<and>
    genESP (t_progs sample_tools) (path_Join [tmpd, PathESPImage]) tmpe e1 = (Ok (), e2) \<and>
    node_at (fs v) (path_key (sample_world kit_fs) (path_Join [tmpd, PathESPImage])) = node_at (fs e2) (path_key (sample_world kit_fs) (path_Join [tmpd, PathESPImage])) \<and>
    list_all (\<lambda>(src, dst). file_content v (path_Join [tmpd, dst]) = file_content (sample_world kit_fs) src) (medium_files iso_boot) \<and>
    (\<forall>q p c. node_at (fs v) (path_key (sample_world kit_fs) tmpd @ q) = Some (File p c) \<longrightarrow>
       q = [''loader'', ''images'', ''efi-esp.img''] \<or> hd q = ''oci'' \<or> hd q = ''zot-cache'' \<or>
       (\<exists>(src, dst) \<in> set (medium_files iso_boot). q = plain_comps dst)) \<and>
    MkisofsArgs iso_opts = Inr mkopts \<and> ran_ok (t_progs sample_tools) [] (xorriso_args ''/i'' mkopts tmpd) v v2 \<and>
    (\<exists>r. os_RemoveAll tmpd v2 = (r, snd iso_run))"
proof (rule iso_body_medium)
  show "iso_run = (Ok (), snd iso_run)" by (rule run_pair, code_simp)
  show "wf_fs (fs (sample_world kit_fs))" and "path_IsAbs (cwd (sample_world kit_fs))"
    and "colon \<notin> set (tmp_root (sample_world kit_fs))" and "iso_insert_ok iso_boot"
    and "list_all (\<lambda>(src, dst). file_content (sample_world kit_fs) src \<noteq> None) (medium_files iso_boot)"
    and "is_dir_at (fs (sample_world kit_fs)) (path_key (sample_world kit_fs) (path_Join [bootKitDir iso_boot, ''bootkit'']))"
    and "''/k/bootkit/kernel.efi'' = path_Join [bootKitDir iso_boot, ''bootkit/kernel.efi'']"
    and "file_content (sample_world kit_fs) ''/k/bootkit/kernel.efi'' = Some [1]"
    and "''/k/bootkit/shim.efi'' = path_Join [bootKitDir iso_boot, ''bootkit/shim.efi'']"
    and "file_content (sample_world kit_fs) ''/k/bootkit/shim.efi'' = Some [2]"
    by code_simp+
  show "mset (t_iter sample_tools xs) = mset xs" for xs by (simp add: sample_tools_def)
  show "fat_tools_stay (t_progs sample_tools) (sample_world kit_fs)"
    by (simp add: fat_tools_stay_def sample_tools_def idle_programs_def)
qed (simp_all add: sample_stay)

end
