(* ===== verification/Disk_Live.thy ===== *)
theory Disk_Live
  imports Efi_Live Iso_Tree
begin

text \<open>
  Total correctness of the disk of a local bootkit without images: when no call fails and the other
  programs do their work, oci-boot does make the disk.
\<close>

section \<open>A new temporary directory\<close>

lemma Mkdir_works:
  assumes "alive w" and "p \<noteq> []" and "is_dir_at (fs w) (butlast (path_key w p))" and "node_at (fs w) (path_key w p) = None"
  shows "\<exists>v. os_Mkdir p perm w = (Ok (), v)"
proof -
  have "path_errno (fs w) [] (path_key w p) = None"
    using assms(1,3) by (auto simp: alive_def wf_world_def intro: path_errno_dir)
  with assms show ?thesis by (auto simp: os_Mkdir_def sys_Ok mkdir_step_def Let_def alive_def)
qed

text \<open>It is enough that the first name tried is free.\<close>

lemma MkdirTemp_works:
  assumes "alive w" and p: "p = temp_path w [] pat (rands w (rnd w))"
    and "is_dir_at (fs w) (butlast (path_key w p))" and "node_at (fs w) (path_key w p) = None"
  shows "\<exists>v. os_MkdirTemp [] pat w = (Ok p, v) \<and> alive v"
proof -
  let ?w = "w\<lparr>rnd := Suc (rnd w)\<rparr>"
  have "alive ?w" using assms(1) by (simp add: alive_def wf_world_def)
  moreover have key: "path_key ?w q = path_key w q" for q by (simp add: path_key_def)
  moreover have "p \<noteq> []" using temp_path_ends by (simp add: p)
  ultimately obtain v where "os_Mkdir p mode_0700 ?w = (Ok (), v)" using Mkdir_works [of ?w p mode_0700] assms(3,4) by auto
  then have "os_MkdirTemp [] pat w = (Ok p, log_event (EvTemp p) v)"
    unfolding os_MkdirTemp_def by (subst temp_loop.simps) (simp add: p [symmetric] thenE_def bindE_def returnE_def)
  moreover from this have "alive (log_event (EvTemp p) v)"
    using alive_step [OF assms(1) keeps_temp(1)] MkdirTemp_run by blast
  ultimately show ?thesis by blast
qed

section \<open>Populate without images\<close>

definition no_images :: "OciBoot \<Rightarrow> bool" where
  "no_images b \<longleftrightarrow> BootLayer b = [] \<and> RepoDir b = [] \<and> Layers b = []"

lemma Populate_no_images:
  assumes "no_images b"
    and "os_MkdirAll (path_Dir (path_Join [target, ''krd/modules.squashfs''])) mode_0755 w = (Ok (), v)"
    and "copies_to (\<lambda>d. path_Join [target, d])
       ((path_Join [bootKitDir b, ''bootkit/modules.squashfs''], ''krd/modules.squashfs'') # t_iter T (Files b)) v = (Ok (), w')"
  shows "Populate T b target w = (Ok (), w')"
proof -
  have wrapped: "forE xs (\<lambda>(src, dest). wrapE (f src dest) (copyFile src (path_Join [target, dest]))) v = (Ok (), v')"
    if "copies_to (\<lambda>d. path_Join [target, d]) xs v = (Ok (), v')" for xs f v v'
    using that unfolding copies_to_def by (induction xs arbitrary: v) (auto simp: io_run thenE_Ok wrapE_Ok)
  from assms(3) obtain u where c: "copyFile (path_Join [bootKitDir b, ''bootkit/modules.squashfs''])
      (path_Join [target, ''krd/modules.squashfs'']) v = (Ok (), u)"
    and f: "copies_to (\<lambda>d. path_Join [target, d]) (t_iter T (Files b)) u = (Ok (), w')"
    by (auto simp: copies_to_def thenE_Ok)
  show ?thesis
    using assms(1,2) c wrapped [OF f]
    unfolding Populate_def Let_def no_images_def bindE_Ok wrapE_Ok unit_ex medium_dest if_run
    by (auto simp: returnE_Ok)
qed

lemma keeps_copies_to: "io_respects keeps_rel (copies_to g xs)"
  unfolding copies_to_def by (intro respects_intros)

lemma dir_prefix:
  assumes "alive w" and "is_dir_at (fs w) k" and "i \<le> length k"
  shows "is_dir_at (fs w) (take i k)"
proof -
  have "node_at (fs w) (take i k @ drop i k) \<noteq> None" using assms(2) by (auto simp: is_dir_at_iff)
  with assms(1,2) wf_fs_parent [of "fs w" "take i k" "drop i k"] show ?thesis
    by (cases "drop i k = []") (auto simp: alive_def wf_world_def)
qed

text \<open>Every file of --insert goes right into the tree, not into a directory of it.\<close>

definition flat_inserts :: "OciBoot \<Rightarrow> bool" where
  "flat_inserts b \<longleftrightarrow> list_all (\<lambda>(src, dst). length (plain_comps dst) = 1) (Files b)"

definition sources_there :: "world \<Rightarrow> OciBoot \<Rightarrow> bool" where
  "sources_there w b \<longleftrightarrow> list_all (\<lambda>(src, dst). src \<noteq> [] \<and> file_content w src \<noteq> None) (medium_files b)"

lemma Populate_works:
  assumes "alive u" and "target \<noteq> []" and "no_images b" and "insert_ok b" and "flat_inserts b"
    and "\<And>xs. mset (t_iter T xs) = mset xs" and dir: "is_dir_at (fs u) (path_key u target)"
    and empty: "\<And>q. q \<noteq> [] \<Longrightarrow> node_at (fs u) (path_key u target @ q) = None"
    and src: "list_all (\<lambda>(src, dst). src \<noteq> [] \<and> file_content u src \<noteq> None \<and> \<not> below (path_key u target) (path_key u src)) (medium_files b)"
  shows "\<exists>v. Populate T b target u = (Ok (), v) \<and> alive v \<and> same_env u v \<and>
    (\<forall>q. q \<noteq> path_key u target @ [''krd''] \<longrightarrow> q \<notin> set (medium_keys u target b) \<longrightarrow> node_at (fs v) q = node_at (fs u) q)"
proof -
  let ?K = "path_key u target" and ?g = "\<lambda>d. path_Join [target, d]"
  define xs where "xs = (path_Join [bootKitDir b, ''bootkit/modules.squashfs''], ''krd/modules.squashfs'') # t_iter T (Files b)"
  let ?p = "path_Dir (path_Join [target, ''krd/modules.squashfs''])"
  have kp: "path_key u ?p = ?K @ [''krd'']" by (rule tree_paths(4) [OF assms(2)])
  have pre: "\<exists>q. n = Dir q" if n: "node_at (fs u) (take i (path_key u ?p)) = Some n" for i n
  proof (cases "i \<le> length ?K")
    case True
    with n dir_prefix [OF assms(1) dir True] show ?thesis by (auto simp: kp is_dir_at_iff)
  next
    case False
    then have "take i (path_key u ?p) = ?K @ [''krd'']" by (simp add: kp)
    with n empty [of "[''krd'']"] show ?thesis by simp
  qed
  have "?p \<noteq> []" by (simp add: path_Dir_def)
  then obtain v where md: "os_MkdirAll ?p mode_0755 u = (Ok (), v)" and v: "alive v"
    using works_MkdirAll [OF assms(1), of ?p mode_0755] pre by blast
  note M = MkdirAll_OkD [OF md, unfolded kp]
  have key: "path_key v q = path_key u q" for q by (rule moved_key [OF M(1)])
  have old: "node_at (fs v) q = node_at (fs u) q" if "node_at (fs u) q \<noteq> None" for q using M(2) [of q] that by simp
  have krd: "is_dir_at (fs v) (?K @ [''krd''])"
    using M(2) [of "?K @ [''krd'']"] empty [of "[''krd'']"]
    by (auto simp: is_dir_at_iff intro!: exI [of _ "Suc (length ?K)"])
  have other: "node_at (fs v) q = node_at (fs u) q" if "q \<noteq> ?K @ [''krd'']" for q
  proof -
    have "node_at (fs u) q \<noteq> None" if "q = take i (?K @ [''krd''])" for i
      using that \<open>q \<noteq> ?K @ [''krd'']\<close> dir_prefix [OF assms(1) dir, of i] by (cases "i \<le> length ?K") (auto simp: is_dir_at_iff)
    with M(2) [of q] show ?thesis by auto
  qed
  have new: "node_at (fs v) (?K @ q) = None" if "q \<noteq> []" "q \<noteq> [''krd'']" for q
    using other [of "?K @ q"] empty that by simp
  have m: "mset xs = mset (medium_files b)" by (simp add: xs_def medium_files_def assms(6))
  then have set_xs: "set xs = set (medium_files b)" by (metis set_mset_mset)
  have keys: "medium_keys u target b = map (\<lambda>(src, dst). ?K @ plain_comps dst) (medium_files b)"
    by (rule medium_keys_eq [OF assms(4,2)])
  have mk: "mset (dest_keys ?g v xs) = mset (medium_keys u target b)"
    unfolding dest_keys_def key using arg_cong [OF m, of "image_mset (\<lambda>(src, dst). path_key u (?g dst))"] by simp
  have "distinct (medium_keys u target b)"
    using assms(4) by (simp add: keys insert_ok_def distinct_map inj_on_def split_def)
  then have d: "distinct (dest_keys ?g v xs)" using mset_eq_imp_distinct_iff [OF mk] by simp
  have dk: "set (dest_keys ?g v xs) = set (medium_keys u target b)" using mk by (metis set_mset_mset)
  have each: "s \<noteq> [] \<and> file_content v s \<noteq> None \<and> path_key v s \<notin> set (dest_keys ?g v xs) \<and> writable v (?g d)"
    if "(s, d) \<in> set (medium_files b)" for s d
  proof -
    from src that obtain c where s: "s \<noteq> []" "file_content u s = Some c" "\<not> below ?K (path_key u s)"
      by (auto simp: list_all_iff)
    have "file_content v s = Some c" using s(2) old by (auto simp: file_content_node key)
    moreover have "path_key v s \<notin> set (dest_keys ?g v xs)" using s(3) by (auto simp: dk keys key below_iff)
    moreover have "writable v (?g d)"
    proof -
      note D = medium_dests [OF assms(4) that]
      have kd: "path_key v (?g d) = ?K @ plain_comps d" using assms(2) D(1) by (simp add: key path_key_Join_plain)
      have "is_dir_at (fs v) (butlast (?K @ plain_comps d))"
      proof (cases "d = ''krd/modules.squashfs''")
        case True
        have "plain_comps ''krd/modules.squashfs'' = [''krd'', ''modules.squashfs'']" by code_simp
        with True krd show ?thesis by (simp add: butlast_append)
      next
        case False
        with that have "(s, d) \<in> set (Files b)" by (auto simp: medium_files_def)
        with assms(5) have "length (plain_comps d) = 1" by (auto simp: flat_inserts_def list_all_iff)
        then obtain c where "plain_comps d = [c]" by (cases "plain_comps d") auto
        with dir old show ?thesis by (auto simp: is_dir_at_iff butlast_append)
      qed
      with new [OF D(2,3)] assms(2) show ?thesis by (simp add: writable_def kd is_dir_at_def is_special_def)
    qed
    ultimately show ?thesis using s(1) by simp
  qed
  have all: "list_all (\<lambda>(s, d). s \<noteq> [] \<and> file_content v s \<noteq> None \<and> path_key v s \<notin> set (dest_keys ?g v xs) \<and> writable v (?g d)) xs"
    using each by (auto simp: list_all_iff set_xs)
  from copies_to_works [OF v d all] obtain v' where cp: "copies_to ?g xs v = (Ok (), v')" by blast
  have C: "same_env v v' \<and> trace v' = trace v \<and>
    (\<forall>q. q \<notin> set (dest_keys ?g v xs) \<longrightarrow> node_at (fs v') q = node_at (fs v) q) \<and>
    list_all (\<lambda>(src, dst). file_content v src \<noteq> None \<and> file_content v' (?g dst) = file_content v src) xs"
  proof (rule copies_to_node [OF cp _ _ d])
    show "list_all (\<lambda>(src, dst). \<not> is_special v src \<and> path_key v src \<notin> set (dest_keys ?g v xs)) xs"
      using each by (fastforce simp: list_all_iff set_xs is_special_iff file_content_node)
    show "list_all (\<lambda>k. \<not> (\<exists>m. node_at (fs v) k = Some (Special m))) (dest_keys ?g v xs)"
      using each by (auto simp: list_all_iff set_xs dest_keys_def writable_def is_special_iff)
  qed
  have "same_env u v'" using M(1) C same_env_trans unfolding moved_def by blast
  moreover have "node_at (fs v') q = node_at (fs u) q" if "q \<noteq> ?K @ [''krd'']" "q \<notin> set (medium_keys u target b)" for q
    using C other that by (simp add: dk)
  ultimately show ?thesis
    using Populate_no_images [OF assms(3) md cp [unfolded xs_def]] alive_quiet [OF v keeps_copies_to quiet_copies_to cp] by blast
qed

section \<open>The image of the disk\<close>

text \<open>What the libraries and programs are relied on to do: succeed, and leave every directory there.\<close>

definition keeps_dirs :: "filesys \<Rightarrow> filesys \<Rightarrow> bool" where
  "keeps_dirs m m' \<longleftrightarrow> (wf_fs m \<longrightarrow> wf_fs m') \<and> (\<forall>q. is_dir_at m q \<longrightarrow> is_dir_at m' q)"

definition partitions_made :: "disko_lib \<Rightarrow> bool" where
  "partitions_made K \<longleftrightarrow> (\<forall>disk parts m. \<exists>m'. CreatePartitions K disk parts m = (None, m') \<and> keeps_dirs m m')"

definition fat_made :: "programs \<Rightarrow> bool" where
  "fat_made P \<longleftrightarrow> (\<forall>d diskFile start len files m.
     (\<exists>out m'. P d (mkfs_args diskFile start len) m = (Exited 0 out, m') \<and> keeps_dirs m m') \<and>
     (\<exists>out m'. P d (mcopy_args diskFile start files) m = (Exited 0 out, m') \<and> keeps_dirs m m'))"

lemma alive_fs: "alive w \<Longrightarrow> same_env w v \<Longrightarrow> keeps_dirs (fs w) (fs v) \<Longrightarrow> alive v"
  by (auto simp: alive_def same_env_def wf_world_def keeps_dirs_def)

lemma ran_works:
  assumes "alive w" and "args \<noteq> []" and "\<exists>out m'. P (if dir = [] then cwd w else dir) args (fs w) = (Exited 0 out, m') \<and> keeps_dirs (fs w) m'"
  shows "\<exists>v. ran_ok P dir args w v \<and> alive v \<and> same_env w v \<and> keeps_dirs (fs w) (fs v)"
proof -
  from assms(3) obtain out m' where P: "P (if dir = [] then cwd w else dir) args (fs w) = (Exited 0 out, m')"
    and k: "keeps_dirs (fs w) m'" by blast
  let ?v = "(log_event (EvExec (if dir = [] then cwd w else dir) args) (w\<lparr>tick := Suc (tick w)\<rparr>))\<lparr>fs := m'\<rparr>"
  have r: "ran_ok P dir args w ?v" using assms(1,2) P by (simp add: ran_ok_def alive_def)
  then have "same_env w ?v" by (rule ran_ok_trace(2))
  with r k alive_fs [OF assms(1) this] show ?thesis by (intro exI [of _ ?v]) simp
qed

lemma mtools_works:
  assumes "alive w" and "srcDir \<noteq> []" and "is_dir_at (fs w) (path_key w srcDir)" and "len smod 1024 = 0" and "fat_made P"
  shows "\<exists>v. createAndCopyToFat32Mtools P srcDir diskFile start len w = (Ok (), v)"
proof -
  have "\<exists>v. ran_ok P [] (mkfs_args diskFile start len) w v \<and> alive v \<and> same_env w v \<and> keeps_dirs (fs w) (fs v)"
    using assms(5) unfolding fat_made_def by (intro ran_works [OF assms(1)]) (simp_all add: mkfs_args_def)
  then obtain v where mk: "ran_ok P [] (mkfs_args diskFile start len) w v" and v: "alive v" "same_env w v" "keeps_dirs (fs w) (fs v)"
    by blast
  have dir: "is_dir_at (fs v) (path_key v srcDir)"
    using assms(3) v(2,3) by (simp add: same_env_path_key keeps_dirs_def)
  have "\<exists>p u. filepath_Abs diskFile v = (Ok p, u) \<and> moved v u (fs v)"
    using v(1) by (auto simp: filepath_Abs_def bindE_Ok returnE_Ok sys_Ok alive_def moved_def)
  then obtain p u where ab: "filepath_Abs diskFile v = (Ok p, u)" and u: "moved v u (fs v)" by blast
  have au: "alive u" by (rule alive_same [OF v(1) u])
  have du: "is_dir_at (fs u) (path_key u srcDir)" using dir by (simp add: moved_fs [OF u] moved_key [OF u])
  have "works (os_Open srcDir) u (\<lambda>f x. f = file_of u srcDir \<and> moved u x (fs u))"
    using du by (intro works_Open [OF au assms(2)]) (auto simp: is_dir_at_iff)
  then obtain x where op: "os_Open srcDir u = (Ok (file_of u srcDir), x)" and x: "moved u x (fs u)" by (auto elim: worksE)
  have ax: "alive x" by (rule alive_same [OF au x])
  have "\<exists>files y. f_Readdirnames (file_of u srcDir) x = (Ok files, y) \<and> moved x y (fs x)"
    using du ax by (auto simp: f_Readdirnames_def sys_Ok alive_def moved_fs [OF x] is_dir_at_iff moved_def)
  then obtain files y where rd: "f_Readdirnames (file_of u srcDir) x = (Ok files, y)" and y: "moved x y (fs x)" by blast
  have ay: "alive y" by (rule alive_same [OF ax y])
  have "works (f_Close (file_of u srcDir)) y (\<lambda>_. alive)" using ay by (intro works_Close [OF ay]) (rule alive_same)
  then obtain z where cl: "f_Close (file_of u srcDir) y = (Ok (), z)" and z: "alive z" by (auto elim: worksE)
  have "\<exists>v. ran_ok P srcDir (mcopy_args p start files) z v \<and> alive v \<and> same_env z v \<and> keeps_dirs (fs z) (fs v)"
    using assms(5) unfolding fat_made_def by (intro ran_works [OF z]) (simp_all add: mcopy_args_def)
  then obtain v' where "ran_ok P srcDir (mcopy_args p start files) z v'" by blast
  then have "CombinedOutput_error P srcDir (mcopy_args p start files) z = (Ok (), v')" by (simp add: CombinedOutput_Ok)
  moreover have "RunCommand P (mkfs_args diskFile start len) w = (Ok (), v)" using mk by (simp add: RunCommand_Ok)
  ultimately show ?thesis
    using ab op rd cl assms(4) by (simp add: createAndCopyToFat32Mtools_def bindE_def wrapE_def catchE_def attemptE_def returnE_def)
qed

lemma genGptDisk_works:
  assumes "alive w" and "writable w diskFile" and "0 \<le> sz" and "FreeSpaces K (gpt_disk diskFile sz) = [s]" and "partitions_made K"
  shows "\<exists>v. genGptDisk K diskFile sz w = (Ok ((gpt_disk diskFile sz)\<lparr>dk_Partitions := [1 \<mapsto> esp_partition K s]\<rparr>), v) \<and>
    alive v \<and> same_env w v \<and> (\<forall>q. is_dir_at (fs w) q \<longrightarrow> is_dir_at (fs v) q)"
proof -
  from worksE [OF WriteFile_works [OF assms(1,2), of "[]" mode_0600]] obtain v where
    wr: "os_WriteFile diskFile [] mode_0600 w = (Ok (), v)" and v: "alive v" by (metis (full_types) unit.exhaust)
  have ns: "\<not> is_special w diskFile" and ne: "diskFile \<noteq> []" using assms(2) by (simp_all add: writable_def)
  note W = WriteFile_OkD [OF wr ns]
  obtain p where n: "node_at (fs v) (path_key v diskFile) = Some (File p [])" using W(1) by (auto simp: file_content_node)
  have fn: "find_node (v\<lparr>tick := Suc (tick v)\<rparr>) diskFile = Inr (File p [])"
    using find_node_alive [OF v ne n] ne by (simp add: find_node_def)
  let ?m = "fs_put (path_key v diskFile) (File p (resize (nat sz) [])) (fs v)"
  have "\<exists>u. os_Truncate diskFile sz v = (Ok (), u) \<and> moved v u ?m"
    using v fn assms(3) by (auto simp: os_Truncate_def sys_Ok put_node_def moved_def alive_def)
  then obtain u where tr: "os_Truncate diskFile sz v = (Ok (), u)" and u: "moved v u ?m" by blast
  have "wf_fs ?m" using v n by (auto simp: alive_def wf_world_def intro: wf_fs_write)
  then have au: "alive u" by (rule alive_moved [OF v u])
  let ?parts = "[1 \<mapsto> esp_partition K s]"
  from assms(5) obtain m' where c: "CreatePartitions K (gpt_disk diskFile sz) ?parts (fs u) = (None, m')" and k: "keeps_dirs (fs u) m'"
    unfolding partitions_made_def by blast
  let ?x = "(log_event (EvCall ''CreatePartitions'' [diskFile]) u)\<lparr>fs := m'\<rparr>"
  have env: "same_env u ?x" by (simp add: log_event_def same_env_def)
  have run: "genGptDisk K diskFile sz w = (Ok ((gpt_disk diskFile sz)\<lparr>dk_Partitions := ?parts\<rparr>), ?x)"
    using wr tr c assms(4) by (simp add: genGptDisk_def Let_def lib_call_def returnE_def bindE_def wrapE_def catchE_def)
  have "is_dir_at (fs ?x) q" if "is_dir_at (fs w) q" for q
  proof -
    have q: "q \<noteq> path_key w diskFile" using that assms(2) by (auto simp: writable_def)
    have "is_dir_at (fs u) q"
      using that W(2) [OF q] q by (simp add: moved_fs [OF u] is_dir_at_def same_env_path_key [OF W(4)])
    with k show ?thesis by (simp add: keeps_dirs_def)
  qed
  moreover have "alive ?x" using alive_fs [OF au env] k by simp
  moreover have "same_env w ?x" using W(4) u env same_env_trans unfolding moved_def by blast
  ultimately show ?thesis using run by blast
qed

section \<open>The disk\<close>

text \<open>The bootkit has what every boot mode needs.\<close>

definition kit_complete :: "world \<Rightarrow> OciBoot \<Rightarrow> bool" where
  "kit_complete w b \<longleftrightarrow> bootKitDir b \<noteq> [] \<and>
     file_content w (path_Join [bootKitDir b, ''bootkit/kernel.efi'']) \<noteq> None \<and>
     file_content w (path_Join [bootKitDir b, ''bootkit/shim.efi'']) \<noteq> None"

text \<open>The disk that the partition library makes of the size asked for, with room for one partition.\<close>

definition one_partition :: "disko_lib \<Rightarrow> string \<Rightarrow> int \<Rightarrow> bool" where
  "one_partition K diskFile sz \<longleftrightarrow> (case FreeSpaces K (gpt_disk diskFile sz) of
     [s] \<Rightarrow> sint (Partition_Size K (esp_partition K s)) smod 1024 = 0 | _ \<Rightarrow> False)"

text \<open>The directory that the first name MkdirTemp tries can be made.\<close>

definition temp_free :: "world \<Rightarrow> string \<Rightarrow> bool" where
  "temp_free w pat \<longleftrightarrow> (let k = path_key w (temp_path w [] pat (rands w (rnd w))) in
     is_dir_at (fs w) (butlast k) \<and> node_at (fs w) k = None)"

lemma disk_body_works:
  assumes "alive w" and "no_images b" and "insert_ok b" and "flat_inserts b" and "\<And>xs. mset (t_iter T xs) = mset xs"
    and "sources_there w b" and "dsk_EFIBootMode opts \<in> {EFIAuto, EFIShim, EFIKernel}" and "kit_complete w b"
    and "temp_free w ''OciBootCreate-''" and "writable w diskFile"
    and apart: "path_key w diskFile \<noteq> path_key w (temp_path w [] ''OciBootCreate-'' (rands w (rnd w)))"
    and "dsk_Impl opts \<noteq> ImplDiskfs" and "0 \<le> dsk_Size opts"
    and "one_partition (t_disko T) diskFile (if dsk_Size opts = 0 then default_size else dsk_Size opts)"
    and "partitions_made (t_disko T)" and "fat_made (t_progs T)"
  shows "\<exists>w'. disk_body T diskFile opts b w = (Ok (), w')"
proof -
  let ?sz = "if dsk_Size opts = 0 then default_size else dsk_Size opts"
  define tmpd where "tmpd = temp_path w [] ''OciBootCreate-'' (rands w (rnd w))"
  let ?K = "path_key w tmpd"
  have tf: "is_dir_at (fs w) (butlast ?K)" "node_at (fs w) ?K = None"
    using assms(9) by (simp_all add: temp_free_def tmpd_def Let_def)
  from MkdirTemp_works [OF assms(1) tmpd_def tf] obtain u where mk: "os_MkdirTemp [] ''OciBootCreate-'' w = (Ok tmpd, u)"
    and au: "alive u" by blast
  have wf: "wf_world w" using assms(1) by (simp add: alive_def)
  note N = new_tempdir [OF mk wf]
  note ne = N(2) and dirK = N(6) and empty = N(8) and out = N(10) and uw = N(9) and content_u = N(11)
  have ku: "path_key u p = path_key w p" for p by (rule same_env_path_key [OF N(1)])
  have src: "list_all (\<lambda>(src, dst). src \<noteq> [] \<and> file_content u src \<noteq> None \<and> \<not> below (path_key u tmpd) (path_key u src)) (medium_files b)"
    using assms(6) content_u by (fastforce simp: sources_there_def list_all_iff ku)
  have "\<exists>v. Populate T b tmpd u = (Ok (), v) \<and> alive v \<and> same_env u v \<and>
    (\<forall>q. q \<noteq> path_key u tmpd @ [''krd''] \<longrightarrow> q \<notin> set (medium_keys u tmpd b) \<longrightarrow> node_at (fs v) q = node_at (fs u) q)"
    by (rule Populate_works [OF au ne assms(2-5) _ _ src]) (simp_all add: ku dirK empty)
  then obtain v0 where po: "Populate T b tmpd u = (Ok (), v0)" and a0: "alive v0" and e0: "same_env u v0"
    and same: "\<forall>q. q \<noteq> path_key u tmpd @ [''krd''] \<longrightarrow> q \<notin> set (medium_keys u tmpd b) \<longrightarrow> node_at (fs v0) q = node_at (fs u) q"
    by blast
  have S: "same_nodes (\<lambda>q. \<not> image_part u tmpd q \<and> q \<noteq> path_key u tmpd @ [''krd''] \<and> q \<notin> set (medium_keys u tmpd b)) (fs u) (fs v0)"
    using same by (simp add: same_nodes_def)
  have k0: "path_key v0 p = path_key w p" for p using same_env_path_key [OF e0] ku by simp
  note O = outside_medium [OF assms(3) ne S, unfolded ku]
  have v0w: "node_at (fs v0) q = node_at (fs w) q" if "\<not> below ?K q" for q using O(1) uw that by simp
  have content0: "file_content v0 p = Some c" if "file_content w p = Some c" for p c
    using that v0w out by (auto simp: file_content_node k0)
  have dir0: "is_dir_at (fs v0) ?K" using O(2) dirK by (simp add: is_dir_at_def)
  have free: "efi_free v0 (path_key v0 tmpd)"
    unfolding efi_free_def k0 using O(3) empty by (auto simp: efi_part_def)
  let ?krn = "path_Join [bootKitDir b, ''bootkit/kernel.efi'']" and ?shm = "path_Join [bootKitDir b, ''bootkit/shim.efi'']"
  from assms(8) obtain k s where bd: "bootKitDir b \<noteq> []" and krn: "file_content v0 ?krn = Some k" and shm: "file_content v0 ?shm = Some s"
    using content0 by (auto simp: kit_complete_def)
  have "\<exists>w'. PopulateEFI T b (dsk_EFIBootMode opts) (dsk_CommandLine opts) tmpd v0 = (Ok (), w')"
    by (rule PopulateEFI_works [OF a0 ne _ free assms(7,5) bd]) (simp_all add: k0 dir0 krn shm)
  then obtain v1 where ef: "PopulateEFI T b (dsk_EFIBootMode opts) (dsk_CommandLine opts) tmpd v0 = (Ok (), v1)" by blast
  have a1: "alive v1" by (rule alive_quiet [OF a0 keeps_PopulateEFI quiet_PopulateEFI ef])
  have k1: "path_key v1 p = path_key w p" for p
    using quiet_run [OF quiet_PopulateEFI ef] same_env_path_key [of v0 v1 p] k0 by simp
  have made0: "made (fs v0) (path_key v0 tmpd)"
    using made_wf [of "fs v0" ?K] a0 dir0 by (auto simp: k0 alive_def wf_world_def is_dir_at_iff)
  note B = free_excludes [OF free krn] free_excludes [OF free shm]
  have v1w: "node_at (fs v1) q = node_at (fs w) q" if "\<not> below ?K q" for q
    using PopulateEFI_below [OF ef ne free made0 assms(7,5) refl refl B, of q] that v0w [OF that] by (simp add: k0)
  have dir1: "is_dir_at (fs v1) (path_key v1 tmpd)"
    using PopulateEFI_files [OF ef ne free assms(7,5) refl refl B(1) disjI2 [OF B(2)]] dir0
    by (auto simp: k1 is_dir_at_iff)
  have wr: "writable v1 diskFile"
  proof -
    let ?d = "path_key w diskFile"
    have d: "is_dir_at (fs w) (butlast ?d)" using assms(10) by (simp add: writable_def)
    then have b: "\<not> below ?K (butlast ?d)" using out by (auto simp: is_dir_at_iff)
    have "\<not> below ?K ?d"
    proof
      assume "below ?K ?d"
      then obtain r where r: "?d = ?K @ r" by (auto simp: below_iff)
      with apart have "r \<noteq> []" by (auto simp: tmpd_def)
      with r b show False by (auto simp: below_iff butlast_append)
    qed
    with v1w b assms(10) show ?thesis by (simp add: writable_def k1 is_dir_at_def is_special_def)
  qed
  from assms(14) obtain s0 where fr: "FreeSpaces (t_disko T) (gpt_disk diskFile ?sz) = [s0]"
    and md: "sint (Partition_Size (t_disko T) (esp_partition (t_disko T) s0)) smod 1024 = 0"
    unfolding one_partition_def by (auto split: list.splits)
  have "0 \<le> ?sz" using assms(13) by (simp add: default_size_def)
  from genGptDisk_works [OF a1 wr this fr assms(15)] obtain v2 where
    gp: "genGptDisk (t_disko T) diskFile ?sz v1 =
      (Ok ((gpt_disk diskFile ?sz)\<lparr>dk_Partitions := [1 \<mapsto> esp_partition (t_disko T) s0]\<rparr>), v2)"
    and a2: "alive v2" and e2: "same_env v1 v2" and d2: "\<And>q. is_dir_at (fs v1) q \<Longrightarrow> is_dir_at (fs v2) q" by blast
  have dir2: "is_dir_at (fs v2) (path_key v2 tmpd)" using d2 [OF dir1] same_env_path_key [OF e2] by simp
  from mtools_works [OF a2 ne dir2 md assms(16)] obtain v3 where
    "createAndCopyToFat32Mtools (t_progs T) tmpd diskFile (sint (p_Start (esp_partition (t_disko T) s0)))
      (sint (Partition_Size (t_disko T) (esp_partition (t_disko T) s0))) v2 = (Ok (), v3)" by blast
  moreover have "is_Ok r \<or> (\<exists>e. r = Err e)" if "os_RemoveAll tmpd v3 = (r, v4)" for r v4
    using that by (auto simp: os_RemoveAll_def sysp_def Let_def split: option.splits sum.splits if_splits)
  ultimately show ?thesis
    using mk po ef gp assms(12) by (cases "os_RemoveAll tmpd v3") (auto simp: disk_body_def bindE_Ok deferE_Ok Let_def)
qed

section \<open>A local bootkit\<close>

lemma sees_nothing:
  assumes "alive w" and "p \<noteq> []" and "is_dir_at (fs w) (butlast (path_key w p))" and "node_at (fs w) (path_key w p) = None"
  shows "\<exists>v. oci_PathExists p w = (Ok False, v) \<and> moved w v (fs w)"
proof -
  have "path_errno (fs w) [] (path_key w p) = None"
    using assms(1,3) by (auto simp: alive_def wf_world_def intro: path_errno_dir)
  then have "find_node (w\<lparr>tick := Suc (tick w)\<rparr>) p = Inl ENOENT"
    using assms(2,4) by (simp add: find_node_def resolve_node_def)
  then have "os_Stat p w = (Err (PathError ''stat'' p ENOENT), w\<lparr>tick := Suc (tick w)\<rparr>)"
    using assms(1) by (simp add: os_Stat_def sys_def sysp_def Let_def alive_def)
  then show ?thesis
    by (simp add: oci_PathExists_def bindE_def attemptE_def catchE_def returnE_def moved_def)
qed

lemma sees_dir:
  assumes "alive w" and "p \<noteq> []" and "is_dir_at (fs w) (path_key w p)"
  shows "\<exists>d v. oci_isDir p w = (Ok d, v) \<and> moved w v (fs w)"
proof -
  have "works (oci_isDir p) w (\<lambda>d v. moved w v (fs w))"
    unfolding oci_isDir_def works_bind
  proof (rule works_attempt, rule works_Open [OF assms(1,2)])
    from assms(3) obtain m where m: "node_at (fs w) (path_key w p) = Some (Dir m)" by (auto simp: is_dir_at_iff)
    then show "node_at (fs w) (path_key w p) \<noteq> None" by simp
    fix v
    assume v: "moved w v (fs w)"
    show "works (case Inr (file_of w p) of Inl e \<Rightarrow> returnE False | Inr f \<Rightarrow> bindE (attemptE (f_Stat f)) (\<lambda>fi.
        returnE (case fi of Inl e \<Rightarrow> False | Inr i \<Rightarrow> fi_dir i))) v (\<lambda>d v. moved w v (fs w))"
      using m moved_trans [OF v]
      by (auto simp: works_bind moved_fs [OF v] intro!: works_attempt works_fStat [OF alive_same [OF assms(1) v], where n = "Dir m"])
  qed
  then show ?thesis by (auto simp: works_def)
qed

lemma getBootKit_works:
  assumes "alive w" and "\<not> is_oci_ref kit" and "path_IsAbs kit" and d: "is_dir_at (fs w) (path_key w (path_Clean kit))"
    and "is_dir_at (fs w) (path_key w (path_Join [path_Clean kit, ''bootkit'']))"
    and "node_at (fs w) (path_key w (path_Join [path_Clean kit, ''export''])) = None"
  shows "\<exists>v. getBootKit P L kit w = (Ok (NoCleanup, path_Clean kit, None), v) \<and> moved w v (fs w)"
proof -
  have ne: "path_Clean kit \<noteq> []" using assms(3) by (auto simp: path_Clean_def path_of_comps_def)
  have p: "plain_path ''export''" "plain_comps ''export'' = [''export'']" by code_simp+
  have k: "path_key w (path_Join [path_Clean kit, ''export'']) = path_key w (path_Clean kit) @ [''export'']"
    using ne p by (simp add: path_key_Join_plain)
  have j: "path_Join [path_Clean kit, c] \<noteq> []" for c using ne by simp
  from sees_nothing [OF assms(1) j _ assms(6)] d obtain v where ex: "oci_PathExists (path_Join [path_Clean kit, ''export'']) w = (Ok False, v)"
    and v: "moved w v (fs w)" by (auto simp: k)
  have "is_dir_at (fs v) (path_key v (path_Join [path_Clean kit, ''bootkit'']))"
    using assms(5) by (simp add: moved_fs [OF v] moved_key [OF v])
  from sees_dir [OF alive_same [OF assms(1) v] j this] obtain r u where
    dr: "oci_isDir (path_Join [path_Clean kit, ''bootkit'']) v = (Ok r, u)" and u: "moved v u (fs v)" by blast
  have "getBootKit P L kit w = (Ok (NoCleanup, path_Clean kit, None), u)"
    using assms(2,3) ex dr
    by (simp add: getBootKit_def getBootKit_tail_def filepath_Abs_def Let_def bindE_def attemptE_def catchE_def returnE_def thenE_def)
  with moved_trans [OF v u] show ?thesis by (auto simp: moved_fs [OF v])
qed

section \<open>doMain\<close>

text \<open>The temporary directory has no entry that MkdirTemp could run into.\<close>

definition temp_clear :: "world \<Rightarrow> string \<Rightarrow> bool" where
  "temp_clear w pat \<longleftrightarrow> (\<forall>n. is_dir_at (fs w) (butlast (path_key w (temp_path w [] pat n))) \<and>
     node_at (fs w) (path_key w (temp_path w [] pat n)) = None)"

lemma temp_clear_free: "temp_clear w pat \<Longrightarrow> moved w v (fs w) \<Longrightarrow> temp_free v pat"
  using temp_path_env [of w v] by (simp add: temp_clear_def temp_free_def Let_def moved_fs moved_key) (simp add: moved_def)

lemma kit_complete_dirs:
  assumes "wf_fs (fs w)" and "kit_complete w b"
  shows "is_dir_at (fs w) (path_key w (bootKitDir b))"
    and "is_dir_at (fs w) (path_key w (path_Join [bootKitDir b, ''bootkit'']))"
proof -
  let ?d = "bootKitDir b"
  have ne: "?d \<noteq> []" using assms(2) by (simp add: kit_complete_def)
  have p: "plain_path ''bootkit''" "plain_comps ''bootkit'' = [''bootkit'']" by code_simp+
  have b: "path_key w (path_Join [?d, ''bootkit'']) = path_key w ?d @ [''bootkit'']"
    using ne p by (simp add: path_key_Join_plain)
  have "node_at (fs w) (path_key w (path_Join [?d, ''bootkit'']) @ [''kernel.efi'']) \<noteq> None"
    using assms(2) kit_paths(1) [OF ne, of w] by (auto simp: kit_complete_def file_content_node)
  from wf_fs_parent [OF assms(1) this] show bk: "is_dir_at (fs w) (path_key w (path_Join [?d, ''bootkit'']))" by simp
  then have "node_at (fs w) (path_key w ?d @ [''bootkit'']) \<noteq> None" by (auto simp: b is_dir_at_iff)
  from wf_fs_parent [OF assms(1) this] show "is_dir_at (fs w) (path_key w ?d)" by simp
qed

lemma CreateDisk_works:
  assumes "alive w" and b0: "b = b0\<lparr>cleanups := [NoCleanup], bootKitDir := path_Clean (BootKit b0)\<rparr>"
    and "cleanups b0 = []" and "bootKitDir b0 = []" and "\<not> is_oci_ref (BootKit b0)" and "path_IsAbs (BootKit b0)"
    and "node_at (fs w) (path_key w (path_Join [bootKitDir b, ''export''])) = None"
    and "no_images b" and "insert_ok b" and "flat_inserts b" and "\<And>xs. mset (t_iter T xs) = mset xs"
    and "sources_there w b" and "dsk_EFIBootMode opts \<in> {EFIAuto, EFIShim, EFIKernel}" and "kit_complete w b"
    and "temp_clear w ''OciBootCreate-''" and "writable w diskFile"
    and "\<And>n. path_key w diskFile \<noteq> path_key w (temp_path w [] ''OciBootCreate-'' n)"
    and "dsk_Impl opts \<noteq> ImplDiskfs" and "0 \<le> dsk_Size opts"
    and "one_partition (t_disko T) diskFile (if dsk_Size opts = 0 then default_size else dsk_Size opts)"
    and "partitions_made (t_disko T)" and "fat_made (t_progs T)"
  shows "\<exists>v. CreateDisk T diskFile opts (w, b0) = (Ok (), (v, b))"
proof -
  have wf: "wf_fs (fs w)" using assms(1) by (simp add: alive_def wf_world_def)
  have bd: "bootKitDir b = path_Clean (BootKit b0)" by (simp add: b0)
  note D = kit_complete_dirs [OF wf assms(14)]
  obtain v where gb: "getBootKit (t_progs T) (t_oci T) (BootKit b0) w = (Ok (NoCleanup, path_Clean (BootKit b0), None), v)"
    and v: "moved w v (fs w)"
    using getBootKit_works [OF assms(1,5,6)] D assms(7) unfolding bd by blast
  have st: "sources_there v b" "kit_complete v b"
    using assms(12,14) by (simp_all add: sources_there_def kit_complete_def file_content_def moved_fs [OF v] moved_key [OF v])
  have "path_key v diskFile \<noteq> path_key v (temp_path v [] ''OciBootCreate-'' (rands v (rnd v)))"
    using assms(17) v temp_path_env [of w v] by (simp add: moved_key [OF v]) (simp add: moved_def)
  from disk_body_works [OF alive_same [OF assms(1) v] assms(8-11) st(1) assms(13) st(2) temp_clear_free [OF assms(15) v] _ this assms(18-22)]
  obtain u where "disk_body T diskFile opts b v = (Ok (), u)" using assms(16) by (auto simp: writable_moved [OF v])
  with gb assms(3,4) show ?thesis
    by (simp add: CreateDisk_def OciBoot_getBootKit_def bindE_def getE_def liftW_def modifyO_def b0)
qed


text \<open>A bootkit in /k, an empty /t for temporary files, and a file of the bootkit to insert.\<close>

abbreviation live_ctx :: cli_ctx where
  "live_ctx \<equiv> (boot_ctx False ''efi-shim'')\<lparr>ctx_StringSlice := (\<lambda>n. if n = ''insert'' then [''/k/bootkit/kernel.efi:k.efi''] else [])\<rparr>"

abbreviation live_boot :: OciBoot where
  "live_boot \<equiv> \<lparr>BootKit = ''/k'', BootLayer = [], Files = [(''/k/bootkit/kernel.efi'', ''k.efi'')], Layers = [],
     cleanups = [NoCleanup], bootKitDir = ''/k'', RepoDir = []\<rparr>"

lemma live_temp: "slash \<notin> set pat \<Longrightarrow> path_key (sample_world kit_fs) (temp_path (sample_world kit_fs) [] pat n) = [''t'', pat @ dec n]"
proof -
  assume p: "slash \<notin> set pat"
  obtain X where X: "\<And>pat n. slash \<notin> set pat \<Longrightarrow>
      path_key (sample_world kit_fs) (temp_path (sample_world kit_fs) [] pat n) = X @ [pat @ dec n]"
    using temp_key by blast
  have "path_key (sample_world kit_fs) (temp_path (sample_world kit_fs) [] ''x'' 0) = [''t'', ''x0'']" by code_simp
  with X [of "''x''" 0] have "X = [''t'']" by (cases X) auto
  with X [OF p] show ?thesis by simp
qed


end
