(* ===== verification/DiskFS_Tree.thy ===== *)
theory DiskFS_Tree
  imports Populate_Tree Esp_Image
begin

text \<open>
  createAndCopyToFat32DiskFS against an abstract FAT volume: the content of the volume as a map
  from paths to bytes, read off whatever representation the FAT library has.
\<close>

section \<open>The volume\<close>

text \<open>
  What the code relies on. cont g m is the content of the volume g in the state m of the file
  system, hp h the volume and the path an open file belongs to. Making a volume leaves it empty;
  Mkdir adds no file; OpenFile with O_CREATE adds an empty file if there is none; writing
  starts at the beginning; and all of it changes the image only, so nothing at or below k.
\<close>

definition fat_volume :: "('f, 'h) fat_lib \<Rightarrow> ('f \<Rightarrow> filesys \<Rightarrow> string \<rightharpoonup> bytes) \<Rightarrow> ('h \<Rightarrow> 'f \<times> string) \<Rightarrow> key \<Rightarrow> bool" where
  "fat_volume F cont hp k \<longleftrightarrow>
     (\<forall>fp a b c l m g m'. fat_Create F fp a b c l m = (Inr g, m') \<longrightarrow>
        cont g m' = Map.empty \<and> same_nodes (below k) m m') \<and>
     (\<forall>g d m m'. fat_Mkdir F g d m = (None, m') \<longrightarrow> cont g m' = cont g m \<and> same_nodes (below k) m m') \<and>
     (\<forall>g p m h m'. fat_OpenFile F g p m = (Inr h, m') \<longrightarrow> hp h = (g, p) \<and> same_nodes (below k) m m' \<and>
        cont g m' = (if cont g m p = None then (cont g m)(p \<mapsto> []) else cont g m)) \<and>
     (\<forall>h b m g p m'. hp h = (g, p) \<longrightarrow> fat_Write F h b m = (None, m') \<longrightarrow> same_nodes (below k) m m' \<and>
        cont g m' = (cont g m)(p \<mapsto> b @ drop (length b) (case cont g m p of None \<Rightarrow> [] | Some old \<Rightarrow> old))) \<and>
     (\<forall>h m g p r m'. hp h = (g, p) \<longrightarrow> fat_Close F h m = (r, m') \<longrightarrow> same_nodes (below k) m m' \<and> cont g m' = cont g m)"

lemma lib_open_Ok:
  "lib_open name args f w = (Ok x, w') \<longleftrightarrow> (\<exists>m. f (fs w) = (Inr x, m) \<and> w' = (log_event (EvCall name args) w)\<lparr>fs := m\<rparr>)"
  by (auto simp: lib_open_def split: prod.splits sum.splits)

lemma lib_call_fs:
  "lib_call name args f w = (r, w') \<Longrightarrow> \<exists>q. f (fs w) = (q, fs w') \<and> same_env w w'"
  by (auto simp: lib_call_def log_event_def same_env_def split: prod.splits option.splits)

lemma log_fs [simp]: "fs (log_event e w) = fs w" "same_env w ((log_event e w)\<lparr>fs := m\<rparr>)" "same_env w (log_event e w)"
  by (simp_all add: log_event_def same_env_def)

lemma fat_copy_Ok:
  assumes "fat_copy_file F g fname dest w = (Ok (), w')" and "fat_volume F cont hp k"
    and "below k (path_key w fname)" and "node_at (fs w) (path_key w fname) = Some (File p b)"
    and "cont g (fs w) dest = None"
  shows "same_env w w'" and "same_nodes (below k) (fs w) (fs w')" and "cont g (fs w') = (cont g (fs w))(dest \<mapsto> b)"
proof -
  from assms(1) obtain f v0 v1 h v2 v3 b' v4 v5 r6 v6 r7 where op: "os_Open fname w = (Ok f, v0)"
    and md: "lib_call ''fat.Mkdir'' [path_Dir dest] (fat_Mkdir F g (path_Dir dest)) v0 = (Ok (), v1)"
    and oh: "lib_open ''fat.OpenFile'' [dest] (fat_OpenFile F g dest) v1 = (Ok h, v2)"
    and pr: "fmt_Printf (''copying to '' @ dest @ [CHR 0x0A]) v2 = (Ok (), v3)"
    and rd: "f_Read f v3 = (Ok b', v4)" and wr: "lib_call ''fat.Write'' [dest] (fat_Write F h b') v4 = (Ok (), v5)"
    and ch: "lib_call ''fat.Close'' [dest] (fat_Close F h) v5 = (r6, v6)" and cl: "f_Close f v6 = (r7, w')"
    unfolding fat_copy_file_def bindE_Ok wrapE_Ok deferE_Ok unit_ex by blast
  note V = assms(2) [unfolded fat_volume_def]
  note O = Open_OkD [OF op]
  have m0: "fs v0 = fs w" "same_env w v0" using O(2) by (simp_all add: moved_def)
  have m1: "same_env v0 v1 \<and> cont g (fs v1) = cont g (fs v0) \<and> same_nodes (below k) (fs v0) (fs v1)"
    using md V by (auto simp: lib_call_Ok)
  have m2: "same_env v1 v2 \<and> hp h = (g, dest) \<and> same_nodes (below k) (fs v1) (fs v2) \<and>
      cont g (fs v2) = (if cont g (fs v1) dest = None then (cont g (fs v1))(dest \<mapsto> []) else cont g (fs v1))"
    using oh V by (auto simp: lib_open_Ok)
  have m3: "same_env v2 v3 \<and> fs v3 = fs v2" using pr by (auto simp: fmt_Printf_def)
  have src: "node_at (fs v3) (path_key w fname) = Some (File p b)"
    using m1 m2 m3 m0 assms(3,4) by (simp add: same_nodes_def)
  have b': "b' = b" and m4: "fs v4 = fs v3 \<and> same_env v3 v4"
    using Read_OkD [OF rd] src O(1) by (auto simp: moved_def)
  have m5: "same_env v4 v5 \<and> same_nodes (below k) (fs v4) (fs v5) \<and>
      cont g (fs v5) = (cont g (fs v4))(dest \<mapsto> b @ drop (length b) (case cont g (fs v4) dest of None \<Rightarrow> [] | Some old \<Rightarrow> old))"
    using wr V m2 by (auto simp: lib_call_Ok b')
  have m6: "same_env v5 v6 \<and> same_nodes (below k) (fs v5) (fs v6) \<and> cont g (fs v6) = cont g (fs v5)"
    using lib_call_fs [OF ch] V m2 by blast
  have m7: "fs w' = fs v6 \<and> same_env v6 w'" using Close_moved [OF cl] by (simp add: moved_def)
  show "same_env w w'" using m0 m1 m2 m3 m4 m5 m6 m7 same_env_trans by metis
  show "same_nodes (below k) (fs w) (fs w')"
    using m0 m1 m2 m3 m4 m5 m6 m7 by (simp add: same_nodes_def)
  show "cont g (fs w') = (cont g (fs w))(dest \<mapsto> b)"
    using m0 m1 m2 m3 m4 m5 m6 m7 assms(5) by simp
qed

section \<open>The walk\<close>

definition file_bytes :: "filesys \<Rightarrow> key \<Rightarrow> bytes option" where
  "file_bytes m q = (case node_at m q of Some (File p b) \<Rightarrow> Some b | _ \<Rightarrow> None)"

lemma file_bytes_Some: "file_bytes m q = Some b \<longleftrightarrow> (\<exists>p. node_at m q = Some (File p b))"
  by (auto simp: file_bytes_def split: option.splits node.splits)

text \<open>One entry of the tree: a regular file becomes a file of the volume, a directory adds none.\<close>

lemma walk_entry:
  assumes "fat_walk_fn F g src (src @ ''/'' @ rel) (Inr (node_info n)) w = (Ok (), w')" and "fat_volume F cont hp k"
    and "below k (path_key w (src @ ''/'' @ rel))" and "node_at (fs w) (path_key w (src @ ''/'' @ rel)) = Some n"
    and "cont g (fs w) (''/'' @ rel) = None"
  shows "same_env w w' \<and> same_nodes (below k) (fs w) (fs w') \<and> (\<nexists>p. n = Special p) \<and>
    cont g (fs w') = (case n of File p b \<Rightarrow> (cont g (fs w))(''/'' @ rel \<mapsto> b) | _ \<Rightarrow> cont g (fs w))"
proof (cases n)
  case (File p b)
  with assms(1) have "fat_copy_file F g (src @ ''/'' @ rel) (''/'' @ rel) w = (Ok (), w')"
    by (simp add: fat_walk_fn_def Let_def)
  from fat_copy_Ok [OF this assms(2,3) _ assms(5)] assms(4) File show ?thesis by simp
next
  case (Dir p)
  with assms(1) have "lib_call ''fat.Mkdir'' [path_Dir (''/'' @ rel)] (fat_Mkdir F g (path_Dir (''/'' @ rel))) w = (Ok (), w')"
    by (simp add: fat_walk_fn_def Let_def)
  with assms(2) Dir show ?thesis by (auto simp: fat_volume_def lib_call_Ok)
next
  case (Special p)
  with assms(1) show ?thesis by (simp add: fat_walk_fn_def Let_def throwE_Ok)
qed

lemma join_proper_inject:
  assumes "list_all proper_comp r" "list_all proper_comp r'" "r \<noteq> []" "r' \<noteq> []" "join_with ''/'' r = join_with ''/'' r'"
  shows "r = r'"
  using plain_join_key [OF assms(1,3)] plain_join_key [OF assms(2,4)] assms(5) by metis

lemma walk_all:
  assumes "forE rels (\<lambda>rel. bindE (attemptE (os_Stat (src @ ''/'' @ join_with ''/'' rel)))
       (fat_walk_fn F g src (src @ ''/'' @ join_with ''/'' rel))) w = (Ok (), w')"
    and "fat_volume F cont hp k" and "distinct rels" and "list_all (\<lambda>r. list_all proper_comp r \<and> r \<noteq> []) rels"
    and "\<forall>r \<in> set rels. path_key w (src @ ''/'' @ join_with ''/'' r) = k @ r"
    and "\<forall>r \<in> set rels. cont g (fs w) (''/'' @ join_with ''/'' r) = None"
  shows "same_env w w' \<and> same_nodes (below k) (fs w) (fs w') \<and>
    (\<forall>r \<in> set rels. \<forall>p. node_at (fs w) (k @ r) \<noteq> Some (Special p)) \<and>
    (\<forall>d b. cont g (fs w') d = Some b \<longleftrightarrow> cont g (fs w) d = Some b \<or>
       (\<exists>r \<in> set rels. d = ''/'' @ join_with ''/'' r \<and> file_bytes (fs w) (k @ r) = Some b))"
  using assms(1,3-)
proof (induction rels arbitrary: w)
  case Nil
  then show ?case by (simp add: io_run same_nodes_def)
next
  case (Cons r rels)
  let ?f = "src @ ''/'' @ join_with ''/'' r" and ?d = "''/'' @ join_with ''/'' r"
  from Cons.prems(1) obtain q v0 v where st: "attemptE (os_Stat ?f) w = (Ok q, v0)"
    and fn: "fat_walk_fn F g src ?f q v0 = (Ok (), v)"
    and rest: "forE rels (\<lambda>rel. bindE (attemptE (os_Stat (src @ ''/'' @ join_with ''/'' rel)))
       (fat_walk_fn F g src (src @ ''/'' @ join_with ''/'' rel))) v = (Ok (), w')"
    unfolding forE.simps thenE_Ok bindE_Ok unit_ex by blast
  from fn obtain i where q: "q = Inr i" by (cases q) (auto simp: fat_walk_fn_def throwE_Ok)
  with st have "os_Stat ?f w = (Ok i, v0)" by (auto simp: attemptE_Ok)
  note S = Stat_OkD [OF this]
  have key: "path_key w ?f = k @ r" using Cons.prems(4) by simp
  from S(2) [unfolded key] obtain n where n: "node_at (fs w) (k @ r) = Some n" and i: "i = node_info n" by blast
  have m0: "fs v0 = fs w" "same_env w v0" using S(1) by (simp_all add: moved_def)
  have k0: "path_key v0 ?f = k @ r" using moved_key [OF S(1)] key by simp
  from walk_entry [OF fn [unfolded q i] assms(2)] n Cons.prems(5) m0 k0
  have e: "same_env v0 v" "same_nodes (below k) (fs w) (fs v)" "\<nexists>p. n = Special p"
    "cont g (fs v) = (case n of File p b \<Rightarrow> (cont g (fs w))(?d \<mapsto> b) | _ \<Rightarrow> cont g (fs w))"
    by (auto simp: below_iff m0(1) cong: node.case_cong)
  have env: "same_env w v" using m0(2) e(1) by (rule same_env_trans)
  have eq: "node_at (fs v) (k @ s) = node_at (fs w) (k @ s)" for s
    using e(2) by (simp add: same_nodes_def below_iff)
  have ne: "''/'' @ join_with ''/'' r' \<noteq> ?d" if "r' \<in> set rels" for r'
    using join_proper_inject [of r' r] that Cons.prems(2,3) by (auto simp: list_all_iff)
  have c: "cont g (fs v) d = (case file_bytes (fs w) (k @ r) of Some b \<Rightarrow> if d = ?d then Some b else cont g (fs w) d | None \<Rightarrow> cont g (fs w) d)" for d
    unfolding e(4) by (cases n) (simp_all add: file_bytes_def n)
  have IH: "same_env v w' \<and> same_nodes (below k) (fs v) (fs w') \<and>
    (\<forall>r \<in> set rels. \<forall>p. node_at (fs v) (k @ r) \<noteq> Some (Special p)) \<and>
    (\<forall>d b. cont g (fs w') d = Some b \<longleftrightarrow> cont g (fs v) d = Some b \<or>
       (\<exists>r \<in> set rels. d = ''/'' @ join_with ''/'' r \<and> file_bytes (fs v) (k @ r) = Some b))"
  proof (rule Cons.IH [OF rest])
    show "\<forall>r \<in> set rels. path_key v (src @ ''/'' @ join_with ''/'' r) = k @ r"
      using Cons.prems(4) by (simp add: same_env_path_key [OF env])
    show "\<forall>r \<in> set rels. cont g (fs v) (''/'' @ join_with ''/'' r) = None"
      using Cons.prems(5) ne by (simp add: c split: option.splits)
  qed (use Cons.prems in simp_all)
  have fb: "file_bytes (fs v) (k @ s) = file_bytes (fs w) (k @ s)" for s by (simp add: file_bytes_def eq)
  have now: "cont g (fs v) d = Some b \<longleftrightarrow> cont g (fs w) d = Some b \<or> d = ?d \<and> file_bytes (fs w) (k @ r) = Some b" for d b
    using Cons.prems(5) by (auto simp: c split: option.splits)
  have "same_env w w'" using env IH same_env_trans by blast
  moreover have "same_nodes (below k) (fs w) (fs w')" using e(2) IH same_nodes_trans by blast
  ultimately show ?case using IH e(3) n by (auto simp: now fb eq)
qed

section \<open>The whole tree\<close>

text \<open>An absolute path in the form path.Clean gives it, other than the root.\<close>

definition clean_dir :: "string \<Rightarrow> bool" where
  "clean_dir p \<longleftrightarrow> path_IsAbs p \<and> path_Clean p = p \<and> path_comps p \<noteq> []"

lemma clean_dir_eq: "clean_dir p \<Longrightarrow> p = ''/'' @ join_with ''/'' (path_comps p)"
  unfolding clean_dir_def by (metis path_Clean_def path_of_comps_def)

lemma clean_dir_Join:
  assumes "clean_dir p" and "list_all proper_comp r" and "r \<noteq> []"
  shows "path_Join [p, join_with ''/'' r] = p @ ''/'' @ join_with ''/'' r"
proof -
  have ne: "p \<noteq> []" using assms(1) by (auto simp: clean_dir_def)
  note p = clean_dir_eq [OF assms(1)]
  have "path_Join [p, join_with ''/'' r] = ''/'' @ join_with ''/'' (path_comps p @ r)"
    using path_Join_plain [OF ne] plain_join_key [OF assms(2,3)] assms(1) by (simp add: path_of_comps_def clean_dir_def)
  also have "\<dots> = p @ ''/'' @ join_with ''/'' r"
    using p assms(1,3) by (simp add: join_with_append clean_dir_def)
  finally show ?thesis .
qed

lemma clean_dir_no_slash: "clean_dir p \<Longrightarrow> \<not> HasSuffix p ''/''"
proof
  assume c: "clean_dir p" and "HasSuffix p ''/''"
  then have l: "last p = slash" by (auto simp: HasSuffix_def) (metis append_take_drop_id last_snoc)
  note p = clean_dir_eq [OF c]
  obtain cs x where cs: "path_comps p = cs @ [x]" using c by (cases "path_comps p" rule: rev_cases) (auto simp: clean_dir_def)
  have x: "slash \<notin> set x" "x \<noteq> []" using cleaned_no_slash [OF path_comps_cleaned, of x p] cs by auto
  have "join_with ''/'' (cs @ [x]) = (if cs = [] then x else join_with ''/'' cs @ ''/'' @ x)"
    by (simp add: join_with_append)
  then have "last p = last x" using p x(2) unfolding cs by (metis append_is_Nil_conv last_append)
  then have "last x = slash" using l by simp
  then show False using x last_in_set by metis
qed

lemma walk_rels_distinct: "distinct (walk_rels m k)"
proof -
  have "inj_on (drop (length k)) {q. take (length k) q = k}"
    by (rule inj_onI) (metis append_take_drop_id mem_Collect_eq)
  then have "inj_on (drop (length k)) (set (filter (\<lambda>q. take (length k) q = k \<and> q \<noteq> k) (remdups (map fst m))))"
    by (rule inj_on_subset) auto
  then show ?thesis by (simp add: walk_rels_def distinct_map)
qed

lemma set_walk_rels: "set (walk_rels m k) = {r. r \<noteq> [] \<and> node_at m (k @ r) \<noteq> None}"
proof -
  have "r \<in> set (walk_rels m k) \<longleftrightarrow> r \<noteq> [] \<and> k @ r \<in> fst ` set m" for r
  proof
    assume "r \<in> set (walk_rels m k)"
    then obtain q where q: "q \<in> fst ` set m" "take (length k) q = k" "q \<noteq> k" "r = drop (length k) q"
      by (auto simp: walk_rels_def)
    then have "q = k @ r" by (metis append_take_drop_id)
    then show "r \<noteq> [] \<and> k @ r \<in> fst ` set m" using q(1,3) by auto
  next
    assume r: "r \<noteq> [] \<and> k @ r \<in> fst ` set m"
    moreover have "r = drop (length k) (k @ r)" by simp
    ultimately show "r \<in> set (walk_rels m k)" unfolding walk_rels_def set_sort set_map by (intro image_eqI) auto
  qed
  moreover have "node_at m (k @ r) \<noteq> None \<longleftrightarrow> k @ r \<in> fst ` set m" if "r \<noteq> []" for r
    using that by (simp add: node_at_def map_of_eq_None_iff)
  ultimately show ?thesis by blast
qed

lemma OpenFile_plain:
  assumes "os_OpenFile p fl perm w = (Ok f, w')" and "O_CREATE \<notin> set fl" and "O_TRUNC \<notin> set fl"
  shows "moved w w' (fs w)" and "f_key f = path_key w p"
  using assms by (auto simp: os_OpenFile_def sys_Ok open_step_def Let_def split: option.splits if_splits node.splits)

lemma forE_cong: "(\<And>x. x \<in> set xs \<Longrightarrow> f x = h x) \<Longrightarrow> forE xs f = forE xs h"
  by (induction xs) simp_all

lemma walk_tree:
  assumes "filepath_Walk src (fat_walk_fn F g src) w = (Ok (), w')" and "clean_dir src" and "fat_volume F cont hp k"
    and "path_key w src = k" and "is_dir_at (fs w) k" and "\<forall>r. r \<noteq> [] \<longrightarrow> node_at (fs w) (k @ r) \<noteq> None \<longrightarrow> list_all proper_comp r"
    and "cont g (fs w) = Map.empty"
  shows "(\<forall>r p. node_at (fs w) (k @ r) \<noteq> Some (Special p)) \<and> (\<forall>d b. cont g (fs w') d = Some b \<longleftrightarrow>
    (\<exists>r p. d = ''/'' @ join_with ''/'' r \<and> node_at (fs w) (k @ r) = Some (File p b)))"
proof -
  have ne: "src \<noteq> []" using assms(2) by (auto simp: clean_dir_def)
  let ?fn = "fat_walk_fn F g src"
  from assms(1) obtain q v where st: "attemptE (os_Stat src) w = (Ok q, v)"
    and wk: "(case q of Inl e \<Rightarrow> ?fn src (Inl e)
       | Inr i \<Rightarrow> thenE (?fn src (Inr i))
           (bindE (getE (\<lambda>w. if fi_dir i then walk_rels (fs w) (path_key w src) else [])) (\<lambda>rels.
              forE rels (\<lambda>rel. bindE (attemptE (os_Stat (path_Join [src, join_with ''/'' rel])))
                (?fn (path_Join [src, join_with ''/'' rel])))))) v = (Ok (), w')"
    unfolding filepath_Walk_def Let_def bindE_Ok by blast
  from wk obtain i where q: "q = Inr i" by (cases q) (auto simp: fat_walk_fn_def throwE_Ok)
  with st have "os_Stat src w = (Ok i, v)" by (auto simp: attemptE_Ok)
  note S = Stat_OkD [OF this]
  have v: "fs v = fs w" "path_key v src = k" using S(1) moved_key [OF S(1)] assms(4) by (simp_all add: moved_def)
  have i: "fi_dir i" using S(2) assms(4,5) by (auto simp: is_dir_at_iff)
  let ?rels = "walk_rels (fs w) k"
  have pr: "list_all (\<lambda>r. list_all proper_comp r \<and> r \<noteq> []) ?rels"
    using assms(6) by (auto simp: list_all_iff set_walk_rels)
  have "forE ?rels (\<lambda>rel. bindE (attemptE (os_Stat (path_Join [src, join_with ''/'' rel])))
      (?fn (path_Join [src, join_with ''/'' rel]))) v = (Ok (), w')"
    using wk by (simp add: q i v fat_walk_fn_def thenE_Ok bindE_Ok getE_Ok returnE_Ok)
  moreover have J: "path_Join [src, join_with ''/'' r] = src @ ''/'' @ join_with ''/'' r" if "r \<in> set ?rels" for r
    using clean_dir_Join [OF assms(2)] pr that by (auto simp: list_all_iff)
  ultimately have run: "forE ?rels (\<lambda>rel. bindE (attemptE (os_Stat (src @ ''/'' @ join_with ''/'' rel)))
      (?fn (src @ ''/'' @ join_with ''/'' rel))) v = (Ok (), w')"
    using forE_cong [of ?rels "\<lambda>rel. bindE (attemptE (os_Stat (path_Join [src, join_with ''/'' rel])))
      (?fn (path_Join [src, join_with ''/'' rel]))" "\<lambda>rel. bindE (attemptE (os_Stat (src @ ''/'' @ join_with ''/'' rel)))
      (?fn (src @ ''/'' @ join_with ''/'' rel))"] by simp
  have keys: "path_key v (src @ ''/'' @ join_with ''/'' r) = k @ r" if "r \<in> set ?rels" for r
    using path_key_Join_rel [OF ne, of r v] J [OF that] pr that v(2) by (simp add: list_all_iff)
  from walk_all [OF run assms(3) walk_rels_distinct pr] keys assms(7)
  have A: "(\<forall>r \<in> set ?rels. \<forall>p. node_at (fs w) (k @ r) \<noteq> Some (Special p)) \<and>
    (\<forall>d b. cont g (fs w') d = Some b \<longleftrightarrow> (\<exists>r \<in> set ?rels. d = ''/'' @ join_with ''/'' r \<and> file_bytes (fs w) (k @ r) = Some b))"
    by (simp add: v)
  obtain p0 where d: "node_at (fs w) k = Some (Dir p0)" using assms(5) by (auto simp: is_dir_at_iff)
  have B: "r \<in> set ?rels" if "node_at (fs w) (k @ r) = Some n" and "\<nexists>p. n = Dir p" for r n
    using that d by (cases r) (auto simp: set_walk_rels)
  show ?thesis
  proof (intro conjI allI)
    show "node_at (fs w) (k @ r) \<noteq> Some (Special p)" for r p using A B by blast
    show "cont g (fs w') d = Some b \<longleftrightarrow>
      (\<exists>r p. d = ''/'' @ join_with ''/'' r \<and> node_at (fs w) (k @ r) = Some (File p b))" for d b
      using conjunct2 [OF A] B unfolding file_bytes_Some by blast
  qed
qed

text \<open>
  C14: When createAndCopyToFat32DiskFS returns nil, the volume it made has exactly the regular files
  of the tree, at their paths and with their bytes, and the tree had nothing but directories
  and regular files. (Of directories the volume has those of its files only: for a directory, Mkdir
  is called on its parent, so an empty one is not made.)
\<close>

theorem DiskFS_copies_tree:
  assumes "createAndCopyToFat32DiskFS F srcDir diskFile start len w = (Ok (), w')" and "clean_dir srcDir"
    and "wf_fs (fs w)" and "is_dir_at (fs w) (path_key w srcDir)" and "fat_volume F cont hp (path_key w srcDir)"
  shows "\<exists>fp g m. f_key fp = path_key w diskFile \<and>
    fat_Create F fp len start fat32BlockSize ISOLabel (fs w) = (Inr g, m) \<and>
    (\<forall>d b. cont g (fs w') d = Some b \<longleftrightarrow>
      (\<exists>r p. d = ''/'' @ join_with ''/'' r \<and> node_at (fs w) (path_key w srcDir @ r) = Some (File p b))) \<and>
    (\<forall>r p. node_at (fs w) (path_key w srcDir @ r) \<noteq> Some (Special p))"
proof -
  let ?k = "path_key w srcDir"
  have ne: "srcDir \<noteq> []" using assms(2) by (auto simp: clean_dir_def)
  note V = assms(5) [unfolded fat_volume_def]
  from assms(1) obtain fp v0 g v1 v4 r5 where op: "os_OpenFile diskFile [O_RDWR, O_EXCL] mode_0644 w = (Ok fp, v0)"
    and cr: "lib_open ''fat32.Create'' [diskFile] (fat_Create F fp len start fat32BlockSize ISOLabel) v0 = (Ok g, v1)"
    and wk: "filepath_Walk srcDir (fat_walk_fn F g srcDir) v1 = (Ok (), v4)"
    and cl: "f_Close fp v4 = (r5, w')"
    unfolding createAndCopyToFat32DiskFS_def Let_def bindE_Ok wrapE_Ok deferE_Ok unit_ex
      if_not_P [OF clean_dir_no_slash [OF assms(2)]]
    by blast
  have m0: "fs v0 = fs w" "same_env w v0" using OpenFile_plain(1) [OF op] by (simp_all add: moved_def)
  have k0: "f_key fp = path_key w diskFile" using OpenFile_plain(2) [OF op] by simp
  obtain m where m: "fat_Create F fp len start fat32BlockSize ISOLabel (fs w) = (Inr g, m)"
    using cr m0(1) by (auto simp: lib_open_Ok)
  have m1: "same_env v0 v1" "cont g (fs v1) = Map.empty" "same_nodes (below ?k) (fs v0) (fs v1)"
    using cr V by (auto simp: lib_open_Ok)
  have key: "path_key v1 srcDir = ?k" using m0(2) m1(1) by (simp add: same_env_path_key)
  have at: "node_at (fs v1) (?k @ r) = node_at (fs w) (?k @ r)" for r
    using m1(3) m0(1) by (simp add: same_nodes_def below_iff)
  have dir: "is_dir_at (fs v1) ?k" using assms(4) at [of "[]"] by (simp add: is_dir_at_iff)
  have proper: "\<forall>r. r \<noteq> [] \<longrightarrow> node_at (fs v1) (?k @ r) \<noteq> None \<longrightarrow> list_all proper_comp r"
    using assms(3) by (metis at list_all_append wf_fs_iff)
  have W: "\<forall>r p. node_at (fs v1) (?k @ r) \<noteq> Some (Special p)"
    "\<forall>d b. cont g (fs v4) d = Some b \<longleftrightarrow> (\<exists>r p. d = ''/'' @ join_with ''/'' r \<and> node_at (fs v1) (?k @ r) = Some (File p b))"
    using walk_tree [OF wk assms(2,5) key dir proper m1(2)] by blast+
  have "fs w' = fs v4" using Close_moved [OF cl] by (simp add: moved_def)
  then show ?thesis using W k0 m by (intro exI [of _ fp] exI [of _ g] exI [of _ m]) (simp add: at)
qed

text \<open>A FAT library that keeps the files of its volume in a directory /vol of the file system.\<close>

definition vol_put :: "string \<Rightarrow> bytes \<Rightarrow> filesys \<Rightarrow> filesys" where
  "vol_put p b m = fs_put [''vol'', p] (File mode_0644 b) m"

definition vol_content :: "unit \<Rightarrow> filesys \<Rightarrow> string \<rightharpoonup> bytes" where
  "vol_content g m p = file_bytes m [''vol'', p]"

definition vol_lib :: "(unit, string) fat_lib" where
  "vol_lib = \<lparr>fat_Create = (\<lambda>f a b c l m. (Inr (), fs_remove_tree [''vol''] m)), fat_Mkdir = (\<lambda>g d m. (None, m)),
     fat_OpenFile = (\<lambda>g p m. (Inr p, if file_bytes m [''vol'', p] = None then vol_put p [] m else m)),
     fat_Write = (\<lambda>p b m. (None, vol_put p (b @ drop (length b) (case file_bytes m [''vol'', p] of None \<Rightarrow> [] | Some old \<Rightarrow> old)) m)),
     fat_Close = (\<lambda>p m. (None, m))\<rparr>"

lemma vol_lib_volume: "c \<noteq> ''vol'' \<Longrightarrow> fat_volume vol_lib vol_content (\<lambda>p. ((), p)) (c # k)"
  unfolding fat_volume_def
  by (auto simp: vol_lib_def vol_put_def same_nodes_def below_iff node_at_remove_tree file_bytes_def fun_eq_iff vol_content_def)

definition vol_fs :: filesys where
  "vol_fs = [([''s''], Dir mode_0755), ([''s'', ''d''], Dir mode_0755), ([''s'', ''d'', ''f''], File mode_0644 [7, 8]),
     ([''s'', ''e''], File mode_0644 [9]), ([''disk''], File mode_0644 [])]"

lemma DiskFS_copies_tree_witness:
  "\<exists>fp g m. f_key fp = path_key (sample_world vol_fs) ''/disk'' \<and>
    fat_Create vol_lib fp 100 0 fat32BlockSize ISOLabel (fs (sample_world vol_fs)) = (Inr g, m) \<and>
    (\<forall>d b. vol_content g (fs (snd (createAndCopyToFat32DiskFS vol_lib ''/s'' ''/disk'' 0 100 (sample_world vol_fs)))) d = Some b \<longleftrightarrow>
      (\<exists>r p. d = ''/'' @ join_with ''/'' r \<and> node_at (fs (sample_world vol_fs)) (path_key (sample_world vol_fs) ''/s'' @ r) = Some (File p b))) \<and>
    (\<forall>r p. node_at (fs (sample_world vol_fs)) (path_key (sample_world vol_fs) ''/s'' @ r) \<noteq> Some (Special p))"
proof (rule DiskFS_copies_tree [where hp = "\<lambda>p. ((), p)"])
  have k: "path_key (sample_world vol_fs) ''/s'' = [''s'']" by code_simp
  have "fst (createAndCopyToFat32DiskFS vol_lib ''/s'' ''/disk'' 0 100 (sample_world vol_fs)) = Ok ()" by code_simp
  then show "createAndCopyToFat32DiskFS vol_lib ''/s'' ''/disk'' 0 100 (sample_world vol_fs) =
      (Ok (), snd (createAndCopyToFat32DiskFS vol_lib ''/s'' ''/disk'' 0 100 (sample_world vol_fs)))"
    by (metis prod.collapse)
  show "clean_dir ''/s''" by code_simp
  show "wf_fs (fs (sample_world vol_fs))" by code_simp
  show "is_dir_at (fs (sample_world vol_fs)) (path_key (sample_world vol_fs) ''/s'')" by code_simp
  show "fat_volume vol_lib vol_content (\<lambda>p. ((), p)) (path_key (sample_world vol_fs) ''/s'')"
    unfolding k by (rule vol_lib_volume) simp
qed

end
